(* ===== verification/Prelude.thy ===== *)
theory Prelude
  imports Main "HOL-Library.Word" "HOL-Library.Multiset" "HOL-Library.Code_Target_Numeral"
begin

text \<open>
  What every component of the model shares.

  A Go string and a Go byte slice are both a list of bytes, here a \<open>char list\<close> (a HOL
  \<open>char\<close> is one byte, and \<open>of_char\<close> its value). Where the difference between a nil and
  an empty slice is visible (the JSON encoding writes \<open>null\<close> for the first), the field is
  a \<open>'a slice\<close>: \<open>None\<close> is nil and \<open>elems\<close> is what the slice holds.
  \<open>uint64\<close>, \<open>uint32\<close> and \<open>int64\<close> are words that wrap as Go's do; an \<open>int64\<close> is
  read with \<open>sint\<close> and compared with the signed orders.

  A function that may panic returns an \<open>outcome\<close>; an error result of Go is a value of
  a sum type with the error on the left.
\<close>

section \<open>Types\<close>

type_synonym bytes = "char list"
type_synonym 'a slice = "'a list option"
type_synonym u8 = "8 word"
type_synonym u32 = "32 word"
type_synonym u64 = "64 word"
type_synonym i64 = "64 word"

definition elems :: "'a slice \<Rightarrow> 'a list" where
  "elems s = (case s of None \<Rightarrow> [] | Some xs \<Rightarrow> xs)"

lemma elems_simps [simp]: "elems None = []" "elems (Some xs) = xs"
  by (simp_all add: elems_def)

section \<open>Outcomes: a Go call returns or panics\<close>

datatype 'a outcome = Ret 'a | Panic string

definition obind :: "'a outcome \<Rightarrow> ('a \<Rightarrow> 'b outcome) \<Rightarrow> 'b outcome" where
  "obind m f = (case m of Ret x \<Rightarrow> f x | Panic s \<Rightarrow> Panic s)"

lemma obind_simps [simp]: "obind (Ret x) f = f x" "obind (Panic s) f = Panic s"
  by (simp_all add: obind_def)

lemma obind_Ret_right [simp]: "obind m Ret = m"
  by (cases m) simp_all

lemma obind_Ret_iff: "obind m f = Ret y \<longleftrightarrow> (\<exists>x. m = Ret x \<and> f x = Ret y)"
  by (cases m) auto

lemma obind_RetE:
  assumes "obind m f = Ret y"
  obtains x where "m = Ret x" and "f x = Ret y"
  using assms by (auto simp: obind_Ret_iff)

primrec ofold :: "('x \<Rightarrow> 's \<Rightarrow> 's outcome) \<Rightarrow> 'x list \<Rightarrow> 's \<Rightarrow> 's outcome" where
  "ofold f [] s = Ret s"
| "ofold f (x # xs) s = obind (f x s) (ofold f xs)"

lemma ofold_Nil [simp]: "ofold f [] = Ret"
  by (simp add: fun_eq_iff)

lemma ofold_single: "ofold f [x] = f x"
  by (simp add: fun_eq_iff)

lemma ofold_append: "ofold f (xs @ ys) s = obind (ofold f xs s) (ofold f ys)"
proof (induction xs arbitrary: s)
  case (Cons x xs)
  then show ?case by (cases "f x s") simp_all
qed simp

text \<open>An invariant that every step keeps is kept by the loop.\<close>

lemma ofold_invariant:
  assumes "ofold f xs s = Ret s'" and "I s"
    and "\<And>x s t. x \<in> set xs \<Longrightarrow> I s \<Longrightarrow> f x s = Ret t \<Longrightarrow> I t"
  shows "I s'"
  using assms by (induction xs arbitrary: s) (auto elim!: obind_RetE)

section \<open>Machines\<close>

text \<open>A component that is a step relation promises its clients an invariant: every step keeps it,
  so every run does.\<close>

locale machine =
  fixes step :: "'s \<Rightarrow> 's \<Rightarrow> bool" and inv :: "'s \<Rightarrow> bool"
  assumes keeps: "step s t \<Longrightarrow> inv s \<Longrightarrow> inv t"
begin

lemma run_keeps: "step\<^sup>*\<^sup>* s t \<Longrightarrow> inv s \<Longrightarrow> inv t"
  by (induction rule: rtranclp_induct) (auto intro: keeps)

end

text \<open>A machine whose steps are runs of another, seen through \<open>view\<close>, and what it has from the other's
  invariant.\<close>

locale simulation =
  fixes step :: "'s \<Rightarrow> 's \<Rightarrow> bool" and astep :: "'a \<Rightarrow> 'a \<Rightarrow> bool" and view :: "'s \<Rightarrow> 'a"
  assumes simulates: "step s t \<Longrightarrow> astep\<^sup>*\<^sup>* (view s) (view t)"
begin

lemma run_simulates: "step\<^sup>*\<^sup>* s t \<Longrightarrow> astep\<^sup>*\<^sup>* (view s) (view t)"
  by (induction rule: rtranclp_induct) (auto dest: simulates)

end

locale implementation = simulation step astep view + spec: machine astep inv
  for step :: "'s \<Rightarrow> 's \<Rightarrow> bool" and astep :: "'a \<Rightarrow> 'a \<Rightarrow> bool" and view :: "'s \<Rightarrow> 'a"
    and inv :: "'a \<Rightarrow> bool"
begin

lemma step_keeps_view: "step s t \<Longrightarrow> inv (view s) \<Longrightarrow> inv (view t)"
  by (rule spec.run_keeps [OF simulates])

end

sublocale implementation \<subseteq> machine step "\<lambda>s. inv (view s)"
  by unfold_locales (rule step_keeps_view)

section \<open>Machine words\<close>

text \<open>Addition that does not wrap, as a fact about the values.\<close>

lemma unat_plus_no_wrap:
  fixes a b :: "'a::len word"
  assumes "unat a + unat b < 2 ^ LENGTH('a)"
  shows "unat (a + b) = unat a + unat b"
  using assms by (simp add: unat_word_ariths)

lemma unat_minus_le:
  fixes a b :: "'a::len word"
  assumes "b \<le> a"
  shows "unat (a - b) = unat a - unat b"
  using assms by (rule unat_sub)

section \<open>Hint collections\<close>

text \<open>
  \<open>go_fmt\<close> holds the facts about number formatting, \<open>chain_intro\<close> the rules that carry
  the well-formedness of a chain from one operation to the next.
\<close>

named_theorems go_fmt "strconv, hex and fmt round trips"
named_theorems chain_intro "well-formedness of chains under the ledger's operations"

end
