(* ===== verification/Go_Std.thy ===== *)
theory Go_Std
  imports Prelude
begin

text \<open>
  What the program uses of Go's standard library: number formatting and parsing
  (\<open>strconv\<close>, \<open>fmt\<close> with \<open>%d\<close>), \<open>encoding/hex\<close>, \<open>math/big\<close> conversions,
  \<open>strings\<close>, and base64. Each function is written out, executable, over bytes.
\<close>

section \<open>Digits\<close>

definition digit_char :: "nat \<Rightarrow> char" where
  "digit_char d = ''0123456789abcdef'' ! d"

definition digit_val :: "char \<Rightarrow> nat option" where
  "digit_val c =
     (let n = of_char c :: nat in
      if 48 \<le> n \<and> n \<le> 57 then Some (n - 48)
      else if 97 \<le> n \<and> n \<le> 102 then Some (n - 87)
      else if 65 \<le> n \<and> n \<le> 70 then Some (n - 55)
      else None)"

lemma digit_val_digit_char [simp]: "d < 16 \<Longrightarrow> digit_val (digit_char d) = Some d"
proof -
  have "\<forall>d \<in> {0..<16}. digit_val (digit_char d) = Some d" by code_simp
  then show "d < 16 \<Longrightarrow> digit_val (digit_char d) = Some d" by auto
qed

lemma digit_char_inject: "d < 16 \<Longrightarrow> e < 16 \<Longrightarrow> digit_char d = digit_char e \<longleftrightarrow> d = e"
  by (metis digit_val_digit_char option.inject)

section \<open>strconv: formatting and parsing in a base\<close>

function format_nat :: "nat \<Rightarrow> nat \<Rightarrow> string" where
  "format_nat b n =
     (if n < b \<or> b < 2 then [digit_char n]
      else format_nat b (n div b) @ [digit_char (n mod b)])"
  by pat_completeness auto
termination
  by (relation "measure snd") auto

declare format_nat.simps [simp del]

definition FormatUint :: "u64 \<Rightarrow> nat \<Rightarrow> string" where
  "FormatUint x b = format_nat b (unat x)"

definition FormatInt :: "i64 \<Rightarrow> nat \<Rightarrow> string" where
  "FormatInt x b =
     (if sint x < 0 then CHR ''-'' # format_nat b (nat (- sint x))
      else format_nat b (nat (sint x)))"

fun parse_digits :: "nat \<Rightarrow> nat \<Rightarrow> string \<Rightarrow> nat option" where
  "parse_digits b acc [] = Some acc"
| "parse_digits b acc (c # cs) =
     (case digit_val c of
        None \<Rightarrow> None
      | Some d \<Rightarrow> if d < b then parse_digits b (acc * b + d) cs else None)"

text \<open>\<open>strconv.ParseUint(s, 10, 64)\<close>: an empty string, another character and a value
  past 64 bits are errors.\<close>

definition ParseUint :: "string \<Rightarrow> u64 option" where
  "ParseUint s =
     (if s = [] then None
      else case parse_digits 10 0 s of
             None \<Rightarrow> None
           | Some n \<Rightarrow> if n < 2 ^ 64 then Some (of_nat n) else None)"

lemma parse_digits_append:
  "parse_digits b a (xs @ ys) = Option.bind (parse_digits b a xs) (\<lambda>m. parse_digits b m ys)"
  by (induction xs arbitrary: a) (auto split: option.splits)

lemma format_nat_nonempty [simp]: "format_nat b n \<noteq> []"
  by (subst format_nat.simps) simp

lemma parse_format [go_fmt]:
  assumes "2 \<le> b" and "b \<le> 16"
  shows "parse_digits b 0 (format_nat b n) = Some n"
  using assms
proof (induction b n rule: format_nat.induct)
  case (1 b n)
  show ?case
  proof (cases "n < b")
    case True
    with 1 show ?thesis by (subst format_nat.simps) simp
  next
    case False
    with 1 have "parse_digits b 0 (format_nat b (n div b)) = Some (n div b)" by simp
    moreover have "n mod b < b" and "n mod b < 16"
      using "1.prems" by (auto intro: less_le_trans [OF mod_less_divisor])
    ultimately show ?thesis
      using False "1.prems" by (subst format_nat.simps) (simp add: parse_digits_append)
  qed
qed

lemma format_nat_inject [go_fmt]:
  assumes "2 \<le> b" and "b \<le> 16"
  shows "format_nat b m = format_nat b n \<longleftrightarrow> m = n"
  using parse_format [OF assms, of m] parse_format [OF assms, of n] by (metis option.inject)

lemma format_nat_digits:
  assumes "2 \<le> b" and "b \<le> 16" and "c \<in> set (format_nat b n)"
  shows "\<exists>d < b. c = digit_char d"
  using assms
proof (induction b n rule: format_nat.induct)
  case (1 b n)
  show ?case
  proof (cases "n < b")
    case True
    with "1.prems" show ?thesis by (auto simp: format_nat.simps [of b n])
  next
    case False
    then have "c \<in> set (format_nat b (n div b)) \<or> c = digit_char (n mod b)"
      using "1.prems" by (auto simp: format_nat.simps [of b n])
    moreover have "n mod b < b" using "1.prems" by simp
    ultimately show ?thesis using "1.IH" False "1.prems"(1,2) by force
  qed
qed

text \<open>A decimal or hexadecimal numeral holds no minus sign.\<close>

lemma format_nat_no_minus:
  assumes "2 \<le> b" and "b \<le> 16"
  shows "CHR ''-'' \<notin> set (format_nat b n)"
proof
  assume "CHR ''-'' \<in> set (format_nat b n)"
  then obtain d where "d < b" and "CHR ''-'' = digit_char d"
    using format_nat_digits [OF assms] by blast
  then have "digit_val CHR ''-'' = Some d" using assms by simp
  then show False by (simp add: digit_val_def)
qed

lemma ParseUint_FormatUint [simp, go_fmt]: "ParseUint (FormatUint x 10) = Some x"
proof -
  have "unat x < 2 ^ 64" using unsigned_less [of x] by simp
  then show ?thesis by (simp add: ParseUint_def FormatUint_def parse_format)
qed

lemma FormatUint_inject [go_fmt]:
  "2 \<le> b \<Longrightarrow> b \<le> 16 \<Longrightarrow> FormatUint x b = FormatUint y b \<longleftrightarrow> x = y"
  by (simp add: FormatUint_def format_nat_inject word_unat_eq_iff)

section \<open>encoding/hex and math/big\<close>

definition hex_byte :: "char \<Rightarrow> string" where
  "hex_byte c = (let n = of_char c :: nat in [digit_char (n div 16), digit_char (n mod 16)])"

definition hex_encode :: "bytes \<Rightarrow> string" where
  "hex_encode bs = concat (map hex_byte bs)"

fun hex_decode :: "string \<Rightarrow> bytes option" where
  "hex_decode [] = Some []"
| "hex_decode [_] = None"
| "hex_decode (a # b # s) =
     (case (digit_val a, digit_val b, hex_decode s) of
        (Some x, Some y, Some r) \<Rightarrow> Some (char_of (x * 16 + y) # r)
      | _ \<Rightarrow> None)"

text \<open>\<open>big.Int.SetBytes\<close> reads a big-endian magnitude, \<open>Bytes\<close> writes the shortest one.\<close>

definition SetBytes :: "bytes \<Rightarrow> nat" where
  "SetBytes bs = foldl (\<lambda>a c. a * 256 + of_char c) 0 bs"

function big_bytes :: "nat \<Rightarrow> bytes" where
  "big_bytes n = (if n = 0 then [] else big_bytes (n div 256) @ [char_of (n mod 256)])"
  by pat_completeness auto
termination
  by (relation "measure id") auto

declare big_bytes.simps [simp del]

lemma hex_encode_simps [simp]:
  "hex_encode [] = []"
  "hex_encode (c # cs) = hex_byte c @ hex_encode cs"
  "hex_encode (xs @ ys) = hex_encode xs @ hex_encode ys"
  by (simp_all add: hex_encode_def)

lemma length_hex_encode [simp]: "length (hex_encode bs) = 2 * length bs"
  by (induction bs) (simp_all add: hex_byte_def Let_def)

lemma hex_decode_encode [simp, go_fmt]: "hex_decode (hex_encode bs) = Some bs"
proof (induction bs)
  case (Cons c bs)
  have "(of_char c :: nat) div 16 < 16" and "(of_char c :: nat) mod 16 < 16"
    using nat_of_char_less_256 [of c] by (simp_all add: less_mult_imp_div_less)
  with Cons show ?case by (simp add: hex_byte_def Let_def)
qed simp

lemma hex_encode_inject [simp]: "hex_encode a = hex_encode b \<longleftrightarrow> a = b"
  by (metis hex_decode_encode option.inject)

lemma SetBytes_simps [simp]:
  "SetBytes [] = 0"
  "SetBytes (bs @ [c]) = SetBytes bs * 256 + of_char c"
  by (simp_all add: SetBytes_def)

lemma SetBytes_big_bytes [go_fmt]: "SetBytes (big_bytes n) = n"
proof (induction n rule: big_bytes.induct)
  case (1 n)
  show ?case
  proof (cases "n = 0")
    case True
    then show ?thesis by (subst big_bytes.simps) simp
  next
    case False
    with 1 show ?thesis by (subst big_bytes.simps) simp
  qed
qed

section \<open>strings\<close>

definition to_lower :: "char \<Rightarrow> char" where
  "to_lower c = (let n = of_char c :: nat in if 65 \<le> n \<and> n \<le> 90 then char_of (n + 32) else c)"

definition HasPrefix :: "string \<Rightarrow> string \<Rightarrow> bool" where
  "HasPrefix s p \<longleftrightarrow> take (length p) s = p"

lemma HasPrefix_append [simp]: "HasPrefix (p @ s) p"
  by (simp add: HasPrefix_def)

lemma HasPrefix_iff: "HasPrefix s p \<longleftrightarrow> (\<exists>r. s = p @ r)"
  by (metis HasPrefix_def HasPrefix_append append_take_drop_id)

end
