(* ===== verification/Consensus.thy ===== *)
theory Consensus
  imports Go_Std
begin

text \<open>
  \<open>internal/consensus/consensus.go\<close>: the monetary constants and checkpoints, the reward
  schedule, the difficulty adjustment, the proof-of-work test and the verification helpers.
  Errors are values of \<open>consensus_error\<close>, one constructor per message, carrying what the
  message prints. Keccak-256 (\<open>golang.org/x/crypto/sha3\<close>) is the argument \<open>keccak\<close>.
\<close>

section \<open>Constants\<close>

definition PoWLimit :: nat where
  "PoWLimit = 0xfffffffffffffffffffffffffffffffffffffffffffffffffffffffffff"

definition CoinUnit :: u64 where "CoinUnit = 100000000"
definition MaxSupply :: u64 where "MaxSupply = 785000000 * CoinUnit"
definition BlockReward :: u64 where "BlockReward = 50 * CoinUnit"
definition HalvingInterval :: u64 where "HalvingInterval = 7850000"
definition DefaultPort :: int where "DefaultPort = 19333"
definition AddressPrefix :: string where "AddressPrefix = ''xcosh''"
definition GenesisBits :: u32 where "GenesisBits = 0x1e0ffff0"
definition MaxBlockSizeBytes :: u64 where "MaxBlockSizeBytes = 4 * 1024 * 1024"
definition PowTargetTimespan :: i64 where "PowTargetTimespan = 2 * 24 * 60 * 60"
definition PowTargetSpacing :: i64 where "PowTargetSpacing = 35"
definition TargetBlockTimeSec :: i64 where "TargetBlockTimeSec = PowTargetSpacing"

definition ExpectedGenesisHash :: string where
  "ExpectedGenesisHash = ''000001c3e940690aa89495fe56d78c3e4d99a04957b9032fb19ffd7e98759b62''"

text \<open>The checkpoint map of the code is a list of its entries here, so that the loop over it
  is a computation.\<close>

definition HardcodedCheckpoints :: "(u64 \<times> string) list" where
  "HardcodedCheckpoints = [(0, ExpectedGenesisHash)]"

record ConsensusParameters =
  cp_DifficultyBits :: u64
  cp_GenesisBits :: u32
  cp_BlockReward :: u64
  cp_MaxSupply :: u64
  cp_HalvingInterval :: u64
  cp_DefaultPort :: int
  cp_AddressPrefix :: string
  cp_MaxBlockSizeBytes :: u64
  cp_PowTargetTimespan :: i64
  cp_PowTargetSpacing :: i64

definition DefaultConsensus :: ConsensusParameters where
  "DefaultConsensus =
     \<lparr>cp_DifficultyBits = 1,
      cp_GenesisBits = GenesisBits,
      cp_BlockReward = BlockReward,
      cp_MaxSupply = MaxSupply,
      cp_HalvingInterval = HalvingInterval,
      cp_DefaultPort = DefaultPort,
      cp_AddressPrefix = AddressPrefix,
      cp_MaxBlockSizeBytes = MaxBlockSizeBytes,
      cp_PowTargetTimespan = PowTargetTimespan,
      cp_PowTargetSpacing = PowTargetSpacing\<rparr>"

datatype consensus_error =
    InvalidGenesisHash string string
  | CheckpointMismatch u64 string string
  | RewardExceeded u64 u64
  | ReorgPastCheckpoint u64

section \<open>Operations\<close>

definition CalculateBlockReward :: "u64 \<Rightarrow> u64" where
  "CalculateBlockReward blockIndex =
     (let halvings = blockIndex div HalvingInterval in
      if halvings \<ge> 64 then 0 else drop_bit (unat halvings) BlockReward)"

definition CalculateNextDifficulty :: "i64 \<Rightarrow> i64 \<Rightarrow> u64 \<Rightarrow> u64" where
  "CalculateNextDifficulty prevBlockTimestamp currentBlockTimestamp prevDifficulty =
     (if prevBlockTimestamp = 0 \<or> currentBlockTimestamp \<le>s prevBlockTimestamp
      then (if prevDifficulty < 1 then 1 else prevDifficulty)
      else
        let timeElapsed = currentBlockTimestamp - prevBlockTimestamp;
            newDifficulty =
              (if timeElapsed <s TargetBlockTimeSec then prevDifficulty + 1
               else if TargetBlockTimeSec * 2 <s timeElapsed
               then (if prevDifficulty > 1 then prevDifficulty - 1 else prevDifficulty)
               else prevDifficulty)
        in if newDifficulty < 1 then 1 else newDifficulty)"

definition ValidatePoW :: "string \<Rightarrow> u64 \<Rightarrow> bool" where
  "ValidatePoW blockHashHex difficultyBits =
     (case hex_decode blockHashHex of
        None \<Rightarrow> False
      | Some hashBytes \<Rightarrow>
          let hashInt = SetBytes hashBytes in
          if hashInt > PoWLimit then False
          else
            let target = (if difficultyBits > 1
                          then drop_bit (unat difficultyBits) PoWLimit else PoWLimit)
            in hashInt \<le> target)"

text \<open>\<open>big.NewInt(x).Bytes()\<close> on an \<open>int64\<close>: the magnitude only, the sign is dropped.\<close>

definition int64_bytes :: "i64 \<Rightarrow> bytes" where
  "int64_bytes x = big_bytes (nat \<bar>sint x\<bar>)"

definition ComputeHeaderHash ::
  "(bytes \<Rightarrow> bytes) \<Rightarrow> string \<Rightarrow> string \<Rightarrow> i64 \<Rightarrow> u64 \<Rightarrow> string \<Rightarrow> string" where
  "ComputeHeaderHash keccak prevHash merkleRoot timestamp nonce message =
     hex_encode (keccak (concat
       [prevHash, merkleRoot, int64_bytes timestamp, int64_bytes nonce, message,
        int64_bytes MaxSupply, int64_bytes BlockReward]))"

definition VerifyGenesisCheckpoint :: "bytes \<Rightarrow> consensus_error option" where
  "VerifyGenesisCheckpoint blockHash =
     (let actualHashHex = hex_encode blockHash in
      if actualHashHex \<noteq> ExpectedGenesisHash
      then Some (InvalidGenesisHash ExpectedGenesisHash actualHashHex) else None)"

definition VerifyCheckpoint :: "u64 \<Rightarrow> bytes \<Rightarrow> consensus_error option" where
  "VerifyCheckpoint height blockHash =
     (case map_of HardcodedCheckpoints height of
        None \<Rightarrow> None
      | Some expectedHash \<Rightarrow>
          let actualHashHex = hex_encode blockHash in
          if actualHashHex \<noteq> expectedHash
          then Some (CheckpointMismatch height expectedHash actualHashHex) else None)"

definition VerifyBlockReward :: "u64 \<Rightarrow> u64 \<Rightarrow> u64 \<Rightarrow> u64 \<Rightarrow> consensus_error option" where
  "VerifyBlockReward rewardClaimed feesCollected blockIndex currentSupply =
     (let r = CalculateBlockReward blockIndex;
          standardReward =
            (if currentSupply \<ge> MaxSupply then 0
             else if currentSupply + r > MaxSupply then MaxSupply - currentSupply else r)
      in if rewardClaimed > standardReward + feesCollected
         then Some (RewardExceeded rewardClaimed (standardReward + feesCollected)) else None)"

text \<open>The loop over the checkpoint map: the first height the block is strictly below.\<close>

fun checkpoint_boundary :: "u64 \<Rightarrow> (u64 \<times> string) list \<Rightarrow> consensus_error option" where
  "checkpoint_boundary blockHeight [] = None"
| "checkpoint_boundary blockHeight ((cpHeight, _) # cps) =
     (if blockHeight \<le> cpHeight \<and> blockHeight \<noteq> cpHeight
      then Some (ReorgPastCheckpoint cpHeight) else checkpoint_boundary blockHeight cps)"

definition VerifyBlockReorgTransition ::
  "u64 \<Rightarrow> bytes \<Rightarrow> string \<Rightarrow> u64 \<Rightarrow> consensus_error option" where
  "VerifyBlockReorgTransition blockHeight blockHash prevHash currentTipHeight =
     (case VerifyCheckpoint blockHeight blockHash of
        Some e \<Rightarrow> Some e
      | None \<Rightarrow> checkpoint_boundary blockHeight HardcodedCheckpoints)"

lemmas consensus_constants =
  CoinUnit_def MaxSupply_def BlockReward_def HalvingInterval_def GenesisBits_def
  MaxBlockSizeBytes_def PowTargetSpacing_def TargetBlockTimeSec_def

section \<open>The constants as numbers\<close>

lemma unat_constants [simp]:
  "unat CoinUnit = 100000000"
  "unat MaxSupply = 78500000000000000"
  "unat BlockReward = 5000000000"
  "unat HalvingInterval = 7850000"
  "unat MaxBlockSizeBytes = 4194304"
  by (simp_all add: consensus_constants)

lemma PoWLimit_pow: "PoWLimit = 2 ^ 236 - 1"
  by (simp add: PoWLimit_def)

section \<open>The reward schedule\<close>

text \<open>The reward of a height in plain numbers: 50 coins halved once per interval.\<close>

definition reward_nat :: "nat \<Rightarrow> nat" where
  "reward_nat h = 5000000000 div 2 ^ h"

lemma reward_nat_past_64: "64 \<le> h \<Longrightarrow> reward_nat h = 0"
proof -
  assume "64 \<le> h"
  then have "(2::nat) ^ 64 \<le> 2 ^ h" by (rule power_increasing) simp
  moreover have "(5000000000::nat) < 2 ^ 64" by simp
  ultimately show ?thesis unfolding reward_nat_def by (metis div_less order_less_le_trans)
qed

lemma unat_CalculateBlockReward:
  "unat (CalculateBlockReward i) = reward_nat (unat i div 7850000)"
proof -
  let ?h = "i div HalvingInterval"
  have h: "unat ?h = unat i div 7850000" by (simp add: unat_div)
  show ?thesis
  proof (cases "64 \<le> ?h")
    case True
    then have "64 \<le> unat ?h" by (simp add: word_le_nat_alt)
    with True h show ?thesis
      by (simp add: CalculateBlockReward_def Let_def reward_nat_past_64)
  next
    case False
    have "unat (drop_bit (unat ?h) BlockReward) = unat BlockReward div 2 ^ unat ?h"
      unfolding unat_drop_bit_eq by (rule drop_bit_eq_div)
    with False show ?thesis
      by (simp add: CalculateBlockReward_def Let_def h reward_nat_def)
  qed
qed

lemma reward_nat_antimono: "g \<le> h \<Longrightarrow> reward_nat h \<le> reward_nat g"
  unfolding reward_nat_def by (rule div_le_mono2) (simp_all add: power_increasing)

lemma reward_nat_Suc: "reward_nat (Suc h) = reward_nat h div 2"
  unfolding reward_nat_def power_Suc2 by (rule div_mult2_eq)

lemma reward_sum_bound: "(\<Sum>h<k. reward_nat h) + 2 * reward_nat k \<le> 10000000000"
proof (induction k)
  case 0
  show ?case by (simp add: reward_nat_def)
next
  case (Suc k)
  have "2 * reward_nat (Suc k) \<le> reward_nat k" by (simp add: reward_nat_Suc)
  with Suc show ?case by simp
qed

text \<open>Rewards issued by the first \<open>n\<close> heights, interval by interval.\<close>

lemma emission_intervals:
  "(\<Sum>i<7850000 * k. reward_nat (i div 7850000)) = 7850000 * (\<Sum>h<k. reward_nat h)"
proof (induction k)
  case (Suc k)
  let ?f = "\<lambda>i. reward_nat (i div 7850000)" and ?n = "7850000 * k :: nat"
  have "{..<7850000 * Suc k} = {..<?n} \<union> {?n..<?n + 7850000}" by auto
  then have "(\<Sum>i<7850000 * Suc k. ?f i) = (\<Sum>i<?n. ?f i) + (\<Sum>i = ?n..<?n + 7850000. ?f i)"
    by (simp add: sum.union_disjoint ivl_disj_int)
  moreover have "(\<Sum>i = ?n..<?n + 7850000. ?f i) = (\<Sum>i = ?n..<?n + 7850000. reward_nat k)"
  proof (rule sum.cong)
    fix i assume "i \<in> {?n..<?n + 7850000}"
    then have "i div 7850000 = k" by (simp add: div_nat_eqI)
    then show "?f i = reward_nat k" by simp
  qed simp
  ultimately show ?case using Suc by (simp add: algebra_simps)
qed simp

lemma emission_nat_bound: "(\<Sum>i<n. reward_nat (i div 7850000)) \<le> 78500000000000000"
proof -
  have "(\<Sum>i<n. reward_nat (i div 7850000)) \<le> (\<Sum>i<7850000 * n. reward_nat (i div 7850000))"
    by (rule sum_mono2) auto
  also have "\<dots> = 7850000 * (\<Sum>h<n. reward_nat h)" by (rule emission_intervals)
  also have "\<dots> \<le> 7850000 * 10000000000"
    using reward_sum_bound [of n] by (intro mult_le_mono2) linarith
  finally show ?thesis by simp
qed

end
