(* ===== verification/Crypto.thy ===== *)
theory Crypto
  imports Go_Std
begin

text \<open>
  \<open>crypto/crypto.go\<close>, \<open>crypto/dilithium3/dilithium3.go\<close> and \<open>crypto/sha3/sha3.go\<close>.
  The hash functions and Dilithium mode 3 are third-party packages, so they are the fields
  of a record every function takes: \<open>crypto_lib\<close>. The random reader is the argument
  \<open>rand\<close>, the bytes it supplies. A slice is assumed to have no capacity past its length,
  so slicing past the end panics.
\<close>

record ('pub, 'priv) crypto_lib =
  Keccak256 :: "bytes \<Rightarrow> bytes"
  Sha3_512 :: "bytes \<Rightarrow> bytes"
  mode3_GenerateKey :: "bytes \<Rightarrow> ('pub \<times> 'priv) option"
  mode3_MarshalPub :: "'pub \<Rightarrow> bytes"
  mode3_MarshalPriv :: "'priv \<Rightarrow> bytes"
  mode3_UnmarshalPub :: "bytes \<Rightarrow> 'pub option"
  mode3_UnmarshalPriv :: "bytes \<Rightarrow> 'priv option"
  mode3_Sign :: "'priv \<Rightarrow> bytes \<Rightarrow> bytes \<Rightarrow> bytes option"
  mode3_Verify :: "'pub \<Rightarrow> bytes \<Rightarrow> bytes \<Rightarrow> bool"

text \<open>What the CIRCL package documents of a generated pair: keys survive marshalling, and a
  signature made with the private key verifies under the public one.\<close>

definition key_pair :: "('pub, 'priv) crypto_lib \<Rightarrow> 'pub \<Rightarrow> 'priv \<Rightarrow> bool" where
  "key_pair L pub priv \<longleftrightarrow>
     mode3_UnmarshalPub L (mode3_MarshalPub L pub) = Some pub \<and>
     mode3_UnmarshalPriv L (mode3_MarshalPriv L priv) = Some priv \<and>
     (\<forall>rand msg sig. mode3_Sign L priv rand msg = Some sig \<longrightarrow> mode3_Verify L pub msg sig)"

section \<open>The dilithium3 and sha3 modules\<close>

definition d3_GenerateKey :: "('pub, 'priv) crypto_lib \<Rightarrow> bytes \<Rightarrow> ('pub \<times> 'priv) option" where
  "d3_GenerateKey L rand =
     (case mode3_GenerateKey L rand of None \<Rightarrow> None | Some (pub, priv) \<Rightarrow> Some (pub, priv))"

definition d3_Sign :: "('pub, 'priv) crypto_lib \<Rightarrow> 'priv \<Rightarrow> bytes \<Rightarrow> bytes \<Rightarrow> bytes option" where
  "d3_Sign L priv rand message = mode3_Sign L priv rand message"

definition d3_Verify :: "('pub, 'priv) crypto_lib \<Rightarrow> 'pub \<Rightarrow> bytes \<Rightarrow> bytes \<Rightarrow> bool" where
  "d3_Verify L pub message sig = mode3_Verify L pub message sig"

definition sha3_Hash512 :: "('pub, 'priv) crypto_lib \<Rightarrow> bytes \<Rightarrow> bytes" where
  "sha3_Hash512 L data = Sha3_512 L data"

definition sha3_Hash256 :: "('pub, 'priv) crypto_lib \<Rightarrow> bytes \<Rightarrow> bytes" where
  "sha3_Hash256 L data = Keccak256 L data"

section \<open>The crypto package\<close>

definition GenerateKey :: "('pub, 'priv) crypto_lib \<Rightarrow> bytes \<Rightarrow> ('pub \<times> 'priv) option" where
  "GenerateKey L rand = d3_GenerateKey L rand"

definition Hash512 :: "('pub, 'priv) crypto_lib \<Rightarrow> bytes \<Rightarrow> bytes" where
  "Hash512 L data = sha3_Hash512 L data"

definition Hash256 :: "('pub, 'priv) crypto_lib \<Rightarrow> bytes \<Rightarrow> bytes" where
  "Hash256 L data = Keccak256 L data"

definition PubkeyToAddress :: "bytes \<Rightarrow> string outcome" where
  "PubkeyToAddress pubBytes =
     (if length pubBytes < 14 then Panic ''slice bounds out of range''
      else let rawHex = hex_encode (take 14 pubBytes) in Ret (''xcosh'' @ rawHex))"

definition Sign :: "('pub, 'priv) crypto_lib \<Rightarrow> 'priv \<Rightarrow> bytes \<Rightarrow> bytes \<Rightarrow> bytes option" where
  "Sign L priv rand message = d3_Sign L priv rand message"

definition Verify :: "('pub, 'priv) crypto_lib \<Rightarrow> 'pub \<Rightarrow> bytes \<Rightarrow> bytes \<Rightarrow> bool" where
  "Verify L pub message sig = d3_Verify L pub message sig"

lemmas crypto_defs =
  d3_GenerateKey_def d3_Sign_def d3_Verify_def sha3_Hash512_def sha3_Hash256_def
  GenerateKey_def Hash512_def Hash256_def Sign_def Verify_def

section \<open>Addresses\<close>

lemma PubkeyToAddress_Ret_iff:
  "PubkeyToAddress p = Ret a \<longleftrightarrow> 14 \<le> length p \<and> a = ''xcosh'' @ hex_encode (take 14 p)"
  by (auto simp: PubkeyToAddress_def Let_def)

lemma PubkeyToAddress_shape:
  assumes "PubkeyToAddress p = Ret a"
  shows "length a = 33" and "HasPrefix a ''xcosh''"
  using assms by (auto simp: PubkeyToAddress_Ret_iff HasPrefix_def)

end
