(* ===== verification/Go_Json.thy ===== *)
theory Go_Json
  imports Go_Std
begin

text \<open>
  \<open>encoding/json\<close> as far as the program's \<open>Marshal\<close> calls use it: strings quoted with
  the HTML escapes on, numbers in decimal, byte slices in base64 (\<open>null\<close> when nil), objects
  and arrays without spaces. \<open>Marshal\<close> cannot fail on the types the program gives it.
\<close>

section \<open>Base64, standard alphabet with padding\<close>

definition b64_char :: "nat \<Rightarrow> char" where
  "b64_char i = ''ABCDEFGHIJKLMNOPQRSTUVWXYZabcdefghijklmnopqrstuvwxyz0123456789+/'' ! i"

fun base64_encode :: "bytes \<Rightarrow> string" where
  "base64_encode [] = []"
| "base64_encode [a] =
     (let n = of_char a * 65536 :: nat in
      [b64_char (n div 262144), b64_char (n div 4096 mod 64), CHR ''='', CHR ''='']) "
| "base64_encode [a, b] =
     (let n = of_char a * 65536 + of_char b * 256 :: nat in
      [b64_char (n div 262144), b64_char (n div 4096 mod 64), b64_char (n div 64 mod 64),
       CHR ''=''])"
| "base64_encode (a # b # c # rest) =
     (let n = of_char a * 65536 + of_char b * 256 + of_char c :: nat in
      [b64_char (n div 262144), b64_char (n div 4096 mod 64), b64_char (n div 64 mod 64),
       b64_char (n mod 64)] @ base64_encode rest)"

lemma length_base64_encode: "length (base64_encode bs) = 4 * ((length bs + 2) div 3)"
  by (induction bs rule: base64_encode.induct) (simp_all add: Let_def, presburger)

section \<open>Strings\<close>

text \<open>The length of the UTF-8 sequence a string starts with, 0 when it is not valid.\<close>

definition cont_at :: "bytes \<Rightarrow> nat \<Rightarrow> nat \<Rightarrow> nat \<Rightarrow> bool" where
  "cont_at cs i lo hi \<longleftrightarrow> i < length cs \<and> lo \<le> of_char (cs ! i) \<and> of_char (cs ! i) \<le> hi"

definition utf8_len :: "char \<Rightarrow> bytes \<Rightarrow> nat" where
  "utf8_len c cs =
     (let b = of_char c :: nat in
      if b < 0x80 then 1
      else if 0xC2 \<le> b \<and> b \<le> 0xDF then (if cont_at cs 0 0x80 0xBF then 2 else 0)
      else if 0xE0 \<le> b \<and> b \<le> 0xEF then
        (if cont_at cs 0 (if b = 0xE0 then 0xA0 else 0x80) (if b = 0xED then 0x9F else 0xBF)
            \<and> cont_at cs 1 0x80 0xBF then 3 else 0)
      else if 0xF0 \<le> b \<and> b \<le> 0xF4 then
        (if cont_at cs 0 (if b = 0xF0 then 0x90 else 0x80) (if b = 0xF4 then 0x8F else 0xBF)
            \<and> cont_at cs 1 0x80 0xBF \<and> cont_at cs 2 0x80 0xBF then 4 else 0)
      else 0)"

definition json_u :: "nat \<Rightarrow> string" where
  "json_u n =
     [CHR 0x5C, CHR ''u'', digit_char (n div 4096), digit_char (n div 256 mod 16),
      digit_char (n div 16 mod 16), digit_char (n mod 16)]"

definition json_ascii :: "char \<Rightarrow> string" where
  "json_ascii c =
     (let n = of_char c :: nat in
      if n = 0x22 \<or> n = 0x5C then [CHR 0x5C, c]
      else if n = 8 then [CHR 0x5C, CHR ''b'']
      else if n = 12 then [CHR 0x5C, CHR ''f'']
      else if n = 10 then [CHR 0x5C, CHR ''n'']
      else if n = 13 then [CHR 0x5C, CHR ''r'']
      else if n = 9 then [CHR 0x5C, CHR ''t'']
      else if n < 32 \<or> n = 0x3C \<or> n = 0x3E \<or> n = 0x26 then json_u n
      else [c])"

function json_escape :: "string \<Rightarrow> string" where
  "json_escape [] = []"
| "json_escape (c # cs) =
     (let k = utf8_len c cs in
      if (of_char c :: nat) < 0x80 then json_ascii c @ json_escape cs
      else if k = 0 then json_u 0xFFFD @ json_escape cs
      else (let r = c # take (k - 1) cs in
            (if r = [CHR 0xE2, CHR 0x80, CHR 0xA8] then json_u 0x2028
             else if r = [CHR 0xE2, CHR 0x80, CHR 0xA9] then json_u 0x2029
             else r) @ json_escape (drop (k - 1) cs)))"
  by pat_completeness auto
termination
  by (relation "measure length") auto

definition json_string :: "string \<Rightarrow> string" where
  "json_string s = CHR 0x22 # json_escape s @ [CHR 0x22]"

section \<open>Values\<close>

definition json_uint :: "'a::len word \<Rightarrow> string" where
  "json_uint x = format_nat 10 (unat x)"

text \<open>A Go \<open>int\<close>.\<close>

definition int_text :: "int \<Rightarrow> string" where
  "int_text i = (if i < 0 then CHR ''-'' # format_nat 10 (nat (- i)) else format_nat 10 (nat i))"

definition json_int64 :: "i64 \<Rightarrow> string" where
  "json_int64 x = FormatInt x 10"

definition json_bytes :: "char slice \<Rightarrow> string" where
  "json_bytes s =
     (case s of None \<Rightarrow> ''null''
      | Some bs \<Rightarrow> CHR 0x22 # base64_encode bs @ [CHR 0x22])"

fun json_join :: "string list \<Rightarrow> string" where
  "json_join [] = []"
| "json_join [x] = x"
| "json_join (x # y # xs) = x @ CHR '','' # json_join (y # xs)"

definition json_array :: "string list \<Rightarrow> string" where
  "json_array xs = CHR ''['' # json_join xs @ '']''"

definition json_object :: "(string \<times> string) list \<Rightarrow> string" where
  "json_object fs =
     CHR ''{'' # json_join (map (\<lambda>(k, v). CHR 0x22 # k @ CHR 0x22 # CHR '':'' # v) fs) @ ''}''"

section \<open>Lengths\<close>

lemma length_json_join:
  "length (json_join xs) = sum_list (map length xs) + (length xs - 1)"
  by (induction xs rule: json_join.induct) auto

lemma length_json_array:
  "length (json_array xs) = sum_list (map length xs) + (length xs - 1) + 2"
  by (simp add: json_array_def length_json_join)

lemma length_format_nat_le:
  assumes "2 \<le> b" and "n < b ^ k" and "0 < k"
  shows "length (format_nat b n) \<le> k"
  using assms
proof (induction b n arbitrary: k rule: format_nat.induct)
  case (1 b n)
  show ?case
  proof (cases "n < b")
    case True
    with "1.prems" show ?thesis by (simp add: format_nat.simps [of b n])
  next
    case False
    with "1.prems" have "k \<noteq> 1" by auto
    with "1.prems" obtain j where j: "k = Suc j" "0 < j" by (cases k) auto
    with "1.prems" have "n div b < b ^ j"
      by (simp add: less_mult_imp_div_less mult.commute)
    with False "1.IH" "1.prems"(1) j show ?thesis by (auto simp: format_nat.simps [of b n])
  qed
qed

lemma length_json_u64_le: "length (json_uint (x :: u64)) \<le> 20"
proof -
  have "unat x < 2 ^ 64" using unsigned_less [of x] by simp
  also have "(2::nat) ^ 64 < 10 ^ 20" by simp
  finally show ?thesis unfolding json_uint_def by (intro length_format_nat_le) simp_all
qed

lemma length_json_u32_le: "length (json_uint (x :: u32)) \<le> 10"
proof -
  have "unat x < 2 ^ 32" using unsigned_less [of x] by simp
  also have "(2::nat) ^ 32 < 10 ^ 10" by simp
  finally show ?thesis unfolding json_uint_def by (intro length_format_nat_le) simp_all
qed

lemma length_json_int64_le: "length (json_int64 x) \<le> 20"
proof -
  have abs: "nat \<bar>sint x\<bar> < 10 ^ 19"
    using sint_greater_eq [of x] sint_less [of x] by simp
  have "length (format_nat 10 (nat \<bar>sint x\<bar>)) \<le> 19"
    using abs by (intro length_format_nat_le) simp_all
  then show ?thesis
    by (cases "sint x < 0") (simp_all add: json_int64_def FormatInt_def)
qed

text \<open>A byte takes at most six, in the form of a \<open>\\u\<close> escape.\<close>

lemma length_json_escape_le: "length (json_escape s) \<le> 6 * length s"
proof (induction s rule: json_escape.induct)
  case (2 c cs)
  let ?k = "utf8_len c cs" and ?r = "c # take (utf8_len c cs - 1) cs"
  have ascii: "length (json_ascii c) \<le> 6" by (simp add: json_ascii_def json_u_def Let_def)
  have u: "length (json_u n) = 6" for n by (simp add: json_u_def)
  show ?case
  proof (cases "(of_char c :: nat) < 0x80 \<or> ?k = 0")
    case True
    with 2 ascii u show ?thesis by (auto simp: Let_def)
  next
    case False
    then have IH: "length (json_escape (drop (?k - 1) cs)) \<le> 6 * (length cs - (?k - 1))"
      using 2(3) [OF refl] by simp
    define x where "x = (if ?r = [CHR 0xE2, CHR 0x80, CHR 0xA8] then json_u 0x2028
        else if ?r = [CHR 0xE2, CHR 0x80, CHR 0xA9] then json_u 0x2029 else ?r)"
    have x: "length x \<le> 6 * Suc (min (length cs) (?k - 1))"
      using u by (simp add: x_def)
    have eq: "json_escape (c # cs) = x @ json_escape (drop (?k - 1) cs)"
      using False unfolding x_def json_escape.simps Let_def by (simp only: if_False de_Morgan_disj)
    from IH x show ?thesis unfolding eq by simp
  qed
qed simp

lemma length_json_string_le: "length (json_string s) \<le> 6 * length s + 2"
  using length_json_escape_le [of s] by (simp add: json_string_def)

lemma length_json_bytes_le: "length (json_bytes s) \<le> 4 * ((length (elems s) + 2) div 3) + 4"
  by (simp add: json_bytes_def length_base64_encode split: option.split)

lemmas json_length_bounds =
  length_json_u64_le length_json_u32_le length_json_int64_le length_json_string_le
  length_json_bytes_le

end
