(* ===== verification/Transfers.thy ===== *)
theory Transfers
  imports Crypto Go_Json
begin

text \<open>
  \<open>core/tx.go\<close>: the value transfer, its payload, signature and identifier.
\<close>

record Transfer =
  tx_SenderPubKey :: "char slice"
  tx_Recipient :: string
  tx_Value :: u64
  tx_Fee :: u64
  tx_Nonce :: u64
  tx_Signature :: "char slice"

definition PayloadBytes :: "Transfer \<Rightarrow> bytes" where
  "PayloadBytes tx =
     tx_Recipient tx @ ''-'' @ FormatUint (tx_Value tx) 10 @ ''-'' @ FormatUint (tx_Fee tx) 10
       @ ''-'' @ FormatUint (tx_Nonce tx) 10"

definition NewTransfer ::
  "('pub, 'priv) crypto_lib \<Rightarrow> bytes \<Rightarrow> 'priv \<Rightarrow> char slice \<Rightarrow> string \<Rightarrow> u64 \<Rightarrow> u64 \<Rightarrow> u64
     \<Rightarrow> Transfer outcome" where
  "NewTransfer L rand priv pub recipient value fee nonce =
     (let tx = \<lparr>tx_SenderPubKey = pub, tx_Recipient = recipient, tx_Value = value,
                tx_Fee = fee, tx_Nonce = nonce, tx_Signature = None\<rparr>
      in case Sign L priv rand (PayloadBytes tx) of
           None \<Rightarrow> Panic ''sign error''
         | Some sig \<Rightarrow> Ret (tx\<lparr>tx_Signature := Some sig\<rparr>))"

definition Transfer_Verify :: "('pub, 'priv) crypto_lib \<Rightarrow> Transfer \<Rightarrow> bool" where
  "Transfer_Verify L tx =
     (case mode3_UnmarshalPub L (elems (tx_SenderPubKey tx)) of
        None \<Rightarrow> False
      | Some pub \<Rightarrow> Verify L pub (PayloadBytes tx) (elems (tx_Signature tx)))"

definition ComputeID :: "('pub, 'priv) crypto_lib \<Rightarrow> Transfer \<Rightarrow> string" where
  "ComputeID L tx =
     hex_encode (Keccak256 L (elems (tx_SenderPubKey tx) @ PayloadBytes tx))"

text \<open>\<open>json.Marshal\<close> of a transfer: the struct's fields in order, under their tags.\<close>

definition MarshalTransfer :: "Transfer \<Rightarrow> string" where
  "MarshalTransfer tx = json_object
     [(''sender_pub_key'', json_bytes (tx_SenderPubKey tx)),
      (''recipient'', json_string (tx_Recipient tx)),
      (''value'', json_uint (tx_Value tx)),
      (''fee'', json_uint (tx_Fee tx)),
      (''nonce'', json_uint (tx_Nonce tx)),
      (''signature'', json_bytes (tx_Signature tx))]"

section \<open>The payload determines what is signed\<close>

lemma split_at_last_separator:
  assumes "xs @ c # ys = xs' @ c # ys'" and "c \<notin> set ys" and "c \<notin> set ys'"
  shows "xs = xs' \<and> ys = ys'"
  using assms by (auto simp: append_eq_append_conv2 append_eq_Cons_conv Cons_eq_append_conv)

lemma minus_not_in_decimal [simp]: "CHR ''-'' \<notin> set (FormatUint x 10)"
  by (simp add: FormatUint_def format_nat_no_minus)

text \<open>The sender key plays no part in the payload, and two transfers with one payload agree
  on everything else that is signed.\<close>

lemma PayloadBytes_eq_iff:
  "PayloadBytes s = PayloadBytes t \<longleftrightarrow>
     tx_Recipient s = tx_Recipient t \<and> tx_Value s = tx_Value t \<and> tx_Fee s = tx_Fee t
       \<and> tx_Nonce s = tx_Nonce t"
proof
  assume eq: "PayloadBytes s = PayloadBytes t"
  let ?p = "\<lambda>u. ((tx_Recipient u @ ''-'' @ FormatUint (tx_Value u) 10) @ ''-''
                 @ FormatUint (tx_Fee u) 10)"
  from eq have "?p s @ CHR ''-'' # FormatUint (tx_Nonce s) 10
              = ?p t @ CHR ''-'' # FormatUint (tx_Nonce t) 10"
    by (simp add: PayloadBytes_def)
  then have "?p s = ?p t \<and> FormatUint (tx_Nonce s) 10 = FormatUint (tx_Nonce t) 10"
    by (rule split_at_last_separator) simp_all
  then have n: "FormatUint (tx_Nonce s) 10 = FormatUint (tx_Nonce t) 10"
    and p: "(tx_Recipient s @ ''-'' @ FormatUint (tx_Value s) 10)
              @ CHR ''-'' # FormatUint (tx_Fee s) 10
          = (tx_Recipient t @ ''-'' @ FormatUint (tx_Value t) 10)
              @ CHR ''-'' # FormatUint (tx_Fee t) 10"
    by simp_all
  from split_at_last_separator [OF p]
  have f: "FormatUint (tx_Fee s) 10 = FormatUint (tx_Fee t) 10"
    and q: "tx_Recipient s @ CHR ''-'' # FormatUint (tx_Value s) 10
          = tx_Recipient t @ CHR ''-'' # FormatUint (tx_Value t) 10"
    by simp_all
  from split_at_last_separator [OF q] have "tx_Recipient s = tx_Recipient t"
    and "FormatUint (tx_Value s) 10 = FormatUint (tx_Value t) 10"
    by simp_all
  with n f show "tx_Recipient s = tx_Recipient t \<and> tx_Value s = tx_Value t
      \<and> tx_Fee s = tx_Fee t \<and> tx_Nonce s = tx_Nonce t"
    by (simp add: FormatUint_inject)
qed (simp add: PayloadBytes_def)

lemma NewTransfer_Ret:
  assumes "NewTransfer L rand priv pub r v f n = Ret tx"
  shows "tx_SenderPubKey tx = pub" and "tx_Recipient tx = r" and "tx_Value tx = v"
    and "tx_Fee tx = f" and "tx_Nonce tx = n"
    and "Sign L priv rand (PayloadBytes tx) = Some (elems (tx_Signature tx))"
  using assms by (auto simp: NewTransfer_def PayloadBytes_def Let_def split: option.splits)

section \<open>The size of a transfer\<close>

lemma length_MarshalTransfer_le:
  "length (MarshalTransfer tx) \<le>
     151 + 6 * length (tx_Recipient tx)
       + 4 * ((length (elems (tx_SenderPubKey tx)) + 2) div 3)
       + 4 * ((length (elems (tx_Signature tx)) + 2) div 3)"
  using length_json_bytes_le [of "tx_SenderPubKey tx"] length_json_bytes_le [of "tx_Signature tx"]
    length_json_string_le [of "tx_Recipient tx"] length_json_u64_le [of "tx_Value tx"]
    length_json_u64_le [of "tx_Fee tx"] length_json_u64_le [of "tx_Nonce tx"]
  by (simp add: MarshalTransfer_def json_object_def length_json_join)

end
