(* ===== verification/Blocks.thy ===== *)
theory Blocks
  imports Consensus Transfers
begin

text \<open>
  \<open>core/block.go\<close>: the block, the bytes its hash is taken over, and the parallel nonce
  search. \<open>Mine\<close> starts one goroutine per CPU; here the goroutines are the workers of a step
  relation, with the atomic nonce counter, the result channel of capacity one and the stop
  channel in its state. The scheduler is the choice of the next step.
\<close>

definition MaxXcoshSupply :: u64 where
  "MaxXcoshSupply = MaxSupply div CoinUnit"

record LedgerBlock =
  blk_Index :: u64
  blk_Timestamp :: i64
  blk_PrevHash :: "char slice"
  blk_Hash :: "char slice"
  blk_Transfers :: "Transfer slice"
  blk_Miner :: string
  blk_Nonce :: u64
  blk_Difficulty :: u32
  blk_Bits :: u32
  blk_Reward :: u64
  blk_MaxSupply :: u64
  blk_HalvingInterval :: u64
  blk_Message :: string

definition MarshalBlock :: "LedgerBlock \<Rightarrow> string" where
  "MarshalBlock b = json_object
     ([(''index'', json_uint (blk_Index b)),
       (''timestamp'', json_int64 (blk_Timestamp b)),
       (''prev_hash'', json_bytes (blk_PrevHash b)),
       (''hash'', json_bytes (blk_Hash b)),
       (''transfers'', (case blk_Transfers b of None \<Rightarrow> ''null''
                        | Some ts \<Rightarrow> json_array (map MarshalTransfer ts))),
       (''miner'', json_string (blk_Miner b)),
       (''nonce'', json_uint (blk_Nonce b)),
       (''difficulty'', json_uint (blk_Difficulty b)),
       (''bits'', json_uint (blk_Bits b)),
       (''reward'', json_uint (blk_Reward b)),
       (''max_supply'', json_uint (blk_MaxSupply b)),
       (''halving_interval'', json_uint (blk_HalvingInterval b))]
      @ (if blk_Message b = [] then [] else [(''message'', json_string (blk_Message b))]))"

definition GetBlockReward :: "u64 \<Rightarrow> u64" where
  "GetBlockReward blockHeight = CalculateBlockReward blockHeight"

record ConsensusEngine =
  ce_TargetDifficulty :: u32
  ce_Bits :: u32

definition NewConsensusEngine :: "u32 \<Rightarrow> ConsensusEngine" where
  "NewConsensusEngine difficulty = \<lparr>ce_TargetDifficulty = difficulty, ce_Bits = GenesisBits\<rparr>"

definition AssembleBlockData :: "LedgerBlock \<Rightarrow> u64 \<Rightarrow> bytes" where
  "AssembleBlockData b nonce =
     (let rawTxData = concat (map (\<lambda>tx. elems (tx_Signature tx)) (elems (blk_Transfers b)));
          blockMaxSupply = (if blk_MaxSupply b = 0 then MaxSupply else blk_MaxSupply b);
          blockHalvingInterval =
            (if blk_HalvingInterval b = 0 then HalvingInterval else blk_HalvingInterval b)
      in concat
        [elems (blk_PrevHash b), rawTxData,
         FormatUint (blk_Index b) 16,
         FormatInt (blk_Timestamp b) 16,
         FormatUint (blk_Reward b) 16,
         FormatUint blockMaxSupply 16,
         FormatUint blockHalvingInterval 16,
         FormatUint (ucast (blk_Difficulty b)) 16,
         FormatUint nonce 16,
         blk_Message b])"

definition validateHash :: "ConsensusEngine \<Rightarrow> bytes \<Rightarrow> bool" where
  "validateHash ce hash = ValidatePoW (hex_encode hash) (ucast (ce_TargetDifficulty ce))"

section \<open>Mine\<close>

text \<open>The fields \<open>Mine\<close> fills in before the search.\<close>

definition Mine_prepare :: "ConsensusEngine \<Rightarrow> LedgerBlock \<Rightarrow> LedgerBlock" where
  "Mine_prepare ce b0 =
     (let b1 = (if blk_Reward b0 = 0 \<and> blk_Index b0 > 0
                then b0\<lparr>blk_Reward := GetBlockReward (blk_Index b0)\<rparr> else b0);
          b2 = (if blk_MaxSupply b1 = 0 then b1\<lparr>blk_MaxSupply := MaxSupply\<rparr> else b1);
          b3 = (if blk_HalvingInterval b2 = 0
                then b2\<lparr>blk_HalvingInterval := HalvingInterval\<rparr> else b2)
      in if blk_Bits b3 = 0 then b3\<lparr>blk_Bits := ce_Bits ce\<rparr> else b3)"

text \<open>
  A worker is at the top of its loop, about to hash its nonce, or gone. The search state is
  the shared counter, the workers, what the result channel holds, what \<open>Mine\<close> received, and
  whether the stop channel is closed.
\<close>

datatype worker_pc = AtTop | Hashing | Exited

record worker =
  w_pc :: worker_pc
  w_nonce :: u64

record search =
  s_base :: u64
  s_workers :: "worker list"
  s_chan :: "(u64 \<times> bytes) option"
  s_received :: "(u64 \<times> bytes) option"
  s_stopped :: bool

definition num_workers :: "int \<Rightarrow> nat" where
  "num_workers numCPU = (if numCPU < 1 then 4 else nat numCPU)"

definition search_init :: "nat \<Rightarrow> search" where
  "search_init n =
     \<lparr>s_base = 0,
      s_workers = map (\<lambda>i. \<lparr>w_pc = AtTop, w_nonce = of_nat i * 1000000000\<rparr>) [0..<n],
      s_chan = None, s_received = None, s_stopped = False\<rparr>"

definition put_worker :: "search \<Rightarrow> nat \<Rightarrow> worker \<Rightarrow> search" where
  "put_worker s i w = s\<lparr>s_workers := (s_workers s)[i := w]\<rparr>"

inductive mine_step ::
  "(bytes \<Rightarrow> bytes) \<Rightarrow> ConsensusEngine \<Rightarrow> LedgerBlock \<Rightarrow> search \<Rightarrow> search \<Rightarrow> bool"
  for keccak ce b where
  stop: "i < length (s_workers s) \<Longrightarrow> s_workers s ! i = w \<Longrightarrow> w_pc w = AtTop \<Longrightarrow>
     s_stopped s \<Longrightarrow> mine_step keccak ce b s (put_worker s i (w\<lparr>w_pc := Exited\<rparr>))"
| grab: "i < length (s_workers s) \<Longrightarrow> s_workers s ! i = w \<Longrightarrow> w_pc w = AtTop \<Longrightarrow>
     \<not> s_stopped s \<Longrightarrow> w_nonce w mod 50000 = 0 \<Longrightarrow>
     mine_step keccak ce b s
       (put_worker (s\<lparr>s_base := s_base s + 50000\<rparr>) i
          (w\<lparr>w_pc := Hashing, w_nonce := s_base s + 50000\<rparr>))"
| keep: "i < length (s_workers s) \<Longrightarrow> s_workers s ! i = w \<Longrightarrow> w_pc w = AtTop \<Longrightarrow>
     \<not> s_stopped s \<Longrightarrow> w_nonce w mod 50000 \<noteq> 0 \<Longrightarrow>
     mine_step keccak ce b s (put_worker s i (w\<lparr>w_pc := Hashing\<rparr>))"
| hit: "i < length (s_workers s) \<Longrightarrow> s_workers s ! i = w \<Longrightarrow> w_pc w = Hashing \<Longrightarrow>
     hash = keccak (AssembleBlockData b (w_nonce w)) \<Longrightarrow> validateHash ce hash \<Longrightarrow>
     mine_step keccak ce b s
       (put_worker (if s_chan s = None then s\<lparr>s_chan := Some (w_nonce w, hash)\<rparr> else s) i
          (w\<lparr>w_pc := Exited\<rparr>))"
| miss: "i < length (s_workers s) \<Longrightarrow> s_workers s ! i = w \<Longrightarrow> w_pc w = Hashing \<Longrightarrow>
     \<not> validateHash ce (keccak (AssembleBlockData b (w_nonce w))) \<Longrightarrow>
     mine_step keccak ce b s
       (put_worker s i (w\<lparr>w_pc := AtTop, w_nonce := w_nonce w + 1\<rparr>))"
| receive: "s_chan s = Some r \<Longrightarrow> s_received s = None \<Longrightarrow>
     mine_step keccak ce b s
       (s\<lparr>s_chan := None, s_received := Some r, s_stopped := True\<rparr>)"

text \<open>\<open>Mine\<close> may return \<open>r\<close>: some schedule of \<open>n\<close> workers delivers it.\<close>

definition Mine_returns ::
  "(bytes \<Rightarrow> bytes) \<Rightarrow> ConsensusEngine \<Rightarrow> LedgerBlock \<Rightarrow> nat \<Rightarrow> u64 \<times> bytes \<Rightarrow> bool" where
  "Mine_returns keccak ce b n r \<longleftrightarrow>
     (\<exists>s. (mine_step keccak ce (Mine_prepare ce b))\<^sup>*\<^sup>* (search_init n) s \<and> s_received s = Some r)"

section \<open>What a search delivers\<close>

definition sound_result ::
  "(bytes \<Rightarrow> bytes) \<Rightarrow> ConsensusEngine \<Rightarrow> LedgerBlock \<Rightarrow> u64 \<times> bytes \<Rightarrow> bool" where
  "sound_result keccak ce b r \<longleftrightarrow>
     snd r = keccak (AssembleBlockData b (fst r)) \<and> validateHash ce (snd r)"

lemma put_worker_simps [simp]:
  "s_base (put_worker s i w) = s_base s"
  "s_chan (put_worker s i w) = s_chan s"
  "s_received (put_worker s i w) = s_received s"
  "s_stopped (put_worker s i w) = s_stopped s"
  "s_workers (put_worker s i w) = (s_workers s)[i := w]"
  by (simp_all add: put_worker_def)

lemma mine_step_sound:
  assumes "mine_step keccak ce b s t"
    and "\<forall>r. s_chan s = Some r \<or> s_received s = Some r \<longrightarrow> sound_result keccak ce b r"
  shows "\<forall>r. s_chan t = Some r \<or> s_received t = Some r \<longrightarrow> sound_result keccak ce b r"
  using assms by (cases rule: mine_step.cases) (auto simp: sound_result_def)

interpretation mining: machine "mine_step keccak ce b"
    "\<lambda>s. \<forall>r. s_chan s = Some r \<or> s_received s = Some r \<longrightarrow> sound_result keccak ce b r"
  for keccak ce b
  by unfold_locales (rule mine_step_sound)

lemma mine_steps_sound:
  assumes "(mine_step keccak ce b)\<^sup>*\<^sup>* (search_init n) s"
  shows "\<forall>r. s_chan s = Some r \<or> s_received s = Some r \<longrightarrow> sound_result keccak ce b r"
  by (rule mining.run_keeps [OF assms]) (simp add: search_init_def)

lemma Mine_prepare_simps [simp]:
  "blk_Index (Mine_prepare ce b) = blk_Index b"
  "blk_Timestamp (Mine_prepare ce b) = blk_Timestamp b"
  "blk_PrevHash (Mine_prepare ce b) = blk_PrevHash b"
  "blk_Hash (Mine_prepare ce b) = blk_Hash b"
  "blk_Transfers (Mine_prepare ce b) = blk_Transfers b"
  "blk_Miner (Mine_prepare ce b) = blk_Miner b"
  "blk_Difficulty (Mine_prepare ce b) = blk_Difficulty b"
  "blk_Message (Mine_prepare ce b) = blk_Message b"
  by (simp_all add: Mine_prepare_def Let_def)

section \<open>How the nonces are shared out\<close>

text \<open>A worker owns the chunk of 50000 nonces its nonce lies in while it walks it.\<close>

definition walking :: "worker \<Rightarrow> bool" where
  "walking w \<longleftrightarrow> w_pc w = Hashing \<or> w_pc w = AtTop \<and> w_nonce w mod 50000 \<noteq> 0"

definition chunk :: "worker \<Rightarrow> nat" where
  "chunk w = unat (w_nonce w) div 50000"

text \<open>After \<open>k\<close> steps the counter has moved at most \<open>k\<close> chunks, every walked chunk has been
  handed out, and no two workers walk the same one.\<close>

definition chunks_ok :: "nat \<Rightarrow> search \<Rightarrow> bool" where
  "chunks_ok k s \<longleftrightarrow>
     (\<exists>g \<le> k. unat (s_base s) = g * 50000 \<and>
       (\<forall>i < length (s_workers s). walking (s_workers s ! i) \<longrightarrow>
          1 \<le> chunk (s_workers s ! i) \<and> chunk (s_workers s ! i) \<le> g)) \<and>
     (\<forall>i < length (s_workers s). \<forall>j < length (s_workers s).
        i \<noteq> j \<longrightarrow> walking (s_workers s ! i) \<longrightarrow> walking (s_workers s ! j) \<longrightarrow>
        chunk (s_workers s ! i) \<noteq> chunk (s_workers s ! j))"

lemma chunks_init:
  assumes "n \<le> 2 ^ 32"
  shows "chunks_ok 0 (search_init n)"
proof -
  have "(of_nat i * 1000000000 :: u64) mod 50000 = 0" if "i < n" for i
  proof -
    have "i * 1000000000 < 2 ^ 64" using that assms by simp
    then have "unat (of_nat i * 1000000000 :: u64) = i * 1000000000"
      using unat_of_nat [of "i * 1000000000", where 'a = 64] by simp
    then have "unat ((of_nat i * 1000000000 :: u64) mod 50000) = 0"
      by (simp add: unat_mod)
    then show ?thesis by (simp add: unat_eq_zero)
  qed
  then show ?thesis by (simp add: chunks_ok_def search_init_def walking_def)
qed

text \<open>A step that leaves the counter alone and moves one worker inside its chunk.\<close>

lemma chunks_put_worker:
  assumes "chunks_ok k s" and "i < length (s_workers s)"
    and "walking w \<Longrightarrow> walking (s_workers s ! i) \<and> chunk w = chunk (s_workers s ! i)"
  shows "chunks_ok (Suc k) (put_worker s i w)"
proof -
  have old: "walking ((s_workers s)[i := w] ! j) \<Longrightarrow>
      walking (s_workers s ! j) \<and> chunk ((s_workers s)[i := w] ! j) = chunk (s_workers s ! j)"
    if "j < length (s_workers s)" for j
    using that assms(3) by (cases "i = j") auto
  from assms(1) obtain g where "g \<le> k" "unat (s_base s) = g * 50000"
    and c: "\<And>j. j < length (s_workers s) \<Longrightarrow> walking (s_workers s ! j) \<Longrightarrow>
        1 \<le> chunk (s_workers s ! j) \<and> chunk (s_workers s ! j) \<le> g"
    and d: "\<And>j l. j < length (s_workers s) \<Longrightarrow> l < length (s_workers s) \<Longrightarrow> j \<noteq> l \<Longrightarrow>
        walking (s_workers s ! j) \<Longrightarrow> walking (s_workers s ! l) \<Longrightarrow>
        chunk (s_workers s ! j) \<noteq> chunk (s_workers s ! l)"
    unfolding chunks_ok_def by blast
  then show ?thesis
    unfolding chunks_ok_def put_worker_simps length_list_update
    using old by (intro conjI exI [of _ g]) (auto dest: c d)
qed

lemma chunks_grab:
  assumes ok: "chunks_ok k s" and i: "i < length (s_workers s)"
    and small: "Suc k * 50000 < 2 ^ 64"
  shows "chunks_ok (Suc k)
    (put_worker (s\<lparr>s_base := s_base s + 50000\<rparr>) i
      (w\<lparr>w_pc := Hashing, w_nonce := s_base s + 50000\<rparr>))"
proof -
  let ?w = "w\<lparr>w_pc := Hashing, w_nonce := s_base s + 50000\<rparr>"
  from ok obtain g where g: "g \<le> k" "unat (s_base s) = g * 50000"
    and c: "\<And>j. j < length (s_workers s) \<Longrightarrow> walking (s_workers s ! j) \<Longrightarrow>
        1 \<le> chunk (s_workers s ! j) \<and> chunk (s_workers s ! j) \<le> g"
    and d: "\<And>j l. j < length (s_workers s) \<Longrightarrow> l < length (s_workers s) \<Longrightarrow> j \<noteq> l \<Longrightarrow>
        walking (s_workers s ! j) \<Longrightarrow> walking (s_workers s ! l) \<Longrightarrow>
        chunk (s_workers s ! j) \<noteq> chunk (s_workers s ! l)"
    unfolding chunks_ok_def by blast
  have base: "unat (s_base s + 50000) = Suc g * 50000"
    using g small by (subst unat_plus_no_wrap) auto
  then have new: "chunk ?w = Suc g" by (simp add: chunk_def)
  have fresh: "chunk (s_workers s ! j) \<noteq> Suc g"
    if "j < length (s_workers s)" "walking (s_workers s ! j)" for j
    using c [OF that] by simp
  show ?thesis
    unfolding chunks_ok_def put_worker_simps length_list_update
    using g i base new
    by (intro conjI exI [of _ "Suc g"])
      (auto simp: nth_list_update le_SucI dest: c d fresh)
qed

lemma mine_step_chunks:
  assumes "mine_step keccak ce b s t" and "chunks_ok k s" and "Suc k * 50000 < 2 ^ 64"
  shows "chunks_ok (Suc k) t"
  using assms(1)
proof (cases rule: mine_step.cases)
  case (stop i w)
  show ?thesis unfolding stop(1)
    by (rule chunks_put_worker [OF assms(2) stop(2)]) (simp add: walking_def)
next
  case (grab i w)
  show ?thesis unfolding grab(1) by (rule chunks_grab [OF assms(2) grab(2) assms(3)])
next
  case (keep i w)
  show ?thesis unfolding keep(1)
    using keep by (intro chunks_put_worker [OF assms(2)]) (auto simp: walking_def chunk_def)
next
  case (hit i w hash)
  have "chunks_ok k (if s_chan s = None then s\<lparr>s_chan := Some (w_nonce w, hash)\<rparr> else s)"
    using assms(2) by (simp add: chunks_ok_def)
  then show ?thesis unfolding hit(1)
    using hit by (intro chunks_put_worker) (auto simp: walking_def)
next
  case (miss i w)
  have "unat (w_nonce w + 1) div 50000 = unat (w_nonce w) div 50000"
    if "(w_nonce w + 1) mod 50000 \<noteq> 0"
  proof -
    have "w_nonce w + 1 \<noteq> 0" using that by auto
    then have s: "unat (w_nonce w + 1) = Suc (unat (w_nonce w))"
      by (metis add.commute unatSuc)
    have "unat ((w_nonce w + 1) mod 50000) \<noteq> 0"
      using that by (simp add: unat_eq_zero)
    then have "Suc (unat (w_nonce w)) mod 50000 \<noteq> 0" by (simp add: unat_mod s)
    then show ?thesis by (simp add: s div_Suc)
  qed
  then show ?thesis unfolding miss(1)
    using miss by (intro chunks_put_worker [OF assms(2)]) (auto simp: walking_def chunk_def)
next
  case (receive r)
  with assms(2) show ?thesis by (auto simp: chunks_ok_def intro: le_SucI)
qed

lemma mine_steps_chunks:
  assumes "(mine_step keccak ce b ^^ k) (search_init n) s" and "n \<le> 2 ^ 32"
    and "k * 50000 < 2 ^ 64"
  shows "chunks_ok k s"
  using assms(1,3)
proof (induction k arbitrary: s)
  case 0
  then show ?case using chunks_init [OF assms(2)] by simp
next
  case (Suc k)
  from Suc.prems(1) obtain t where "(mine_step keccak ce b ^^ k) (search_init n) t"
    and t: "mine_step keccak ce b t s"
    by (auto elim: relpowp_Suc_E)
  then have "chunks_ok k t" using Suc.IH Suc.prems(2) by simp
  with t Suc.prems(2) show ?case by (blast intro: mine_step_chunks)
qed

section \<open>The size of a block\<close>

lemma length_json_array_transfers:
  "length (json_array (map MarshalTransfer ts)) \<le>
     2 + (\<Sum>tx\<leftarrow>ts. length (MarshalTransfer tx) + 1)"
  by (simp add: length_json_array comp_def sum_list_Suc)

lemma length_MarshalBlock_le:
  "length (MarshalBlock b) \<le>
     372 + 4 * ((length (elems (blk_PrevHash b)) + 2) div 3)
       + 4 * ((length (elems (blk_Hash b)) + 2) div 3)
       + (\<Sum>tx\<leftarrow>elems (blk_Transfers b). length (MarshalTransfer tx) + 1)
       + 6 * length (blk_Miner b) + 6 * length (blk_Message b)"
proof -
  have "length (case blk_Transfers b of None \<Rightarrow> ''null''
      | Some ts \<Rightarrow> json_array (map MarshalTransfer ts))
    \<le> 4 + (\<Sum>tx\<leftarrow>elems (blk_Transfers b). length (MarshalTransfer tx) + 1)"
    using length_json_array_transfers [of "the (blk_Transfers b)"] by (cases "blk_Transfers b") simp_all
  then show ?thesis
    using length_json_bytes_le [of "blk_PrevHash b"] length_json_bytes_le [of "blk_Hash b"]
      length_json_string_le [of "blk_Miner b"] length_json_string_le [of "blk_Message b"]
      length_json_u64_le [of "blk_Index b"] length_json_int64_le [of "blk_Timestamp b"]
      length_json_u64_le [of "blk_Nonce b"] length_json_u32_le [of "blk_Difficulty b"]
      length_json_u32_le [of "blk_Bits b"] length_json_u64_le [of "blk_Reward b"]
      length_json_u64_le [of "blk_MaxSupply b"] length_json_u64_le [of "blk_HalvingInterval b"]
    by (simp add: MarshalBlock_def json_object_def length_json_join)
qed

end
