(* ===== verification/Validator.thy ===== *)
theory Validator
  imports Blocks
begin

text \<open>
  \<open>core/validator.go\<close>: \<open>ValidateBlockConsensus\<close>. Each rejection is a constructor of
  \<open>block_error\<close>; \<open>None\<close> is Go's nil error. The serialisation error of step 5 does not
  occur: \<open>json.Marshal\<close> cannot fail on a block.
\<close>

datatype block_error =
    InvalidIndex u64 u64
  | TimestampNotAfter
  | BrokenLinkage
  | NonZeroGenesisIndex
  | InvalidMinerPrefix string string
  | PoWUnsatisfied
  | MaxSupplyMismatch u64 u64
  | HalvingMismatch u64 u64
  | BlockTooLarge nat u64
  | IllegalReward u64 u64

definition expected_reward :: "u64 \<Rightarrow> u64 \<Rightarrow> u64" where
  "expected_reward index currentTotalSupply =
     (let expectedReward = CalculateBlockReward index in
      if currentTotalSupply \<ge> MaxSupply then 0
      else if currentTotalSupply + expectedReward > MaxSupply
      then MaxSupply - currentTotalSupply else expectedReward)"

definition ValidateBlockConsensus ::
  "LedgerBlock \<Rightarrow> LedgerBlock option \<Rightarrow> u64 \<Rightarrow> block_error option" where
  "ValidateBlockConsensus block prevBlock currentTotalSupply =
     (let step1 =
        (case prevBlock of
           Some prev \<Rightarrow>
             if blk_Index block \<noteq> blk_Index prev + 1
             then Some (InvalidIndex (blk_Index prev + 1) (blk_Index block))
             else if blk_Timestamp block \<le>s blk_Timestamp prev then Some TimestampNotAfter
             else if elems (blk_PrevHash block) \<noteq> elems (blk_Hash prev) then Some BrokenLinkage
             else None
         | None \<Rightarrow> if blk_Index block \<noteq> 0 then Some NonZeroGenesisIndex else None);
          requiredPrefix = cp_AddressPrefix DefaultConsensus;
          hashStr = hex_encode (elems (blk_Hash block));
          blockMaxSupply = (if blk_MaxSupply block = 0 then MaxSupply else blk_MaxSupply block);
          blockHalvingInterval =
            (if blk_HalvingInterval block = 0 then HalvingInterval else blk_HalvingInterval block);
          blockBytes = MarshalBlock block;
          expectedReward = expected_reward (blk_Index block) currentTotalSupply
      in case step1 of Some e \<Rightarrow> Some e | None \<Rightarrow>
        if blk_Index block > 0 \<and> blk_Miner block \<noteq> ''SYSTEM_GENESIS''
           \<and> \<not> HasPrefix (blk_Miner block) requiredPrefix
        then Some (InvalidMinerPrefix requiredPrefix (blk_Miner block))
        else if \<not> ValidatePoW hashStr (ucast (blk_Difficulty block)) then Some PoWUnsatisfied
        else if blockMaxSupply \<noteq> MaxSupply then Some (MaxSupplyMismatch blockMaxSupply MaxSupply)
        else if blockHalvingInterval \<noteq> HalvingInterval
        then Some (HalvingMismatch blockHalvingInterval HalvingInterval)
        else if (of_nat (length blockBytes) :: u64) > MaxBlockSizeBytes
        then Some (BlockTooLarge (length blockBytes) MaxBlockSizeBytes)
        else if blk_Reward block \<noteq> expectedReward
        then Some (IllegalReward (blk_Reward block) expectedReward)
        else None)"

section \<open>What acceptance means\<close>

definition follows :: "LedgerBlock \<Rightarrow> LedgerBlock option \<Rightarrow> bool" where
  "follows block prevBlock \<longleftrightarrow>
     (case prevBlock of
        Some prev \<Rightarrow>
          blk_Index block = blk_Index prev + 1 \<and> blk_Timestamp prev <s blk_Timestamp block
          \<and> elems (blk_PrevHash block) = elems (blk_Hash prev)
      | None \<Rightarrow> blk_Index block = 0)"

definition header_ok :: "LedgerBlock \<Rightarrow> bool" where
  "header_ok block \<longleftrightarrow>
     (blk_Index block = 0 \<or> blk_Miner block = ''SYSTEM_GENESIS''
        \<or> HasPrefix (blk_Miner block) AddressPrefix) \<and>
     ValidatePoW (hex_encode (elems (blk_Hash block))) (ucast (blk_Difficulty block)) \<and>
     blk_MaxSupply block \<in> {0, MaxSupply} \<and> blk_HalvingInterval block \<in> {0, HalvingInterval} \<and>
     (of_nat (length (MarshalBlock block)) :: u64) \<le> MaxBlockSizeBytes"

lemma validate_accepts_iff:
  "ValidateBlockConsensus block prev supply = None \<longleftrightarrow>
     follows block prev \<and> header_ok block
       \<and> blk_Reward block = expected_reward (blk_Index block) supply"
  by (auto simp: ValidateBlockConsensus_def follows_def header_ok_def Let_def DefaultConsensus_def
      word_neq_0_conv not_less signed.not_less signed.not_le split: option.splits)

lemma reward_le_initial: "unat (CalculateBlockReward i) \<le> 5000000000"
  using reward_nat_antimono [of 0 "unat i div 7850000"]
  by (simp add: unat_CalculateBlockReward reward_nat_def)

text \<open>The reward a block may claim never lifts the supply past the cap, and the sum does not
  wrap.\<close>

lemma expected_reward_within_cap:
  assumes "supply \<le> MaxSupply"
  shows "unat supply + unat (expected_reward i supply) \<le> 78500000000000000"
proof -
  let ?r = "CalculateBlockReward i"
  have s: "unat supply \<le> 78500000000000000"
    using assms by (simp add: word_le_nat_alt)
  have sum: "unat (supply + ?r) = unat supply + unat ?r"
    using s reward_le_initial [of i] by (intro unat_plus_no_wrap) simp
  have diff: "unat (MaxSupply - supply) = 78500000000000000 - unat supply"
    using assms by (simp add: unat_minus_le)
  show ?thesis
    using s sum diff by (simp add: expected_reward_def Let_def word_le_nat_alt word_less_nat_alt)
qed

lemma expected_reward_le_schedule:
  "unat (expected_reward i supply) \<le> unat (CalculateBlockReward i)"
proof (cases "MaxSupply \<le> supply")
  case True
  then show ?thesis by (simp add: expected_reward_def)
next
  case False
  then have s: "supply \<le> MaxSupply" and "unat supply < 78500000000000000"
    by (simp_all add: word_le_nat_alt)
  moreover have "unat (supply + CalculateBlockReward i)
      = unat supply + unat (CalculateBlockReward i)"
    using \<open>unat supply < _\<close> reward_le_initial [of i] by (intro unat_plus_no_wrap) simp
  ultimately show ?thesis
    using False by (auto simp: expected_reward_def Let_def word_less_nat_alt unat_minus_le)
qed

end
