(* ===== verification/Database.thy ===== *)
theory Database
  imports Go_Std
begin

text \<open>
  \<open>storage/db.go\<close>: blocks under \<open>block_<height>\<close> and the height of the tip under
  \<open>last_index\<close>. LevelDB is third-party: a record of its calls is the first argument of every
  operation. A failed call returns no new store, so the store is what it was. The JSON
  encoding is done by the caller of \<open>SaveBlock\<close> in the model and by \<open>SaveBlock\<close> itself in
  the code; it cannot fail on a block.
\<close>

record 'd leveldb =
  ldb_Get :: "'d \<Rightarrow> bytes \<Rightarrow> bytes option"
  ldb_Put :: "'d \<Rightarrow> bytes \<Rightarrow> bytes \<Rightarrow> 'd option"
  ldb_Delete :: "'d \<Rightarrow> bytes \<Rightarrow> 'd option"
  ldb_Keys :: "'d \<Rightarrow> bytes list option"
  ldb_DeleteBatch :: "'d \<Rightarrow> bytes list \<Rightarrow> 'd option"

datatype db_error = OpenFailed | PutFailed | DeleteFailed | IterFailed | WriteFailed

definition NewDatabase :: "(string \<Rightarrow> 'd option) \<Rightarrow> string \<Rightarrow> db_error + 'd" where
  "NewDatabase OpenFile dbPath =
     (case OpenFile dbPath of None \<Rightarrow> Inl OpenFailed | Some db \<Rightarrow> Inr db)"

definition block_key :: "u64 \<Rightarrow> bytes" where
  "block_key index = ''block_'' @ FormatUint index 10"

definition SaveBlock :: "'d leveldb \<Rightarrow> u64 \<Rightarrow> bytes \<Rightarrow> 'd \<Rightarrow> db_error option \<times> 'd" where
  "SaveBlock K index data d =
     (case ldb_Put K d (block_key index) data of
        None \<Rightarrow> (Some PutFailed, d)
      | Some d1 \<Rightarrow>
          (case ldb_Put K d1 ''last_index'' (FormatUint index 10) of
             None \<Rightarrow> (Some PutFailed, d1)
           | Some d2 \<Rightarrow> (None, d2)))"

definition GetLastIndex :: "'d leveldb \<Rightarrow> 'd \<Rightarrow> u64 option" where
  "GetLastIndex K d =
     (case ldb_Get K d ''last_index'' of
        None \<Rightarrow> None
      | Some data \<Rightarrow> ParseUint data)"

definition GetBlock :: "'d leveldb \<Rightarrow> u64 \<Rightarrow> 'd \<Rightarrow> bytes option" where
  "GetBlock K index d = ldb_Get K d (block_key index)"

definition DeleteBlock :: "'d leveldb \<Rightarrow> u64 \<Rightarrow> 'd \<Rightarrow> db_error option \<times> 'd" where
  "DeleteBlock K index d =
     (case ldb_Delete K d (block_key index) of
        None \<Rightarrow> (Some DeleteFailed, d)
      | Some d1 \<Rightarrow>
          if index > 0 then
            (case ldb_Put K d1 ''last_index'' (FormatUint (index - 1) 10) of
               None \<Rightarrow> (Some PutFailed, d1)
             | Some d2 \<Rightarrow> (None, d2))
          else
            (case ldb_Delete K d1 ''last_index'' of
               None \<Rightarrow> (Some DeleteFailed, d1)
             | Some d2 \<Rightarrow> (None, d2)))"

definition ClearAll :: "'d leveldb \<Rightarrow> 'd \<Rightarrow> db_error option \<times> 'd" where
  "ClearAll K d =
     (case ldb_Keys K d of
        None \<Rightarrow> (Some IterFailed, d)
      | Some keys \<Rightarrow>
          (case ldb_DeleteBatch K d keys of
             None \<Rightarrow> (Some WriteFailed, d)
           | Some d1 \<Rightarrow> (None, d1)))"

section \<open>Keys\<close>

lemma block_key_inject [simp]: "block_key i = block_key j \<longleftrightarrow> i = j"
  by (simp add: block_key_def FormatUint_inject)

lemma block_key_not_last_index [simp]:
  "block_key i \<noteq> ''last_index''" "''last_index'' \<noteq> block_key i"
  by (simp_all add: block_key_def)

section \<open>The contract the ledger relies on\<close>

text \<open>
  A store of numbered byte strings with a tip pointer, as its client sees it: what each call
  that reports no error does to every later read.
\<close>

locale index_store =
  fixes save :: "u64 \<Rightarrow> bytes \<Rightarrow> 'd \<Rightarrow> db_error option \<times> 'd"
    and load :: "u64 \<Rightarrow> 'd \<Rightarrow> bytes option"
    and tip :: "'d \<Rightarrow> u64 option"
    and remove :: "u64 \<Rightarrow> 'd \<Rightarrow> db_error option \<times> 'd"
    and clear :: "'d \<Rightarrow> db_error option \<times> 'd"
  assumes load_save: "save i x d = (None, d') \<Longrightarrow> load j d' = (if j = i then Some x else load j d)"
    and tip_save: "save i x d = (None, d') \<Longrightarrow> tip d' = Some i"
    and load_remove: "remove i d = (None, d') \<Longrightarrow> load j d' = (if j = i then None else load j d)"
    and tip_remove: "remove i d = (None, d') \<Longrightarrow> tip d' = (if i = 0 then None else Some (i - 1))"
    and load_clear: "clear d = (None, d') \<Longrightarrow> load j d' = None"
    and tip_clear: "clear d = (None, d') \<Longrightarrow> tip d' = None"

text \<open>The store holds exactly the list \<open>xs\<close> as heights \<open>0, 1, \<dots>\<close>.\<close>

definition holds_chain ::
  "(u64 \<Rightarrow> 'd \<Rightarrow> bytes option) \<Rightarrow> ('d \<Rightarrow> u64 option) \<Rightarrow> 'd \<Rightarrow> bytes list \<Rightarrow> bool" where
  "holds_chain load tip d xs \<longleftrightarrow>
     (\<forall>i < length xs. load (of_nat i) d = Some (xs ! i)) \<and>
     tip d = (if xs = [] then None else Some (of_nat (length xs - 1)))"

lemma of_nat_u64_eq_iff:
  "i < 2 ^ 64 \<Longrightarrow> j < 2 ^ 64 \<Longrightarrow> (of_nat i :: u64) = of_nat j \<longleftrightarrow> i = j"
  by (simp add: word_unat_eq_iff unat_of_nat)

context index_store
begin

lemma holds_chain_save:
  assumes "holds_chain load tip d xs" and "length xs < 2 ^ 64"
    and "save (of_nat (length xs)) x d = (None, d')"
  shows "holds_chain load tip d' (xs @ [x])"
  using assms load_save [OF assms(3)] tip_save [OF assms(3)]
  by (auto simp: holds_chain_def nth_append of_nat_u64_eq_iff)

lemma holds_chain_remove:
  assumes "holds_chain load tip d (xs @ [x])" and "length xs < 2 ^ 64"
    and "remove (of_nat (length xs)) d = (None, d')"
  shows "holds_chain load tip d' xs"
proof (cases "xs = []")
  case True
  then show ?thesis using tip_remove [OF assms(3)] by (simp add: holds_chain_def)
next
  case False
  then have "(of_nat (length xs) :: u64) \<noteq> 0"
    using assms(2) of_nat_u64_eq_iff [of "length xs" 0] by simp
  moreover have "(of_nat (length xs) :: u64) - 1 = of_nat (length xs - 1)"
    using False by (cases xs) simp_all
  ultimately show ?thesis
    using assms load_remove [OF assms(3)] tip_remove [OF assms(3)] False
    by (auto simp: holds_chain_def nth_append of_nat_u64_eq_iff)
qed

lemma holds_chain_clear:
  "clear d = (None, d') \<Longrightarrow> holds_chain load tip d' []"
  by (simp add: holds_chain_def tip_clear)

end

text \<open>What LevelDB documents of its calls, and that the database over it keeps the contract.\<close>

locale level_db =
  fixes K :: "'d leveldb"
  assumes get_put: "ldb_Put K d k v = Some d' \<Longrightarrow> ldb_Get K d' = (ldb_Get K d)(k \<mapsto> v)"
    and get_delete: "ldb_Delete K d k = Some d' \<Longrightarrow> ldb_Get K d' = (ldb_Get K d)(k := None)"
    and keys_dom: "ldb_Keys K d = Some ks \<Longrightarrow> set ks = dom (ldb_Get K d)"
    and get_batch: "ldb_DeleteBatch K d ks = Some d' \<Longrightarrow>
      ldb_Get K d' = (\<lambda>k. if k \<in> set ks then None else ldb_Get K d k)"

sublocale level_db \<subseteq> index_store "SaveBlock K" "GetBlock K" "GetLastIndex K" "DeleteBlock K" "ClearAll K"
proof unfold_locales
  fix i j x d d'
  assume "SaveBlock K i x d = (None, d')"
  then show "GetBlock K j d' = (if j = i then Some x else GetBlock K j d)"
    and "GetLastIndex K d' = Some i"
    by (auto simp: SaveBlock_def GetBlock_def GetLastIndex_def get_put split: option.splits)
next
  fix i j d d'
  assume "DeleteBlock K i d = (None, d')"
  then show "GetBlock K j d' = (if j = i then None else GetBlock K j d)"
    and "GetLastIndex K d' = (if i = 0 then None else Some (i - 1))"
    by (auto simp: DeleteBlock_def GetBlock_def GetLastIndex_def get_put get_delete word_neq_0_conv
        split: option.splits if_splits)
next
  fix j d d'
  assume "ClearAll K d = (None, d')"
  then obtain ks where "ldb_Keys K d = Some ks" and "ldb_DeleteBatch K d ks = Some d'"
    by (auto simp: ClearAll_def split: option.splits)
  then have "ldb_Get K d' = (\<lambda>k. None)"
    by (auto simp: get_batch keys_dom fun_eq_iff domIff)
  then show "GetBlock K j d' = None" and "GetLastIndex K d' = None"
    by (simp_all add: GetBlock_def GetLastIndex_def)
qed

context level_db
begin

lemma database_contract:
  "index_store (SaveBlock K) (GetBlock K) (GetLastIndex K) (DeleteBlock K) (ClearAll K)"
  by unfold_locales

end

section \<open>An in-memory LevelDB\<close>

text \<open>An instance of the third-party interface, for closed examples: an association list on
  which no call fails.\<close>

definition mem_ldb :: "(bytes \<times> bytes) list leveldb" where
  "mem_ldb =
     \<lparr>ldb_Get = map_of,
      ldb_Put = (\<lambda>d k v. Some ((k, v) # filter (\<lambda>e. fst e \<noteq> k) d)),
      ldb_Delete = (\<lambda>d k. Some (filter (\<lambda>e. fst e \<noteq> k) d)),
      ldb_Keys = (\<lambda>d. Some (map fst d)),
      ldb_DeleteBatch = (\<lambda>d ks. Some (filter (\<lambda>e. fst e \<notin> set ks) d))\<rparr>"

lemma map_of_filter_neq: "map_of (filter (\<lambda>e. fst e \<noteq> k) d) = (map_of d)(k := None)"
  by (induction d) auto

lemma map_of_filter_notin:
  "map_of (filter (\<lambda>e. fst e \<notin> A) d) = (\<lambda>k. if k \<in> A then None else map_of d k)"
  by (induction d) auto

interpretation memdb: level_db mem_ldb
  by unfold_locales
    (auto simp: mem_ldb_def map_of_filter_neq map_of_filter_notin dom_map_of_conv_image_fst)

end
