(* ===== verification/Go_Float.thy ===== *)
theory Go_Float
  imports Prelude "HOL-Library.Log_Nat"
begin

text \<open>
  Go's \<open>float64\<close>: IEEE binary64 with rounding to the nearest, ties to even. A finite number is its
  rational value, so the two zeros are one. Each operation rounds the exact result; the
  conversion to \<open>uint64\<close> truncates, and what it gives out of range depends on the machine, so that
  is a parameter. A division is only used with a divisor other than zero.
\<close>

section \<open>Rounding\<close>

text \<open>The position of the leading bit of a positive number.\<close>

definition ilog2 :: "rat \<Rightarrow> int" where
  "ilog2 x =
     (if 1 \<le> x then int (floorlog 2 (nat \<lfloor>x\<rfloor>)) - 1
      else - int (floorlog 2 (nat (\<lceil>1 / x\<rceil> - 1))))"

definition round_even :: "rat \<Rightarrow> int" where
  "round_even x =
     (let f = \<lfloor>x\<rfloor>; d = x - of_int f in
      if d < 1 / 2 then f else if 1 / 2 < d then f + 1 else if even f then f else f + 1)"

text \<open>53 bits, and no bit below \<open>2 powi - 1074\<close>.\<close>

definition round53 :: "rat \<Rightarrow> rat" where
  "round53 x =
     (let u = 2 powi (max (ilog2 x - 52) (- 1074)) in of_int (round_even (x / u)) * u)"

section \<open>Numbers and operations\<close>

datatype float64 = FNum rat | FInf bool | FNaN

definition to_float :: "rat \<Rightarrow> float64" where
  "to_float x =
     (if x = 0 then FNum 0
      else
        let y = round53 \<bar>x\<bar> in
        if 2 ^ 1024 \<le> y then FInf (x < 0) else FNum (if x < 0 then - y else y))"

lemma to_float_0 [simp]: "to_float 0 = FNum 0"
  by (simp add: to_float_def)

fun fadd :: "float64 \<Rightarrow> float64 \<Rightarrow> float64" where
  "fadd (FNum x) (FNum y) = to_float (x + y)"
| "fadd (FInf s) (FInf t) = (if s = t then FInf s else FNaN)"
| "fadd (FInf s) (FNum y) = FInf s"
| "fadd (FNum x) (FInf t) = FInf t"
| "fadd FNaN b = FNaN"
| "fadd a FNaN = FNaN"

fun fmul :: "float64 \<Rightarrow> float64 \<Rightarrow> float64" where
  "fmul (FNum x) (FNum y) = to_float (x * y)"
| "fmul (FInf s) (FInf t) = FInf (s \<noteq> t)"
| "fmul (FInf s) (FNum y) = (if y = 0 then FNaN else FInf (s \<noteq> (y < 0)))"
| "fmul (FNum x) (FInf t) = (if x = 0 then FNaN else FInf ((x < 0) \<noteq> t))"
| "fmul FNaN b = FNaN"
| "fmul a FNaN = FNaN"

fun fdiv :: "float64 \<Rightarrow> float64 \<Rightarrow> float64" where
  "fdiv (FNum x) (FNum y) = (if y = 0 then FNaN else to_float (x / y))"
| "fdiv (FInf s) (FInf t) = FNaN"
| "fdiv (FInf s) (FNum y) = FInf (s \<noteq> (y < 0))"
| "fdiv (FNum x) (FInf t) = FNum 0"
| "fdiv FNaN b = FNaN"
| "fdiv a FNaN = FNaN"

definition float64_of_uint64 :: "u64 \<Rightarrow> float64" where
  "float64_of_uint64 n = to_float (of_nat (unat n))"

text \<open>\<open>conv\<close> is the machine's conversion of a number out of range.\<close>

definition uint64_of_float :: "(float64 \<Rightarrow> u64) \<Rightarrow> float64 \<Rightarrow> u64" where
  "uint64_of_float conv f =
     (case f of
        FNum x \<Rightarrow> if - 1 < x \<and> x < 2 ^ 64 then of_int (if x < 0 then \<lceil>x\<rceil> else \<lfloor>x\<rfloor>) else conv f
      | _ \<Rightarrow> conv f)"

section \<open>The error of a rounding\<close>

lemma powi_2_pos [simp]: "(0::rat) < 2 powi e"
  by (simp add: zero_less_power_int)

lemma ilog2_bounds:
  assumes "0 < x"
  shows "2 powi ilog2 x \<le> x" and "x < 2 powi (ilog2 x + 1)"
proof -
  have "2 powi ilog2 x \<le> x \<and> x < 2 powi (ilog2 x + 1)"
  proof (cases "1 \<le> x")
    case True
    define n where "n = nat \<lfloor>x\<rfloor>"
    have n: "0 < n" using True by (simp add: n_def)
    then have k: "0 < floorlog 2 n" by (simp add: floorlog_def)
    have e: "ilog2 x = int (floorlog 2 n - 1)" using True k by (simp add: ilog2_def n_def of_nat_diff)
    have b: "2 ^ (floorlog 2 n - 1) \<le> n \<and> n < 2 ^ floorlog 2 n"
      using floorlog_bounds [OF n, of 2] by simp
    have nx: "of_nat n \<le> x" "x < of_nat n + 1"
      using True by (simp_all add: n_def) linarith+
    have "(2::rat) ^ (floorlog 2 n - 1) \<le> of_nat n"
      using b by (metis of_nat_le_iff of_nat_numeral of_nat_power)
    moreover have "of_nat n + 1 \<le> (2::rat) ^ floorlog 2 n"
      using b by (metis Suc_eq_plus1 Suc_leI of_nat_1 of_nat_add of_nat_le_iff of_nat_numeral of_nat_power)
    moreover have "int (floorlog 2 n - 1) + 1 = int (floorlog 2 n)" using k by simp
    ultimately show ?thesis using nx by (simp only: e power_int_of_nat) linarith
  next
    case False
    define c where "c = nat (\<lceil>1 / x\<rceil> - 1)"
    have "1 < 1 / x" using False assms by simp
    then have c: "0 < c" unfolding c_def by linarith
    have e: "ilog2 x = - int (floorlog 2 c)" using False by (simp add: ilog2_def c_def)
    have k: "0 < floorlog 2 c" using c by (simp add: floorlog_def)
    have b: "2 ^ (floorlog 2 c - 1) \<le> c \<and> c < 2 ^ floorlog 2 c"
      using floorlog_bounds [OF c, of 2] by simp
    have cx: "of_nat c < 1 / x" "1 / x \<le> of_nat c + 1"
      using \<open>1 < 1 / x\<close> unfolding c_def by linarith+
    have lo: "(2::rat) ^ (floorlog 2 c - 1) \<le> of_nat c"
      using b by (metis of_nat_le_iff of_nat_numeral of_nat_power)
    have hi: "of_nat c + 1 \<le> (2::rat) ^ floorlog 2 c"
      using b by (metis Suc_eq_plus1 Suc_leI of_nat_1 of_nat_add of_nat_le_iff of_nat_numeral of_nat_power)
    have "1 / x \<le> 2 ^ floorlog 2 c" using cx hi by linarith
    then have "1 / 2 ^ floorlog 2 c \<le> x" using assms by (simp add: field_simps)
    moreover have "2 ^ (floorlog 2 c - 1) < 1 / x" using cx lo by linarith
    then have "x < 1 / 2 ^ (floorlog 2 c - 1)" using assms by (simp add: field_simps)
    moreover have "- int (floorlog 2 c) + 1 = - int (floorlog 2 c - 1)" using k by simp
    ultimately show ?thesis
      by (simp only: e power_int_minus power_int_of_nat inverse_eq_divide)
  qed
  then show "2 powi ilog2 x \<le> x" and "x < 2 powi (ilog2 x + 1)" by simp_all
qed

lemma round_even_near: "\<bar>of_int (round_even x) - x\<bar> \<le> 1 / 2"
proof -
  have "of_int \<lfloor>x\<rfloor> \<le> x" "x < of_int \<lfloor>x\<rfloor> + 1" by linarith+
  then show ?thesis unfolding round_even_def Let_def by (simp add: abs_le_iff)
qed

lemma round_even_int [simp]: "round_even (of_int k) = k"
  by (simp add: round_even_def)

lemma round_even_eqI: "\<bar>x - of_int m\<bar> < 1 / 2 \<Longrightarrow> round_even x = m"
  using round_even_near [of x] by linarith

lemma round53_near:
  assumes "0 < x" and "- 1022 \<le> ilog2 x"
  shows "\<bar>round53 x - x\<bar> \<le> x / 2 ^ 53"
proof -
  define u :: rat where "u = 2 powi (ilog2 x - 52)"
  have u: "0 < u" by (simp add: u_def)
  have r: "round53 x = of_int (round_even (x / u)) * u"
  proof -
    have "max (ilog2 x - 52) (- 1074) = ilog2 x - 52" using assms(2) by (intro max_absorb1) simp
    then show ?thesis by (simp add: round53_def u_def Let_def)
  qed
  have "\<bar>of_int (round_even (x / u)) * u - x\<bar> = \<bar>of_int (round_even (x / u)) - x / u\<bar> * u"
  proof -
    have "of_int (round_even (x / u)) * u - x = (of_int (round_even (x / u)) - x / u) * u"
      using u by (simp add: left_diff_distrib)
    then show ?thesis using u by (simp add: abs_mult)
  qed
  also have "\<dots> \<le> 1 / 2 * u" using round_even_near [of "x / u"] u by (intro mult_right_mono) auto
  also have "\<dots> = 2 powi ilog2 x / 2 ^ 53" by (simp add: u_def power_int_diff power_int_numeral)
  also have "\<dots> \<le> x / 2 ^ 53" using ilog2_bounds(1) [OF assms(1)] by (simp add: divide_right_mono)
  finally show ?thesis by (simp add: r)
qed

text \<open>An integer of at most 53 bits is a float.\<close>

lemma ilog2_nat_less:
  assumes "0 < n" and "n < 2 ^ k"
  shows "0 \<le> ilog2 (of_nat n) \<and> ilog2 (of_nat n) < int k"
proof -
  let ?e = "ilog2 (of_nat n)"
  have "0 < floorlog 2 n" using assms(1) by (simp add: floorlog_def)
  then have e: "?e = int (floorlog 2 n - 1)" using assms(1) by (simp add: ilog2_def of_nat_diff)
  have "2 ^ (floorlog 2 n - 1) \<le> n" using floorlog_bounds [OF assms(1), of 2] by simp
  with assms(2) have "(2::nat) ^ (floorlog 2 n - 1) < 2 ^ k" by (rule order.strict_trans1 [rotated])
  then show ?thesis by (simp add: e)
qed

lemma round53_nat:
  assumes "n < 2 ^ 53"
  shows "round53 (of_nat n) = of_nat n"
proof (cases "n = 0")
  case False
  then have e: "0 \<le> ilog2 (of_nat n)" "ilog2 (of_nat n) < 53" using ilog2_nat_less [of n 53] assms by auto
  define k where "k = nat (52 - ilog2 (of_nat n))"
  have "max (ilog2 (of_nat n) - 52) (- 1074) = - int k" using e by (simp add: k_def)
  then have u: "2 powi (max (ilog2 (of_nat n) - 52) (- 1074)) = (1 :: rat) / 2 ^ k"
    by (simp add: power_int_minus inverse_eq_divide)
  have "of_nat n / (1 / 2 ^ k) = (of_int (int n * 2 ^ k) :: rat)" by simp
  then show ?thesis unfolding round53_def Let_def u by (simp only: round_even_int) simp
qed (simp add: round53_def round_even_def)

lemma to_float_nat:
  assumes "n < 2 ^ 53"
  shows "to_float (of_nat n) = FNum (of_nat n)"
proof -
  have "(of_nat n :: rat) < of_nat (2 ^ 53)" using assms by (simp only: of_nat_less_iff)
  then have "\<not> 2 ^ 1024 \<le> (of_nat n :: rat)" by simp
  then show ?thesis using assms by (simp add: to_float_def round53_nat Let_def del: power_numeral)
qed

lemma float64_of_uint64_exact: "unat n < 2 ^ 53 \<Longrightarrow> float64_of_uint64 n = FNum (of_nat (unat n))"
  unfolding float64_of_uint64_def by (rule to_float_nat)

text \<open>A number that is not tiny is rounded within half a unit of its last place.\<close>

lemma powi_2_lessD: "(2::rat) powi k < 2 powi (m + 1) \<Longrightarrow> k \<le> m"
  using power_int_increasing [of "m + 1" k "2::rat"] by (cases "k \<le> m") auto

lemma ilog2_ge:
  assumes "2 powi k \<le> x" shows "k \<le> ilog2 x"
proof -
  have "0 < x" using assms powi_2_pos [of k] by linarith
  then have "(2::rat) powi k < 2 powi (ilog2 x + 1)" using assms ilog2_bounds(2) [of x] by linarith
  then show ?thesis by (rule powi_2_lessD)
qed

lemma ilog2_eqI:
  assumes "2 powi e \<le> x" and "x < 2 powi (e + 1)" shows "ilog2 x = e"
proof -
  have "0 < x" using assms(1) powi_2_pos [of e] by linarith
  then have "(2::rat) powi ilog2 x < 2 powi (e + 1)" using assms(2) ilog2_bounds(1) [of x] by linarith
  then have "ilog2 x \<le> e" by (rule powi_2_lessD)
  with ilog2_ge [OF assms(1)] show ?thesis by simp
qed

text \<open>Evaluation at a number whose leading bit is known.\<close>

lemma to_float_eval:
  assumes "2 powi e \<le> x" and "x < 2 powi (e + 1)" and "- 1022 \<le> e"
    and "\<bar>x / 2 powi (e - 52) - of_int m\<bar> < 1 / 2" and "of_int m * 2 powi (e - 52) < (2 ^ 1024 :: rat)"
  shows "to_float x = FNum (of_int m * 2 powi (e - 52))"
proof -
  have "0 < x" using assms(1) powi_2_pos [of e] by linarith
  moreover have "round53 x = of_int m * 2 powi (e - 52)"
  proof -
    have "max (e - 52) (- 1074) = e - 52" using assms(3) by (intro max_absorb1) simp
    then show ?thesis
      by (simp add: round53_def ilog2_eqI [OF assms(1,2)] round_even_eqI [OF assms(4)] Let_def)
  qed
  ultimately show ?thesis using assms(5) by (simp add: to_float_def Let_def del: power_numeral)
qed

lemma to_float_near:
  assumes "1 / 2 ^ 100 \<le> x" and "x \<le> 2 ^ 100"
  obtains y where "to_float x = FNum y" and "\<bar>y - x\<bar> \<le> x / 2 ^ 53"
proof -
  have x: "0 < x" using assms(1) by (rule order.strict_trans2 [rotated]) simp
  have "(2::rat) powi (- 100) = 1 / 2 ^ 100" by (simp add: power_int_minus inverse_eq_divide power_int_numeral)
  with assms(1) have "- 100 \<le> ilog2 x" using ilog2_ge [of "- 100" x] by simp
  then have near: "\<bar>round53 x - x\<bar> \<le> x / 2 ^ 53" using round53_near [OF x] by simp
  then have "round53 x - x \<le> x / 2 ^ 53" by (simp only: abs_le_iff)
  then have "round53 x \<le> 2 * x" using x by (simp add: field_simps)
  then have "\<not> 2 ^ 1024 \<le> round53 x" using assms(2) by simp
  then have "to_float x = FNum (round53 x)" using x by (simp add: to_float_def Let_def del: power_numeral)
  with near that show ?thesis by blast
qed

end
