(* ===== verification/Params.thy ===== *)
theory Params
  imports Go_Float Consensus
begin

text \<open>
  \<open>node/params.go\<close>: amounts in the smallest unit and in coins. A coin is \<open>10 ^ 8\<close> units. The constants
  are those of the file; \<open>conv\<close> is the machine's conversion to \<open>uint64\<close> out of range.
\<close>

definition node_CoinUnit :: nat where "node_CoinUnit = 100000000"

definition InitialAirdrop :: nat where "InitialAirdrop = 10000 * node_CoinUnit"

definition ToDecimal :: "u64 \<Rightarrow> float64" where
  "ToDecimal amount = fdiv (float64_of_uint64 amount) (to_float (of_nat node_CoinUnit))"

definition ToUnits :: "(float64 \<Rightarrow> u64) \<Rightarrow> float64 \<Rightarrow> u64" where
  "ToUnits conv amount = uint64_of_float conv (fmul amount (to_float (of_nat node_CoinUnit)))"

lemma CoinUnit_float [simp]: "to_float (of_nat node_CoinUnit) = FNum 100000000"
  using to_float_nat [of node_CoinUnit] by (simp add: node_CoinUnit_def)

section \<open>There and back\<close>

text \<open>The quotient and the product are rounded once each, so less than a unit is lost below
  \<open>2 ^ 52\<close> units.\<close>

lemma scaled_back:
  assumes n: "0 < n" "n < 2 ^ 52"
  shows "\<exists>v z. to_float (of_nat n / 100000000) = FNum v \<and> to_float (v * 100000000) = FNum z \<and>
    of_nat n - 1 < z \<and> z < of_nat n + 1"
proof -
  define r :: rat where "r = of_nat n"
  have r: "1 \<le> r" "r \<le> 2 ^ 52 - 1"
  proof -
    show "1 \<le> r" using n(1) by (simp add: r_def)
    have "r \<le> of_nat (2 ^ 52 - 1)" unfolding r_def using n(2) by (simp only: of_nat_le_iff)
    then show "r \<le> 2 ^ 52 - 1" by simp
  qed
  obtain v where v: "to_float (r / 100000000) = FNum v" "\<bar>v - r / 100000000\<bar> \<le> r / 100000000 / 2 ^ 53"
    using to_float_near [of "r / 100000000"] r by (auto simp: field_simps)
  have v8: "\<bar>v * 100000000 - r\<bar> \<le> r / 2 ^ 53"
    using v(2) unfolding abs_le_iff by simp
  then have "1 / 2 ^ 100 \<le> v * 100000000" "v * 100000000 \<le> 2 ^ 100"
    using r unfolding abs_le_iff by simp_all
  then obtain z where z: "to_float (v * 100000000) = FNum z"
      "\<bar>z - v * 100000000\<bar> \<le> v * 100000000 / 2 ^ 53"
    using to_float_near by metis
  have "r - 1 < z \<and> z < r + 1"
    using v8 z(2) r unfolding abs_le_iff by simp
  with v(1) z(1) show ?thesis by (auto simp: r_def)
qed

lemma uint64_of_near:
  assumes "of_nat n - 1 < z" and "z < of_nat n + 1" and "0 < n" and "n < 2 ^ 52"
  shows "unat (uint64_of_float conv (FNum z)) = n \<or> unat (uint64_of_float conv (FNum z)) = n - 1"
proof -
  have bound: "(of_nat n :: rat) + 1 \<le> 2 ^ 52"
  proof -
    have "(of_nat (Suc n) :: rat) \<le> of_nat (2 ^ 52)" using assms(4) by (simp only: of_nat_le_iff Suc_leI)
    then show ?thesis by (simp add: add.commute)
  qed
  have "(of_nat 1 :: rat) \<le> of_nat n" using assms(3) by (simp only: of_nat_le_iff Suc_leI One_nat_def)
  then have pos: "0 < z" using assms(1) by simp
  have "\<lfloor>z\<rfloor> = int n \<or> \<lfloor>z\<rfloor> = int n - 1"
    using assms(1,2) by linarith
  moreover have "uint64_of_float conv (FNum z) = of_int \<lfloor>z\<rfloor>"
    using pos assms(2) bound by (simp add: uint64_of_float_def)
  moreover have "unat (of_int (int k) :: u64) = k" if "k \<le> n" for k
    using that assms(4) by (simp add: unsigned_of_nat take_bit_nat_eq_self)
  ultimately show ?thesis
    using assms(3) by (metis diff_le_self of_nat_1 of_nat_diff order_refl Suc_leI One_nat_def)
qed

lemma ToUnits_ToDecimal:
  assumes "unat n < 2 ^ 52"
  shows "unat (ToUnits conv (ToDecimal n)) = unat n \<or> unat (ToUnits conv (ToDecimal n)) = unat n - 1"
proof (cases "n = 0")
  case True
  then show ?thesis
    using float64_of_uint64_exact [of 0] CoinUnit_float
    by (simp add: ToUnits_def ToDecimal_def uint64_of_float_def to_float_0)
next
  case False
  then have n: "0 < unat n" by (simp add: unat_gt_0)
  from scaled_back [OF n assms] obtain v z where
    v: "to_float (of_nat (unat n) / 100000000) = FNum v" "to_float (v * 100000000) = FNum z"
    and z: "of_nat (unat n) - 1 < z" "z < of_nat (unat n) + 1" by blast
  have "float64_of_uint64 n = FNum (of_nat (unat n))"
    using assms by (intro float64_of_uint64_exact) simp
  then have "ToUnits conv (ToDecimal n) = uint64_of_float conv (FNum z)"
    using v by (simp add: ToUnits_def ToDecimal_def)
  with uint64_of_near [OF z n assms, of conv] show ?thesis by simp
qed

text \<open>Twenty-nine hundredths of a coin come back a unit short.\<close>

lemma point_29: "to_float (29 / 100) = FNum (5224175567749775 / 2 ^ 54)"
  using to_float_eval [of "- 2" "29 / 100" 5224175567749775]
  by (simp add: power_int_minus power_int_numeral abs_if)

end
