(* ===== verification/Go_Text.thy ===== *)
theory Go_Text
  imports Go_Std
begin

text \<open>
  What the configuration and the network code use of Go's text functions: \<open>strings.TrimSpace\<close>
  with every Unicode space, \<open>strings.SplitN\<close> at a one-byte separator, \<open>bufio.Scanner\<close> over
  lines with its limit on their length, and the files of \<open>os\<close> as a state that is passed along.
\<close>

section \<open>Trimming\<close>

text \<open>The UTF-8 encodings of the characters \<open>unicode.IsSpace\<close> holds of.\<close>

definition space_codes :: "string list" where
  "space_codes =
     [[CHR 0x09], [CHR 0x0A], [CHR 0x0B], [CHR 0x0C], [CHR 0x0D], [CHR 0x20],
      [CHR 0xC2, CHR 0x85], [CHR 0xC2, CHR 0xA0], [CHR 0xE1, CHR 0x9A, CHR 0x80]]
     @ map (\<lambda>n. [CHR 0xE2, CHR 0x80, char_of (0x80 + n)]) [0..<11]
     @ [[CHR 0xE2, CHR 0x80, CHR 0xA8], [CHR 0xE2, CHR 0x80, CHR 0xA9],
        [CHR 0xE2, CHR 0x80, CHR 0xAF], [CHR 0xE2, CHR 0x81, CHR 0x9F],
        [CHR 0xE3, CHR 0x80, CHR 0x80]]"

function strip :: "string list \<Rightarrow> string \<Rightarrow> string" where
  "strip codes s =
     (case find (\<lambda>p. p \<noteq> [] \<and> HasPrefix s p) codes of
        None \<Rightarrow> s
      | Some p \<Rightarrow> strip codes (drop (length p) s))"
  by pat_completeness auto
termination
  by (relation "measure (length \<circ> snd)") (auto simp: find_Some_iff HasPrefix_iff)

declare strip.simps [simp del]

definition TrimSpace :: "string \<Rightarrow> string" where
  "TrimSpace s = rev (strip (map rev space_codes) (rev (strip space_codes s)))"

text \<open>A string whose two ends are printable ASCII is left as it is.\<close>

definition printable :: "char \<Rightarrow> bool" where
  "printable c \<longleftrightarrow> 33 \<le> (of_char c :: nat) \<and> (of_char c :: nat) \<le> 126"

lemma space_heads:
  "\<forall>p \<in> set space_codes. \<not> printable (hd p)"
  "\<forall>p \<in> set (map rev space_codes). \<not> printable (hd p)"
  by code_simp+

lemma strip_printable:
  assumes "\<forall>p \<in> set codes. \<not> printable (hd p)" and "s = [] \<or> printable (hd s)"
  shows "strip codes s = s"
proof -
  have "find (\<lambda>p. p \<noteq> [] \<and> HasPrefix s p) codes = None"
    using assms by (auto simp: find_None_iff HasPrefix_iff)
  then show ?thesis by (simp add: strip.simps)
qed

lemma TrimSpace_printable:
  assumes "\<forall>c \<in> set s. printable c"
  shows "TrimSpace s = s"
  using assms strip_printable [OF space_heads(1), of s] strip_printable [OF space_heads(2), of "rev s"]
  by (cases "s = []") (simp_all add: TrimSpace_def hd_rev)

section \<open>Splitting\<close>

text \<open>\<open>strings.SplitN(s, sep, 2)\<close> for a separator of one byte: the whole string, or the two parts.\<close>

definition SplitN2 :: "string \<Rightarrow> char \<Rightarrow> string list" where
  "SplitN2 s sep =
     (let l = takeWhile (\<lambda>c. c \<noteq> sep) s in
      if l = s then [s] else [l, drop (length l + 1) s])"

lemma SplitN2_append [simp]: "sep \<notin> set l \<Longrightarrow> SplitN2 (l @ sep # r) sep = [l, r]"
  by (simp add: SplitN2_def takeWhile_append)

lemma SplitN2_absent: "sep \<notin> set s \<Longrightarrow> SplitN2 s sep = [s]"
  by (auto simp: SplitN2_def Let_def takeWhile_eq_all_conv)

section \<open>Lines\<close>

text \<open>The pieces between newlines; what follows the last one is a line when it is not empty.\<close>

function raw_lines :: "string \<Rightarrow> string list" where
  "raw_lines s =
     (if s = [] then []
      else takeWhile (\<lambda>c. c \<noteq> CHR 0x0A) s # raw_lines (tl (dropWhile (\<lambda>c. c \<noteq> CHR 0x0A) s)))"
  by pat_completeness auto
termination
proof (relation "measure length")
  fix s :: string
  assume "s \<noteq> []"
  moreover have "length (dropWhile (\<lambda>c. c \<noteq> CHR 0x0A) s) \<le> length s" by (rule length_dropWhile_le)
  ultimately show "(tl (dropWhile (\<lambda>c. c \<noteq> CHR 0x0A) s), s) \<in> measure length"
    by (cases s) (auto simp: less_Suc_eq_le intro: le_trans [OF diff_le_self])
qed simp

declare raw_lines.simps [simp del]

definition drop_cr :: "string \<Rightarrow> string" where
  "drop_cr l = (if l \<noteq> [] \<and> last l = CHR 0x0D then butlast l else l)"

text \<open>A line that does not fit in the buffer of 65536 bytes ends the scan.\<close>

definition Scanner_lines :: "string \<Rightarrow> string list" where
  "Scanner_lines s = map drop_cr (takeWhile (\<lambda>l. length l < 65536) (raw_lines s))"

lemma raw_lines_Nil [simp]: "raw_lines [] = []"
  by (simp add: raw_lines.simps)

lemma raw_lines_line [simp]:
  assumes "CHR 0x0A \<notin> set l"
  shows "raw_lines (l @ CHR 0x0A # rest) = l # raw_lines rest"
  using assms by (subst raw_lines.simps) (simp add: takeWhile_append dropWhile_append)

lemma drop_cr_printable: "\<forall>c \<in> set l. printable c \<Longrightarrow> drop_cr l = l"
  by (auto simp: drop_cr_def printable_def dest!: last_in_set)

section \<open>Files\<close>

text \<open>A path is the list of its components (\<open>filepath.Join\<close> adds one). The content of the files,
  and what the system refuses: reading or writing a file, or making a directory.\<close>

type_synonym path = "string list"

record disk =
  dk_file :: "path \<Rightarrow> bytes option"
  dk_readable :: "path \<Rightarrow> bool"
  dk_writable :: "path \<Rightarrow> bool"
  dk_makable :: "path \<Rightarrow> bool"

text \<open>A disk with no files, on which everything is allowed.\<close>

definition empty_disk :: disk where
  "empty_disk = \<lparr>dk_file = (\<lambda>_. None), dk_readable = (\<lambda>_. True), dk_writable = (\<lambda>_. True),
     dk_makable = (\<lambda>_. True)\<rparr>"

definition ReadFile :: "path \<Rightarrow> disk \<Rightarrow> bytes option" where
  "ReadFile p d = (if dk_readable d p then dk_file d p else None)"

definition WriteFile :: "path \<Rightarrow> bytes \<Rightarrow> disk \<Rightarrow> bool \<times> disk" where
  "WriteFile p data d =
     (if dk_writable d p then (True, d\<lparr>dk_file := (dk_file d)(p := Some data)\<rparr>) else (False, d))"

definition IsNotExist :: "path \<Rightarrow> disk \<Rightarrow> bool" where
  "IsNotExist p d \<longleftrightarrow> dk_file d p = None"

definition MkdirAll :: "path \<Rightarrow> disk \<Rightarrow> bool" where
  "MkdirAll p d \<longleftrightarrow> dk_makable d p"

definition Join :: "path \<Rightarrow> string \<Rightarrow> path" where
  "Join dir name = dir @ [name]"

lemma Join_inject [simp]: "Join d a = Join d' b \<longleftrightarrow> d = d' \<and> a = b"
  by (simp add: Join_def)

lemma WriteFile_keeps [simp]:
  "dk_readable (snd (WriteFile p data d)) = dk_readable d"
  "dk_writable (snd (WriteFile p data d)) = dk_writable d"
  "dk_makable (snd (WriteFile p data d)) = dk_makable d"
  by (simp_all add: WriteFile_def)

lemma ReadFile_WriteFile:
  "ReadFile q (snd (WriteFile p data d)) =
     (if q = p \<and> dk_writable d p then if dk_readable d p then Some data else None else ReadFile q d)"
  by (auto simp: ReadFile_def WriteFile_def)

end
