(* ===== verification/Go_Indent.thy ===== *)
theory Go_Indent
  imports Go_Json Go_Text
begin

text \<open>
  \<open>json.MarshalIndent\<close> and \<open>base64.StdEncoding.DecodeString\<close>, and the two readers of numbers and
  addresses the commands use: \<open>fmt.Sscanf\<close> with \<open>%d\<close> and \<open>net.SplitHostPort\<close>.
\<close>

section \<open>Indented JSON\<close>

text \<open>A value whose leaves are already encoded.\<close>

datatype jtree = JLeaf string | JArr "jtree list" | JObj "(string \<times> jtree) list"

fun join_with :: "string \<Rightarrow> string list \<Rightarrow> string" where
  "join_with sep [] = []"
| "join_with sep [x] = x"
| "join_with sep (x # y # xs) = x @ sep @ join_with sep (y # xs)"

fun indent_json :: "string \<Rightarrow> string \<Rightarrow> jtree \<Rightarrow> string" where
  "indent_json ind cur (JLeaf s) = s"
| "indent_json ind cur (JArr ts) =
     (if ts = [] then ''[]''
      else ''['' @ [CHR 0x0A] @
        join_with ('','' @ [CHR 0x0A]) (map (\<lambda>t. cur @ ind @ indent_json ind (cur @ ind) t) ts) @
        [CHR 0x0A] @ cur @ '']'')"
| "indent_json ind cur (JObj fs) =
     (if fs = [] then ''{}''
      else ''{'' @ [CHR 0x0A] @
        join_with ('','' @ [CHR 0x0A])
          (map (\<lambda>(k, t). cur @ ind @ json_string k @ '': '' @ indent_json ind (cur @ ind) t) fs) @
        [CHR 0x0A] @ cur @ ''}'')"

definition MarshalIndent :: "string \<Rightarrow> jtree \<Rightarrow> bytes" where
  "MarshalIndent ind t = indent_json ind [] t"

section \<open>Base64 decoding\<close>

definition b64_val :: "char \<Rightarrow> nat option" where
  "b64_val c =
     (let n = of_char c :: nat in
      if 65 \<le> n \<and> n \<le> 90 then Some (n - 65)
      else if 97 \<le> n \<and> n \<le> 122 then Some (n - 71)
      else if 48 \<le> n \<and> n \<le> 57 then Some (n + 4)
      else if n = 43 then Some 62
      else if n = 47 then Some 63
      else None)"

lemma b64_alphabet:
  "''ABCDEFGHIJKLMNOPQRSTUVWXYZabcdefghijklmnopqrstuvwxyz0123456789+/''
     = map char_of ([65..<91] @ [97..<123] @ [48..<58] @ [43, 47 :: nat])"
  by code_simp

lemma b64_code:
  assumes "i < 64"
  shows "b64_char i = char_of (if i < 26 then 65 + i else if i < 52 then 71 + i
    else if i < 62 then i - 4 else if i = 62 then 43 else 47 :: nat)"
proof -
  consider "i < 26" | "26 \<le> i" "i < 52" | "52 \<le> i" "i < 62" | "i = 62" | "i = 63"
    using assms by linarith
  then have "([65..<91] @ [97..<123] @ [48..<58] @ [43, 47 :: nat]) ! i
      = (if i < 26 then 65 + i else if i < 52 then 71 + i
         else if i < 62 then i - 4 else if i = 62 then 43 else 47)"
  proof cases
    case 3
    then obtain j where "i = 52 + j" using le_Suc_ex by blast
    with 3 show ?thesis by (simp add: nth_append del: upt_rec_numeral)
  qed (simp_all add: nth_append del: upt_rec_numeral)
  moreover have "i < length ([65..<91] @ [97..<123] @ [48..<58] @ [43, 47 :: nat])"
    using assms by (simp del: upt_rec_numeral)
  ultimately show ?thesis unfolding b64_char_def b64_alphabet by (simp only: nth_map)
qed

lemma b64_val_char [simp]:
  assumes "i < 64"
  shows "b64_val (b64_char i) = Some i"
proof -
  consider "i < 26" | "26 \<le> i" "i < 52" | "52 \<le> i" "i < 62" | "i = 62" | "i = 63"
    using assms by linarith
  then show ?thesis unfolding b64_code [OF assms] by cases (auto simp: b64_val_def Let_def)
qed

lemma b64_char_not_pad [simp]: "i < 64 \<Longrightarrow> b64_char i \<noteq> CHR ''=''"
  using b64_val_char [of i] by (auto simp: b64_val_def)

text \<open>Groups of four; the last one may end in one or two pads, whose spare bits are not looked
  at.\<close>

fun base64_groups :: "string \<Rightarrow> bytes option" where
  "base64_groups [] = Some []"
| "base64_groups (a # b # c # d # rest) =
     (if rest = [] \<and> c = CHR ''='' \<and> d = CHR ''='' then
        (case (b64_val a, b64_val b) of
           (Some x, Some y) \<Rightarrow> Some [char_of ((x * 64 + y) div 16)]
         | _ \<Rightarrow> None)
      else if rest = [] \<and> d = CHR ''='' then
        (case (b64_val a, b64_val b, b64_val c) of
           (Some x, Some y, Some z) \<Rightarrow>
             (let n = (x * 4096 + y * 64 + z) div 4
              in Some [char_of (n div 256), char_of (n mod 256)])
         | _ \<Rightarrow> None)
      else
        (case (b64_val a, b64_val b, b64_val c, b64_val d, base64_groups rest) of
           (Some x, Some y, Some z, Some w, Some bs) \<Rightarrow>
             (let n = x * 262144 + y * 4096 + z * 64 + w
              in Some (char_of (n div 65536) # char_of (n div 256 mod 256) # char_of (n mod 256) # bs))
         | _ \<Rightarrow> None))"
| "base64_groups _ = None"

text \<open>Newlines between the characters are skipped.\<close>

definition base64_decode :: "string \<Rightarrow> bytes option" where
  "base64_decode s = base64_groups (filter (\<lambda>c. c \<noteq> CHR 0x0A \<and> c \<noteq> CHR 0x0D) s)"

lemma byte_lt: "(of_char c :: nat) < 256"
  by (rule nat_of_char_less_256)

lemma sextets:
  fixes n :: nat
  shows "n div 262144 * 64 + n div 4096 mod 64 = n div 4096"
    and "n div 262144 * 4096 + n div 4096 mod 64 * 64 + n div 64 mod 64 = n div 64"
    and "n div 262144 * 262144 + n div 4096 mod 64 * 4096 + n div 64 mod 64 * 64 + n mod 64 = n"
proof -
  have d: "n div 262144 = n div 4096 div 64" "n div 4096 = n div 64 div 64"
    by (simp_all flip: div_mult2_eq)
  have e: "q div 64 * 64 + q mod 64 = q" for q :: nat by simp
  show one: "n div 262144 * 64 + n div 4096 mod 64 = n div 4096" unfolding d(1) by (rule e)
  show two: "n div 262144 * 4096 + n div 4096 mod 64 * 64 + n div 64 mod 64 = n div 64"
    using one e [of "n div 64"] d(2) by linarith
  show "n div 262144 * 262144 + n div 4096 mod 64 * 4096 + n div 64 mod 64 * 64 + n mod 64 = n"
    using two e [of n] by linarith
qed

lemma sextet_lt:
  fixes n :: nat
  assumes "n < 16777216"
  shows "n div 262144 < 64" and "n div 4096 mod 64 < 64" and "n div 64 mod 64 < 64" and "n mod 64 < 64"
  using assms by (simp_all add: less_mult_imp_div_less)

lemma base64_groups_encode: "base64_groups (base64_encode bs) = Some bs"
proof (induction bs rule: base64_encode.induct)
  case (2 a)
  define n :: nat where "n = of_char a * 65536"
  have lt: "n < 16777216" and div: "n div 4096 div 16 = of_char a"
    using byte_lt [of a] by (simp_all add: n_def flip: div_mult2_eq)
  show ?case
    unfolding base64_encode.simps Let_def n_def [symmetric]
    using sextet_lt [OF lt] sextets(1) [of n] div by simp
next
  case (3 a b)
  define n :: nat where "n = of_char a * 65536 + of_char b * 256"
  have lt: "n < 16777216" unfolding n_def using byte_lt [of a] byte_lt [of b] by linarith
  have div: "n div 64 div 4 = of_char a * 256 + of_char b" by (simp add: n_def flip: div_mult2_eq)
  have "char_of ((of_char a * 256 + of_char b :: nat) mod 256) = b" by simp
  then have low: "char_of (of_char a * 256 + of_char b :: nat) = b" by (simp only: char_of_mod_256)
  show ?case
    unfolding base64_encode.simps Let_def n_def [symmetric]
    using sextet_lt [OF lt] sextets(2) [of n] div byte_lt [of b] low by simp
next
  case (4 a b c rest)
  define n :: nat where "n = of_char a * 65536 + of_char b * 256 + of_char c"
  have lt: "n < 16777216"
    unfolding n_def using byte_lt [of a] byte_lt [of b] byte_lt [of c] by linarith
  have n: "n = of_char c + (of_char a * 256 + of_char b) * 256" by (simp add: n_def)
  have low: "n mod 256 = of_char c" and high: "n div 256 = of_char a * 256 + of_char b"
    unfolding n by (simp_all only: mod_mult_self1 div_mult_self1 div_less [OF byte_lt] mod_less [OF byte_lt])
  have "n div 65536 = n div 256 div 256" by (simp flip: div_mult2_eq)
  then have parts: "n div 65536 = of_char a" "n div 256 mod 256 = of_char b" "n mod 256 = of_char c"
    using high low byte_lt [of b] by simp_all
  have chars: "char_of (n div 256) = b" "char_of n = c"
    using char_of_mod_256 [of "n div 256"] char_of_mod_256 [of n] by (simp_all add: parts del: char_of_mod_256)
  show ?case
    unfolding base64_encode.simps Let_def n_def [symmetric]
    using sextet_lt [OF lt] sextets(3) [of n] parts chars 4 by simp
qed simp

lemma b64_char_graphic: "i < 64 \<Longrightarrow> b64_char i \<noteq> CHR 0x0A \<and> b64_char i \<noteq> CHR 0x0D"
  using b64_val_char [of i] by (auto simp: b64_val_def)

lemma base64_encode_graphic: "c \<in> set (base64_encode bs) \<Longrightarrow> c \<noteq> CHR 0x0A \<and> c \<noteq> CHR 0x0D"
proof (induction bs rule: base64_encode.induct)
  case (2 a)
  have "of_char a * 65536 div 262144 < (64 :: nat)"
    by (rule sextet_lt) (use byte_lt [of a] in simp)
  with 2 show ?case by (auto simp: Let_def b64_char_graphic simp del: div_mult_mult1)
next
  case (3 a b)
  have "(of_char a * 65536 + of_char b * 256) div 262144 < (64 :: nat)"
    by (rule sextet_lt) (use byte_lt [of a] byte_lt [of b] in linarith)
  with 3 show ?case by (auto simp: Let_def b64_char_graphic)
next
  case (4 a b c' rest)
  have "(of_char a * 65536 + of_char b * 256 + of_char c') div 262144 < (64 :: nat)"
    by (rule sextet_lt) (use byte_lt [of a] byte_lt [of b] byte_lt [of c'] in linarith)
  with 4 show ?case by (auto simp: Let_def b64_char_graphic)
qed simp

lemma base64_decode_encode [simp, go_fmt]: "base64_decode (base64_encode bs) = Some bs"
proof -
  have "filter (\<lambda>c. c \<noteq> CHR 0x0A \<and> c \<noteq> CHR 0x0D) (base64_encode bs) = base64_encode bs"
    using base64_encode_graphic [of _ bs] by (intro filter_True) blast
  then show ?thesis by (simp add: base64_decode_def base64_groups_encode)
qed

section \<open>Reading numbers and addresses\<close>

text \<open>\<open>fmt.Sscanf(s, "%d", ...)\<close>: spaces but no newline are skipped, a sign is read for a signed
  target, then digits as far as they go; what follows is not looked at.\<close>

definition skip_spaces :: "string \<Rightarrow> string" where
  "skip_spaces s = strip (filter (\<lambda>p. p \<noteq> [CHR 0x0A]) space_codes) s"

definition is_digit :: "char \<Rightarrow> bool" where
  "is_digit c \<longleftrightarrow> 48 \<le> (of_char c :: nat) \<and> (of_char c :: nat) \<le> 57"

definition scan_digits :: "string \<Rightarrow> nat option" where
  "scan_digits s =
     (let ds = takeWhile is_digit s in if ds = [] then None else parse_digits 10 0 ds)"

definition Sscan_uint64 :: "string \<Rightarrow> u64 option" where
  "Sscan_uint64 s =
     (case scan_digits (skip_spaces s) of
        None \<Rightarrow> None
      | Some n \<Rightarrow> if n < 2 ^ 64 then Some (of_nat n) else None)"

definition Sscan_int :: "string \<Rightarrow> int option" where
  "Sscan_int s =
     (let t = skip_spaces s;
          neg = HasPrefix t ''-'';
          u = (if neg \<or> HasPrefix t ''+'' then tl t else t)
      in case scan_digits u of
           None \<Rightarrow> None
         | Some n \<Rightarrow>
             let i = (if neg then - int n else int n)
             in if - (2 ^ 63) \<le> i \<and> i < 2 ^ 63 then Some i else None)"

text \<open>\<open>net.SplitHostPort\<close>: the port follows the last colon; a host in brackets ends right before
  it, one without holds no other colon.\<close>

definition index_of :: "char \<Rightarrow> string \<Rightarrow> nat option" where
  "index_of c s = (let n = length (takeWhile (\<lambda>x. x \<noteq> c) s) in if n < length s then Some n else None)"

definition last_index_of :: "char \<Rightarrow> string \<Rightarrow> nat option" where
  "last_index_of c s = map_option (\<lambda>n. length s - 1 - n) (index_of c (rev s))"

definition SplitHostPort :: "string \<Rightarrow> (string \<times> string) option" where
  "SplitHostPort hostport =
     (case last_index_of (CHR '':'') hostport of
        None \<Rightarrow> None
      | Some i \<Rightarrow>
          if HasPrefix hostport ''['' then
            (case index_of (CHR '']'') hostport of
               None \<Rightarrow> None
             | Some e \<Rightarrow>
                 if e + 1 \<noteq> i then None
                 else if CHR ''['' \<in> set (drop 1 hostport) \<or> CHR '']'' \<in> set (drop (e + 1) hostport) then None
                 else Some (take (e - 1) (drop 1 hostport), drop (i + 1) hostport))
          else if CHR '':'' \<in> set (take i hostport) then None
          else if CHR ''['' \<in> set hostport \<or> CHR '']'' \<in> set hostport then None
          else Some (take i hostport, drop (i + 1) hostport))"

end
