(* ===== verification/Go_Roundtrip.thy ===== *)
theory Go_Roundtrip
  imports Go_Unmarshal
begin

text \<open>
  What \<open>json.Marshal\<close> and \<open>json.MarshalIndent\<close> write scans back to the value it stands for,
  inside any arrays and objects that are open; a string comes back with its invalid bytes
  replaced, so unchanged exactly when it is valid UTF-8.
\<close>

section \<open>Strings\<close>

text \<open>The string with U+FFFD for every byte that begins no UTF-8 sequence.\<close>

function replace_invalid :: "string \<Rightarrow> string" where
  "replace_invalid [] = []"
| "replace_invalid (c # cs) =
     (let k = utf8_len c cs in
      if k = 0 then replacement @ replace_invalid cs
      else c # take (k - 1) cs @ replace_invalid (drop (k - 1) cs))"
  by pat_completeness auto
termination
  by (relation "measure length") auto

definition valid_utf8 :: "string \<Rightarrow> bool" where
  "valid_utf8 s \<longleftrightarrow> replace_invalid s = s"

lemma cont_at_append:
  "i < n \<Longrightarrow> n \<le> length cs \<Longrightarrow> cont_at (take n cs @ xs) i lo hi \<longleftrightarrow> cont_at cs i lo hi"
  by (auto simp: cont_at_def nth_append)

text \<open>A sequence of more than one byte has its further bytes above the ASCII range.\<close>

lemma utf8_lead:
  assumes "utf8_len c cs \<noteq> 0"
  obtains "(of_char c :: nat) < 0x80" and "utf8_len c cs = 1"
  | "\<not> (of_char c :: nat) < 0x80" and "0xC2 \<le> (of_char c :: nat) \<and> (of_char c :: nat) \<le> 0xDF"
      and "utf8_len c cs = 2"
  | "\<not> (of_char c :: nat) < 0x80" and "\<not> (0xC2 \<le> (of_char c :: nat) \<and> (of_char c :: nat) \<le> 0xDF)"
      and "0xE0 \<le> (of_char c :: nat) \<and> (of_char c :: nat) \<le> 0xEF" and "utf8_len c cs = 3"
  | "\<not> (of_char c :: nat) < 0x80" and "\<not> (0xC2 \<le> (of_char c :: nat) \<and> (of_char c :: nat) \<le> 0xDF)"
      and "\<not> (0xE0 \<le> (of_char c :: nat) \<and> (of_char c :: nat) \<le> 0xEF)"
      and "0xF0 \<le> (of_char c :: nat) \<and> (of_char c :: nat) \<le> 0xF4" and "utf8_len c cs = 4"
proof -
  let ?b = "of_char c :: nat"
  consider "?b < 0x80" | "\<not> ?b < 0x80" "0xC2 \<le> ?b \<and> ?b \<le> 0xDF"
    | "\<not> ?b < 0x80" "\<not> (0xC2 \<le> ?b \<and> ?b \<le> 0xDF)" "0xE0 \<le> ?b \<and> ?b \<le> 0xEF"
    | "\<not> ?b < 0x80" "\<not> (0xC2 \<le> ?b \<and> ?b \<le> 0xDF)" "\<not> (0xE0 \<le> ?b \<and> ?b \<le> 0xEF)" "0xF0 \<le> ?b \<and> ?b \<le> 0xF4"
    | "\<not> ?b < 0x80" "\<not> (0xC2 \<le> ?b \<and> ?b \<le> 0xDF)" "\<not> (0xE0 \<le> ?b \<and> ?b \<le> 0xEF)" "\<not> (0xF0 \<le> ?b \<and> ?b \<le> 0xF4)"
    by blast
  then show ?thesis
  proof cases
    case 1 with that(1) show ?thesis by (simp only: utf8_len_def Let_def if_True)
  next
    case 2
    with assms have "utf8_len c cs = 2"
      by (simp only: utf8_len_def Let_def if_True if_False split: if_split_asm) simp_all
    with 2 that(2) show ?thesis by blast
  next
    case 3
    let ?p = "cont_at cs 0 (if ?b = 0xE0 then 0xA0 else 0x80) (if ?b = 0xED then 0x9F else 0xBF)
        \<and> cont_at cs 1 0x80 0xBF"
    from 3 have "utf8_len c cs = (if ?p then 3 else 0)"
      by (simp only: utf8_len_def Let_def if_True if_False simp_thms)
    with assms have "utf8_len c cs = 3" by presburger
    with 3 that(3) show ?thesis by blast
  next
    case 4
    let ?p = "cont_at cs 0 (if ?b = 0xF0 then 0x90 else 0x80) (if ?b = 0xF4 then 0x8F else 0xBF)
        \<and> cont_at cs 1 0x80 0xBF \<and> cont_at cs 2 0x80 0xBF"
    from 4 have "utf8_len c cs = (if ?p then 4 else 0)"
      by (simp only: utf8_len_def Let_def if_True if_False simp_thms)
    with assms have "utf8_len c cs = 4" by presburger
    with 4 that(4) show ?thesis by blast
  next
    case 5
    then have "utf8_len c cs = 0" by (simp only: utf8_len_def Let_def if_True if_False simp_thms)
    with assms show ?thesis by simp
  qed
qed

lemma utf8_len_ascii: "(of_char c :: nat) < 0x80 \<Longrightarrow> utf8_len c cs = 1"
  by (simp add: utf8_len_def)

text \<open>Which bytes follow is decided by them alone.\<close>

lemma utf8_tail:
  assumes "utf8_len c cs \<noteq> 0"
  shows "\<forall>i < utf8_len c cs - 1. cont_at cs i 0x80 0xBF"
    and "utf8_len c (take (utf8_len c cs - 1) cs @ xs) = utf8_len c cs"
proof -
  let ?b = "of_char c :: nat"
  note only = utf8_len_def Let_def if_True if_False simp_thms
  have weak: "cont_at cs 0 lo hi \<Longrightarrow> 0x80 \<le> lo \<Longrightarrow> hi \<le> 0xBF \<Longrightarrow> cont_at cs 0 0x80 0xBF" for lo hi
    by (simp add: cont_at_def)
  have len: "cont_at cs i lo hi \<Longrightarrow> Suc i \<le> length cs" for i lo hi by (simp add: cont_at_def)
  from assms have "(\<forall>i < utf8_len c cs - 1. cont_at cs i 0x80 0xBF) \<and>
    utf8_len c (take (utf8_len c cs - 1) cs @ xs) = utf8_len c cs"
  proof (cases rule: utf8_lead)
    case 1
    then show ?thesis by (simp add: utf8_len_ascii)
  next
    case 2
    then have c0: "cont_at cs 0 0x80 0xBF" by (auto simp: only split: if_split_asm)
    have "utf8_len c (take 1 cs @ xs) = 2"
      unfolding only using 2 c0 len [OF c0] by (simp add: cont_at_append)
    with c0 2(3) show ?thesis by simp
  next
    case 3
    let ?lo = "if ?b = 0xE0 then 0xA0 else 0x80 :: nat" and ?hi = "if ?b = 0xED then 0x9F else 0xBF :: nat"
    from 3 have eq: "utf8_len c ds = (if cont_at ds 0 ?lo ?hi \<and> cont_at ds 1 0x80 0xBF then 3 else 0)" for ds
      by (simp only: only)
    have cs: "cont_at cs 0 ?lo ?hi \<and> cont_at cs 1 0x80 0xBF"
      by (rule ccontr) (use if_not_P eq [of cs] 3(4) in fastforce)
    have two: "2 \<le> length cs" using len [of 1] cs by fastforce
    have "cont_at (take 2 cs @ xs) 0 ?lo ?hi = cont_at cs 0 ?lo ?hi"
      "cont_at (take 2 cs @ xs) 1 0x80 0xBF = cont_at cs 1 0x80 0xBF"
      by (rule cont_at_append; use two in simp)+
    then have "utf8_len c (take 2 cs @ xs) = 3" unfolding eq using cs by presburger
    moreover have "cont_at cs 0 0x80 0xBF" using cs by (auto intro: weak [OF conjunct1 [OF cs]])
    ultimately show ?thesis using 3(4) cs by (auto simp: less_Suc_eq numeral_eq_Suc)
  next
    case 4
    let ?lo = "if ?b = 0xF0 then 0x90 else 0x80 :: nat" and ?hi = "if ?b = 0xF4 then 0x8F else 0xBF :: nat"
    from 4 have eq: "utf8_len c ds = (if cont_at ds 0 ?lo ?hi \<and> cont_at ds 1 0x80 0xBF \<and>
        cont_at ds 2 0x80 0xBF then 4 else 0)" for ds
      by (simp only: only)
    have cs: "cont_at cs 0 ?lo ?hi \<and> cont_at cs 1 0x80 0xBF \<and> cont_at cs 2 0x80 0xBF"
      by (rule ccontr) (use if_not_P eq [of cs] 4(5) in fastforce)
    have three: "3 \<le> length cs" using len [of 2] cs by fastforce
    have "cont_at (take 3 cs @ xs) 0 ?lo ?hi = cont_at cs 0 ?lo ?hi"
      "cont_at (take 3 cs @ xs) 1 0x80 0xBF = cont_at cs 1 0x80 0xBF"
      "cont_at (take 3 cs @ xs) 2 0x80 0xBF = cont_at cs 2 0x80 0xBF"
      by (rule cont_at_append; use three in simp)+
    then have "utf8_len c (take 3 cs @ xs) = 4" unfolding eq using cs by presburger
    moreover have "cont_at cs 0 0x80 0xBF" using cs by (auto intro: weak [OF conjunct1 [OF cs]])
    ultimately show ?thesis using 4(5) cs by (auto simp: less_Suc_eq numeral_eq_Suc)
  qed
  then show "\<forall>i < utf8_len c cs - 1. cont_at cs i 0x80 0xBF"
    and "utf8_len c (take (utf8_len c cs - 1) cs @ xs) = utf8_len c cs" by blast+
qed

text \<open>Replacing is done once.\<close>

lemma replace_invalid_sequence:
  assumes "utf8_len c cs \<noteq> 0"
  shows "replace_invalid (c # take (utf8_len c cs - 1) cs @ r)
    = c # take (utf8_len c cs - 1) cs @ replace_invalid r"
proof -
  let ?t = "take (utf8_len c cs - 1) cs"
  have k: "utf8_len c (?t @ r) = utf8_len c cs" by (rule utf8_tail(2) [OF assms])
  have "length ?t = utf8_len c cs - 1"
    using utf8_tail(1) [OF assms] by (cases "utf8_len c cs - 1") (auto simp: cont_at_def)
  with assms k show ?thesis by (simp add: Let_def)
qed

lemma replace_invalid_replacement: "replace_invalid (replacement @ r) = replacement @ replace_invalid r"
proof -
  have bytes: "replacement = CHR 0xEF # take (utf8_len CHR 0xEF [CHR 0xBF, CHR 0xBD] - 1) [CHR 0xBF, CHR 0xBD]"
    and len: "utf8_len CHR 0xEF [CHR 0xBF, CHR 0xBD] \<noteq> 0" by code_simp+
  show ?thesis unfolding bytes append_Cons by (rule replace_invalid_sequence [OF len])
qed

lemma replace_invalid_valid [simp]: "valid_utf8 (replace_invalid s)"
  unfolding valid_utf8_def
proof (induction s rule: replace_invalid.induct)
  case (2 c cs)
  show ?case
  proof (cases "utf8_len c cs = 0")
    case True
    with 2(1) [OF refl] show ?thesis by (simp add: Let_def replace_invalid_replacement)
  next
    case False
    with 2(2) [OF refl] show ?thesis
      by (simp add: Let_def replace_invalid_sequence [OF False, unfolded One_nat_def] del: replace_invalid.simps(2)
          add: replace_invalid.simps(2) [of c cs])
  qed
qed simp

text \<open>What the escaping writes is read as part of the string, and unquoting gives the replaced
  string.\<close>

definition plain_char :: "char \<Rightarrow> bool" where
  "plain_char c \<longleftrightarrow> c \<noteq> CHR 0x22 \<and> c \<noteq> CHR 0x5C \<and> 32 \<le> (of_char c :: nat)"

lemma scan_plain:
  "\<forall>c \<in> set s. plain_char c \<Longrightarrow>
   foldl scan_step (fr, Quoted key Plain raw) s = (fr, Quoted key Plain (raw @ s))"
  by (induction s arbitrary: raw) (auto simp: plain_char_def)

lemma scan_hex:
  "d < 16 \<Longrightarrow> scan_step (fr, Quoted key (Hex n) raw) (digit_char d)
     = (fr, Quoted key (if n = 0 then Plain else Hex (n - 1)) (raw @ [digit_char d]))"
  by simp

lemma hex_digits_lt:
  "n < 65536 \<Longrightarrow> n div 4096 < (16 :: nat)" "n div 256 mod 16 < 16" "n div 16 mod 16 < 16" "n mod 16 < (16 :: nat)"
  by (simp_all add: less_mult_imp_div_less)

lemma scan_u:
  assumes "n < 65536"
  shows "foldl scan_step (fr, Quoted key Plain raw) (json_u n) = (fr, Quoted key Plain (raw @ json_u n))"
  using hex_digits_lt [of n] assms
  by (simp add: json_u_def scan_hex del: scan_step.simps(9))

lemma code_char:
  "of_char c = (34 :: nat) \<longleftrightarrow> c = CHR 0x22" "of_char c = (92 :: nat) \<longleftrightarrow> c = CHR 0x5C"
  using of_char_eq_iff [of c "CHR 0x22", where 'a = nat] of_char_eq_iff [of c "CHR 0x5C", where 'a = nat]
  by simp_all

lemma scan_ascii:
  assumes "(of_char c :: nat) < 0x80"
  shows "foldl scan_step (fr, Quoted key Plain raw) (json_ascii c) = (fr, Quoted key Plain (raw @ json_ascii c))"
  using assms
  by (auto simp: json_ascii_def Let_def scan_u plain_char_def code_char)

lemma scan_escape:
  "foldl scan_step (fr, Quoted key Plain raw) (json_escape s) = (fr, Quoted key Plain (raw @ json_escape s))"
proof (induction s arbitrary: raw rule: json_escape.induct)
  case (2 c cs)
  show ?case
  proof (cases "(of_char c :: nat) < 0x80")
    case True
    with 2(1) [OF refl] show ?thesis by (simp add: scan_ascii Let_def)
  next
    case high: False
    show ?thesis
    proof (cases "utf8_len c cs = 0")
      case True
      with 2(2) [OF refl high] high show ?thesis by (simp add: scan_u Let_def)
    next
      case False
      let ?k = "utf8_len c cs" and ?r = "c # take (utf8_len c cs - 1) cs"
      have "\<forall>x \<in> set ?r. plain_char x"
        using utf8_tail(1) [OF False] high
        by (fastforce simp: plain_char_def in_set_conv_nth cont_at_def)
      then have r: "foldl scan_step (fr, Quoted key Plain raw) ?r = (fr, Quoted key Plain (raw @ ?r))" for raw
        by (rule scan_plain)
      define x where "x = (if ?r = [CHR 0xE2, CHR 0x80, CHR 0xA8] then json_u 0x2028
        else if ?r = [CHR 0xE2, CHR 0x80, CHR 0xA9] then json_u 0x2029 else ?r)"
      have eq: "json_escape (c # cs) = x @ json_escape (drop (?k - 1) cs)"
        using high False unfolding x_def json_escape.simps Let_def by (simp only: if_False)
      have "foldl scan_step (fr, Quoted key Plain raw) x = (fr, Quoted key Plain (raw @ x))"
        unfolding x_def using r by (simp add: scan_u del: scan_step.simps)
      with 2(3) [OF refl high False] show ?thesis unfolding eq by simp
    qed
  qed
qed simp

lemma getu4_json_u:
  assumes "n < 65536"
  shows "getu4 (drop 2 (json_u n) @ r) = Some n"
proof -
  have d: "n div 4096 = n div 256 div 16" "n div 256 = n div 16 div 16"
    by (simp_all flip: div_mult2_eq)
  have e: "q div 16 * 16 + q mod 16 = q" for q :: nat by simp
  have "((n div 4096 * 16 + n div 256 mod 16) * 16 + n div 16 mod 16) * 16 + n mod 16 = n"
    unfolding d(1) e unfolding d(2) e by (rule refl)
  then show ?thesis
    using hex_digits_lt [of n] assms by (simp add: getu4_def json_u_def)
qed

lemma unquote_u:
  assumes "n < 0xD800 \<or> 0xE000 \<le> n \<and> n < 0x10000"
  shows "unquote (json_u n @ r) = encode_rune n @ unquote r"
  using getu4_json_u [of n r] assms by (auto simp: json_u_def Let_def)

lemma unquote_plain:
  "(of_char c :: nat) < 0x80 \<Longrightarrow> c \<noteq> CHR 0x5C \<Longrightarrow> unquote (c # r) = c # unquote r"
  by simp

lemma control_code:
  assumes "n < 0x80"
  shows "encode_rune n = [char_of n]"
  using assms by (simp add: encode_rune_def)

lemma control_char:
  "of_char c = (8 :: nat) \<longleftrightarrow> c = CHR 0x08" "of_char c = (12 :: nat) \<longleftrightarrow> c = CHR 0x0C"
  "of_char c = (10 :: nat) \<longleftrightarrow> c = CHR 0x0A" "of_char c = (13 :: nat) \<longleftrightarrow> c = CHR 0x0D"
  "of_char c = (9 :: nat) \<longleftrightarrow> c = CHR 0x09"
  using of_char_eq_iff [of c "CHR 0x08", where 'a = nat] of_char_eq_iff [of c "CHR 0x0C", where 'a = nat]
    of_char_eq_iff [of c "CHR 0x0A", where 'a = nat] of_char_eq_iff [of c "CHR 0x0D", where 'a = nat]
    of_char_eq_iff [of c "CHR 0x09", where 'a = nat]
  by simp_all

lemma unquote_ascii:
  assumes "(of_char c :: nat) < 0x80"
  shows "unquote (json_ascii c @ r) = c # unquote r"
proof -
  have u: "unquote (json_u (of_char c) @ r) = c # unquote r"
    using assms by (subst unquote_u) (simp_all add: control_code)
  show ?thesis
    unfolding json_ascii_def Let_def
    using u assms by (auto simp: code_char control_char unescape_def simp del: unquote.simps
        simp add: unquote.simps(2) [of "CHR 0x5C"] unquote_plain)
qed

lemma unquote_sequence:
  assumes "utf8_len c cs \<noteq> 0" and "\<not> (of_char c :: nat) < 0x80"
  shows "unquote (c # take (utf8_len c cs - 1) cs @ r) = c # take (utf8_len c cs - 1) cs @ unquote r"
proof -
  let ?t = "take (utf8_len c cs - 1) cs"
  have k: "utf8_len c (?t @ r) = utf8_len c cs" by (rule utf8_tail(2) [OF assms(1)])
  have "length ?t = utf8_len c cs - 1"
    using utf8_tail(1) [OF assms(1)] by (cases "utf8_len c cs - 1") (auto simp: cont_at_def)
  moreover have "c \<noteq> CHR 0x5C" using assms(2) by auto
  ultimately show ?thesis using assms k by (simp add: Let_def)
qed

lemma unquote_escape: "unquote (json_escape s) = replace_invalid s"
proof (induction s rule: json_escape.induct)
  case (2 c cs)
  show ?case
  proof (cases "(of_char c :: nat) < 0x80")
    case True
    with 2(1) [OF refl] show ?thesis by (simp add: unquote_ascii utf8_len_ascii Let_def)
  next
    case high: False
    show ?thesis
    proof (cases "utf8_len c cs = 0")
      case True
      with 2(2) [OF refl high] high show ?thesis by (simp add: unquote_u replacement_def Let_def)
    next
      case False
      let ?k = "utf8_len c cs" and ?r = "c # take (utf8_len c cs - 1) cs"
      let ?rest = "json_escape (drop (?k - 1) cs)"
      have eq: "json_escape (c # cs) =
        (if ?r = [CHR 0xE2, CHR 0x80, CHR 0xA8] then json_u 0x2028
         else if ?r = [CHR 0xE2, CHR 0x80, CHR 0xA9] then json_u 0x2029 else ?r) @ ?rest"
        using high False unfolding json_escape.simps Let_def by (simp only: if_False)
      have runes: "encode_rune 0x2028 = [CHR 0xE2, CHR 0x80, CHR 0xA8]"
        "encode_rune 0x2029 = [CHR 0xE2, CHR 0x80, CHR 0xA9]" by code_simp+
      have "unquote (json_escape (c # cs)) = ?r @ unquote ?rest"
        unfolding eq using unquote_sequence [OF False high, of ?rest]
        by (auto simp: unquote_u runes simp del: unquote.simps)
      with 2(3) [OF refl high False] False show ?thesis by (simp add: Let_def)
    qed
  qed
qed simp

section \<open>Values inside what is open\<close>

text \<open>The text is read as the value, after whatever is open; \<open>d\<close> is how deep it nests. A number
  only ends at what follows it.\<close>

definition spaces :: "string \<Rightarrow> bool" where
  "spaces ws \<longleftrightarrow> (\<forall>c \<in> set ws. json_space c)"

lemma spaces_simps [simp]:
  "spaces []" "spaces (c # ws) \<longleftrightarrow> json_space c \<and> spaces ws" "spaces (ws @ ws') \<longleftrightarrow> spaces ws \<and> spaces ws'"
  by (auto simp: spaces_def)

definition stops :: "char \<Rightarrow> bool" where
  "stops c \<longleftrightarrow> json_space c \<or> c = CHR '','' \<or> c = CHR '']'' \<or> c = CHR ''}''"

definition value_start :: "char \<Rightarrow> bool" where
  "value_start c \<longleftrightarrow> \<not> json_space c \<and> c \<noteq> CHR '']''"

definition reads :: "nat \<Rightarrow> string \<Rightarrow> json \<Rightarrow> bool" where
  "reads d s v \<longleftrightarrow> s \<noteq> [] \<and> value_start (hd s) \<and>
     (\<forall>fr t. length fr + d \<le> maxNestingDepth \<longrightarrow> t \<noteq> [] \<longrightarrow> stops (hd t) \<longrightarrow>
        foldl scan_step (begin_value fr (hd s)) (tl s @ t) = foldl scan_step (put fr v) t)"

definition reads_whole :: "nat \<Rightarrow> string \<Rightarrow> json \<Rightarrow> bool" where
  "reads_whole d s v \<longleftrightarrow> s \<noteq> [] \<and> value_start (hd s) \<and>
     (\<forall>fr. length fr + d \<le> maxNestingDepth \<longrightarrow>
        foldl scan_step (begin_value fr (hd s)) (tl s) = put fr v)"

lemma reads_whole_reads: "reads_whole d s v \<Longrightarrow> reads d s v"
  by (simp add: reads_def reads_whole_def)

lemma reads_mono: "reads d s v \<Longrightarrow> d \<le> e \<Longrightarrow> reads e s v"
  by (simp add: reads_def)

lemma json_value_reads:
  assumes "reads_whole d s v" and "d \<le> maxNestingDepth"
  shows "json_value s = Some v"
proof -
  obtain c t where s: "s = c # t" and c: "value_start c"
    and fold: "foldl scan_step (begin_value [] c) t = ([], Top v)"
    using assms by (cases s) (auto simp: reads_whole_def)
  from c fold show ?thesis by (simp add: json_value_def s value_start_def)
qed

lemma put_step: "scan_step (put fr v) c = after_value (put fr v) c"
  by (cases "(fr, v)" rule: put.cases) simp_all

lemma scan_spaces:
  assumes "spaces ws"
    and "m \<in> {Begin, BeginOrEmpty, KeyOrEmpty, Key, Colon, After}"
  shows "foldl scan_step (fr, m) ws = (fr, m)"
  using assms by (induction ws) auto

subsection \<open>Leaves\<close>

lemma reads_null [intro]: "reads_whole 0 ''null'' JNull"
  by (simp add: reads_whole_def value_start_def json_space_def begin_value_def is_digit_def)

lemma reads_string [intro]: "reads_whole 0 (json_string s) (JString (replace_invalid s))"
  by (simp add: reads_whole_def json_string_def value_start_def json_space_def begin_value_def
      scan_escape unquote_escape)

lemma replace_invalid_ascii:
  "\<forall>c \<in> set s. (of_char c :: nat) < 0x80 \<Longrightarrow> replace_invalid s = s"
  by (induction s) (simp_all add: utf8_len_ascii)

lemma valid_utf8_ascii: "\<forall>c \<in> set s. (of_char c :: nat) < 0x80 \<Longrightarrow> valid_utf8 s"
  by (simp add: valid_utf8_def replace_invalid_ascii)

lemma unquote_ascii_plain:
  "\<forall>c \<in> set s. plain_char c \<and> (of_char c :: nat) < 0x80 \<Longrightarrow> unquote s = s"
  by (induction s) (simp_all add: plain_char_def)

lemma b64_plain:
  assumes "i < 64"
  shows "plain_char (b64_char i) \<and> (of_char (b64_char i) :: nat) < 0x80"
  using assms unfolding b64_code [OF assms] by (auto simp: plain_char_def of_char_of code_char [symmetric])

lemma base64_plain: "c \<in> set (base64_encode bs) \<Longrightarrow> plain_char c \<and> (of_char c :: nat) < 0x80"
proof (induction bs rule: base64_encode.induct)
  case (2 a)
  have "of_char a * 65536 div 262144 < (64 :: nat)"
    by (rule sextet_lt) (use byte_lt [of a] in simp)
  with 2 b64_plain show ?case by (auto simp: Let_def plain_char_def simp del: div_mult_mult1)
next
  case (3 a b)
  have "(of_char a * 65536 + of_char b * 256) div 262144 < (64 :: nat)"
    by (rule sextet_lt) (use byte_lt [of a] byte_lt [of b] in linarith)
  with 3 b64_plain show ?case by (auto simp: Let_def plain_char_def)
next
  case (4 a b c' rest)
  have "(of_char a * 65536 + of_char b * 256 + of_char c') div 262144 < (64 :: nat)"
    by (rule sextet_lt) (use byte_lt [of a] byte_lt [of b] byte_lt [of c'] in linarith)
  with 4 b64_plain show ?case by (auto simp: Let_def)
qed simp

text \<open>What a byte slice is written as.\<close>

definition bytes_json :: "char slice \<Rightarrow> json" where
  "bytes_json s = (case s of None \<Rightarrow> JNull | Some bs \<Rightarrow> JString (base64_encode bs))"

lemma reads_bytes [intro]: "reads_whole 0 (json_bytes s) (bytes_json s)"
proof (cases s)
  case None
  then show ?thesis using reads_null by (simp add: json_bytes_def bytes_json_def)
next
  case (Some bs)
  have "unquote (base64_encode bs) = base64_encode bs"
    by (rule unquote_ascii_plain) (use base64_plain in blast)
  moreover have "foldl scan_step (fr, Quoted False Plain []) (base64_encode bs)
      = (fr, Quoted False Plain (base64_encode bs))" for fr
    using scan_plain [of "base64_encode bs" fr False "[]"] base64_plain [of _ bs] by simp
  ultimately show ?thesis
    by (simp add: Some json_bytes_def bytes_json_def reads_whole_def value_start_def json_space_def
        begin_value_def)
qed

lemma is_digit_char: "d < 10 \<Longrightarrow> is_digit (digit_char d)"
proof -
  have "\<forall>d \<in> {0..<10}. is_digit (digit_char d)" by code_simp
  then show "d < 10 \<Longrightarrow> is_digit (digit_char d)" by auto
qed

lemma decimal_digits: "\<forall>c \<in> set (format_nat 10 n). is_digit c"
  using format_nat_digits [of 10 _ n] is_digit_char by fastforce

text \<open>A decimal numeral is a zero, or starts with another digit.\<close>

lemma format_nat_hd: "n \<noteq> 0 \<Longrightarrow> hd (format_nat 10 n) \<noteq> CHR ''0''"
proof (induction "10 :: nat" n rule: format_nat.induct)
  case (1 n)
  show ?case
  proof (cases "n < 10")
    case True
    have "\<forall>d \<in> {1..<10}. digit_char d \<noteq> CHR ''0''" by code_simp
    with True 1(2) show ?thesis by (simp add: format_nat.simps [of 10 n])
  next
    case False
    with 1 show ?thesis by (subst format_nat.simps) simp
  qed
qed

lemma scan_whole:
  "\<forall>c \<in> set ds. is_digit c \<Longrightarrow>
   foldl scan_step (fr, Digits Whole raw) ds = (fr, Digits Whole (raw @ ds))"
  by (induction ds arbitrary: raw) simp_all

lemma stops_not_number:
  assumes "stops c"
  shows "more_digits Whole c = None" and "more_digits Zero c = None"
  using assms by (auto simp: stops_def json_space_def is_digit_def)

lemma scan_number:
  assumes "ds = ''0'' \<or> ds \<noteq> [] \<and> hd ds \<noteq> CHR ''0'' \<and> (\<forall>c \<in> set ds. is_digit c)" and "stops c"
  shows "foldl scan_step (begin_value fr (hd ds)) (tl ds @ [c]) = scan_step (put fr (JNumber ds)) c"
    and "foldl scan_step (fr, Digits Minus ''-'') (ds @ [c]) = scan_step (put fr (JNumber (''-'' @ ds))) c"
proof -
  note ends = stops_not_number [OF assms(2)] put_step number_ends_def
  consider "ds = ''0''" | e es where "ds = e # es" "e \<noteq> CHR ''0''" "is_digit e" "\<forall>c \<in> set es. is_digit c"
    using assms(1) by (cases ds) auto
  then have "foldl scan_step (begin_value fr (hd ds)) (tl ds @ [c]) = scan_step (put fr (JNumber ds)) c \<and>
    foldl scan_step (fr, Digits Minus ''-'') (ds @ [c]) = scan_step (put fr (JNumber (''-'' @ ds))) c"
  proof cases
    case 1
    then show ?thesis by (simp add: begin_value_def ends del: more_digits.simps(2))
  next
    case 2
    have "begin_value fr e = (fr, Digits Whole [e])"
      using 2 by (auto simp: begin_value_def is_digit_def)
    with 2 show ?thesis by (simp add: scan_whole ends del: more_digits.simps(3))
  qed
  then show "foldl scan_step (begin_value fr (hd ds)) (tl ds @ [c]) = scan_step (put fr (JNumber ds)) c"
    and "foldl scan_step (fr, Digits Minus ''-'') (ds @ [c]) = scan_step (put fr (JNumber (''-'' @ ds))) c"
    by blast+
qed

lemma decimal_number:
  "format_nat 10 n = ''0'' \<or>
   format_nat 10 n \<noteq> [] \<and> hd (format_nat 10 n) \<noteq> CHR ''0'' \<and> (\<forall>c \<in> set (format_nat 10 n). is_digit c)"
proof (cases "n = 0")
  case True
  then show ?thesis by (simp add: format_nat.simps digit_char_def)
qed (simp add: format_nat_hd decimal_digits)

lemma readsI:
  assumes "s \<noteq> []" and "value_start (hd s)"
    and "\<And>fr c. stops c \<Longrightarrow> foldl scan_step (begin_value fr (hd s)) (tl s @ [c]) = scan_step (put fr v) c"
  shows "reads 0 s v"
proof -
  have "foldl scan_step (begin_value fr (hd s)) (tl s @ t) = foldl scan_step (put fr v) t"
    if t: "t \<noteq> []" "stops (hd t)" for fr t
  proof -
    have "foldl scan_step (begin_value fr (hd s)) ((tl s @ [hd t]) @ tl t)
        = foldl scan_step (scan_step (put fr v) (hd t)) (tl t)"
      using assms(3) [OF t(2)] by (simp only: foldl_append)
    with t show ?thesis by (cases t) simp_all
  qed
  with assms show ?thesis by (simp add: reads_def)
qed

lemma reads_uint [intro]: "reads 0 (json_uint x) (JNumber (format_nat 10 (unat x)))"
proof (rule readsI)
  have "is_digit (hd (format_nat 10 (unat x)))"
    using decimal_digits [of "unat x"] by (simp add: hd_in_set)
  then show "value_start (hd (json_uint x))"
    by (auto simp: json_uint_def value_start_def json_space_def is_digit_def)
qed (use scan_number(1) [OF decimal_number] in \<open>simp_all add: json_uint_def\<close>)

lemma reads_int [intro]: "reads 0 (int_text i) (JNumber (int_text i))"
proof (cases "i < 0")
  case True
  then show ?thesis
    using scan_number(2) [OF decimal_number]
    by (intro readsI) (simp_all add: int_text_def value_start_def json_space_def begin_value_def)
next
  case False
  let ?n = "nat i"
  have "is_digit (hd (format_nat 10 ?n))"
    using decimal_digits [of ?n] by (simp add: hd_in_set)
  then have "value_start (hd (format_nat 10 ?n))"
    by (auto simp: value_start_def json_space_def is_digit_def)
  with False show ?thesis
    using scan_number(1) [OF decimal_number] by (intro readsI) (simp_all add: int_text_def)
qed

lemma FormatInt_int_text: "FormatInt x 10 = int_text (sint x)"
  by (simp add: FormatInt_def int_text_def)

lemma reads_int64 [intro]: "reads 0 (json_int64 x) (JNumber (FormatInt x 10))"
  unfolding json_int64_def FormatInt_int_text by (rule reads_int)

subsection \<open>Arrays and objects\<close>

lemma reads_at:
  assumes "reads d s v" and "length fr + d \<le> maxNestingDepth" and "t \<noteq> []" and "stops (hd t)"
  shows "foldl scan_step (fr, Begin) (s @ t) = foldl scan_step (put fr v) t"
    and "foldl scan_step (fr, BeginOrEmpty) (s @ t) = foldl scan_step (put fr v) t"
  using assms by (cases s; auto simp: reads_def value_start_def)+

lemma stops_simps [simp]: "stops CHR '',''" "stops CHR '']''" "stops CHR ''}''" "json_space c \<Longrightarrow> stops c"
  by (simp_all add: stops_def)

lemma stops_spaces:
  "spaces ws \<Longrightarrow> t \<noteq> [] \<Longrightarrow> stops (hd t) \<Longrightarrow> ws @ t \<noteq> [] \<and> stops (hd (ws @ t))"
  by (cases ws) auto

definition items :: "string \<Rightarrow> (string \<times> 'a) list \<Rightarrow> string" where
  "items ws es = concat (map (\<lambda>e. CHR '','' # ws @ fst e) es)"

lemma items_simps [simp]:
  "items ws [] = []"
  "items ws (e # es) = CHR '','' # ws @ fst e @ items ws es"
  by (simp_all add: items_def)

lemma items_stop: "t \<noteq> [] \<Longrightarrow> stops (hd t) \<Longrightarrow> items ws es @ t \<noteq> [] \<and> stops (hd (items ws es @ t))"
  by (cases es) auto

lemma scan_array_items:
  assumes "\<forall>(s, v) \<in> set es. reads d s v" and "spaces ws"
    and "Suc (length fr) + d \<le> maxNestingDepth" and "t \<noteq> []" and "stops (hd t)"
  shows "foldl scan_step (InArray acc # fr, After) (items ws es @ t)
    = foldl scan_step (InArray (acc @ map snd es) # fr, After) t"
  using assms(1)
proof (induction es arbitrary: acc)
  case (Cons e es)
  obtain s v where e: "e = (s, v)" by fastforce
  have "foldl scan_step (InArray acc # fr, After) (items ws (e # es) @ t)
      = foldl scan_step (InArray acc # fr, Begin) (ws @ s @ items ws es @ t)"
    by (simp add: e json_space_def)
  also have "\<dots> = foldl scan_step (InArray acc # fr, Begin) (s @ items ws es @ t)"
    using assms(2) by (simp only: foldl_append) (simp add: scan_spaces)
  also have "\<dots> = foldl scan_step (put (InArray acc # fr) v) (items ws es @ t)"
    using Cons.prems assms(3) items_stop [OF assms(4,5)] by (intro reads_at(1)) (auto simp: e)
  also have "\<dots> = foldl scan_step (InArray (acc @ map snd (e # es)) # fr, After) t"
    using Cons by (simp add: e)
  finally show ?case .
qed simp

lemma reads_array:
  assumes "\<forall>(s, v) \<in> set es. reads d s v" and "es \<noteq> []"
    and "spaces (ws0 @ ws @ ws1)"
  shows "reads_whole (Suc d) (CHR ''['' # ws0 @ fst (hd es) @ items ws (tl es) @ ws1 @ '']'')
    (JArray (map snd es))"
proof -
  obtain s v es' where es: "es = (s, v) # es'" using assms(2) by (cases es) auto
  have close: "ws1 @ '']'' \<noteq> [] \<and> stops (hd (ws1 @ '']''))" using assms(3) stops_spaces by simp
  have "foldl scan_step (begin_value fr CHR ''['') (ws0 @ s @ items ws es' @ ws1 @ '']'')
      = put fr (JArray (map snd es))"
    if fr: "length fr + Suc d \<le> maxNestingDepth" for fr
  proof -
    have "foldl scan_step (begin_value fr CHR ''['') (ws0 @ s @ items ws es' @ ws1 @ '']'')
        = foldl scan_step (InArray [] # fr, BeginOrEmpty) (s @ items ws es' @ ws1 @ '']'')"
      using fr assms(3) by (simp add: begin_value_def open_frame_def scan_spaces)
    also have "\<dots> = foldl scan_step (InArray [v] # fr, After) (items ws es' @ ws1 @ '']'')"
      using assms(1) fr items_stop [of "ws1 @ '']''" ws es'] close
      by (subst reads_at(2) [where d = d and v = v]) (auto simp: es)
    also have "\<dots> = foldl scan_step (InArray (map snd es) # fr, After) (ws1 @ '']'')"
      using assms(1,3) fr close by (subst scan_array_items [where d = d]) (auto simp: es)
    also have "\<dots> = put fr (JArray (map snd es))"
      using assms(3) by (simp add: scan_spaces json_space_def)
    finally show ?thesis .
  qed
  then show ?thesis by (simp add: reads_whole_def es value_start_def json_space_def)
qed

lemma reads_empty [intro]: "reads_whole (Suc d) ''[]'' (JArray [])" "reads_whole (Suc d) ''{}'' (JObject [])"
  by (simp_all add: reads_whole_def value_start_def json_space_def begin_value_def open_frame_def)

text \<open>A member of an object: its key, a colon and its value.\<close>

definition member :: "nat \<Rightarrow> string \<Rightarrow> string \<times> json \<Rightarrow> bool" where
  "member d s kv \<longleftrightarrow> s \<noteq> [] \<and> hd s = CHR 0x22 \<and>
     (\<forall>acc k0 fr t. Suc (length fr) + d \<le> maxNestingDepth \<longrightarrow> t \<noteq> [] \<longrightarrow> stops (hd t) \<longrightarrow>
        foldl scan_step (InObject acc k0 # fr, Quoted True Plain []) (tl s @ t)
          = foldl scan_step (InObject (acc @ [kv]) (fst kv) # fr, After) t)"

lemma memberI:
  assumes "reads d s v" and "spaces ws"
    and "\<And>fr. foldl scan_step (fr, Quoted True Plain []) raw = (fr, Quoted True Plain raw)"
    and "unquote raw = k"
  shows "member d (CHR 0x22 # raw @ CHR 0x22 # CHR '':'' # ws @ s) (k, v)"
proof -
  have "foldl scan_step (InObject acc k0 # fr, Quoted True Plain []) (raw @ CHR 0x22 # CHR '':'' # ws @ s @ t)
      = foldl scan_step (InObject (acc @ [(k, v)]) k # fr, After) t"
    if "Suc (length fr) + d \<le> maxNestingDepth" "t \<noteq> []" "stops (hd t)" for acc k0 fr t
  proof -
    have "foldl scan_step (InObject acc k0 # fr, Quoted True Plain []) (raw @ CHR 0x22 # CHR '':'' # ws @ s @ t)
        = foldl scan_step (InObject acc k # fr, Begin) (ws @ s @ t)"
      using assms(3,4) by (simp add: json_space_def)
    also have "\<dots> = foldl scan_step (InObject acc k # fr, Begin) (s @ t)"
      using assms(2) by (simp only: foldl_append) (simp add: scan_spaces)
    also have "\<dots> = foldl scan_step (InObject (acc @ [(k, v)]) k # fr, After) t"
      using reads_at(1) [OF assms(1), of "InObject acc k # fr" t] that by simp
    finally show ?thesis .
  qed
  then show ?thesis by (simp add: member_def)
qed

lemma member_at:
  assumes "member d s kv" and "Suc (length fr) + d \<le> maxNestingDepth" and "t \<noteq> []" and "stops (hd t)"
  shows "foldl scan_step (InObject acc k0 # fr, Quoted True Plain []) (tl s @ t)
    = foldl scan_step (InObject (acc @ [kv]) (fst kv) # fr, After) t"
  using assms by (simp add: member_def del: foldl_append)

lemma scan_members:
  assumes "\<forall>(s, kv) \<in> set es. member d s kv" and "spaces ws"
    and "Suc (length fr) + d \<le> maxNestingDepth" and "t \<noteq> []" and "stops (hd t)"
  shows "\<exists>k1. foldl scan_step (InObject acc k0 # fr, After) (items ws es @ t)
    = foldl scan_step (InObject (acc @ map snd es) k1 # fr, After) t"
  using assms(1)
proof (induction es arbitrary: acc k0)
  case (Cons e es)
  obtain s kv where e: "e = (s, kv)" by (cases e) blast
  have s: "s = CHR 0x22 # tl s" using Cons.prems by (cases s) (auto simp: member_def e)
  have step: "foldl scan_step (InObject acc k0 # fr, Quoted True Plain [])
      (tl s @ items ws es @ t) = foldl scan_step (InObject (acc @ [kv]) (fst kv) # fr, After) (items ws es @ t)"
    using Cons.prems assms(3) items_stop [OF assms(4,5), of ws es]
    by (intro member_at [of d s kv]) (auto simp: e)
  have "foldl scan_step (InObject acc k0 # fr, After) (items ws (e # es) @ t)
      = foldl scan_step (InObject acc k0 # fr, Key) (ws @ s @ items ws es @ t)"
    by (simp add: e json_space_def)
  also have "\<dots> = foldl scan_step (InObject acc k0 # fr, Key) (s @ items ws es @ t)"
    using assms(2) by (simp only: foldl_append) (simp add: scan_spaces)
  also have "\<dots> = foldl scan_step (InObject acc k0 # fr, Quoted True Plain []) (tl s @ items ws es @ t)"
    by (subst s) (simp add: json_space_def)
  also note step
  also have "\<exists>k1. foldl scan_step (InObject (acc @ [kv]) (fst kv) # fr, After) (items ws es @ t)
      = foldl scan_step (InObject ((acc @ [kv]) @ map snd es) k1 # fr, After) t"
    by (rule Cons.IH) (use Cons.prems in \<open>simp add: e\<close>)
  finally show ?case by (simp add: e)
qed auto

lemma reads_object:
  assumes "\<forall>(s, kv) \<in> set es. member d s kv" and "es \<noteq> []"
    and "spaces (ws0 @ ws @ ws1)"
  shows "reads_whole (Suc d) (CHR ''{'' # ws0 @ fst (hd es) @ items ws (tl es) @ ws1 @ ''}'')
    (JObject (map snd es))"
proof -
  obtain s kv es' where es: "es = (s, kv) # es'" using assms(2) by (cases es) auto
  have close: "ws1 @ ''}'' \<noteq> [] \<and> stops (hd (ws1 @ ''}''))" using assms(3) stops_spaces by simp
  have s: "s = CHR 0x22 # tl s" using assms(1) by (cases s) (auto simp: es member_def)
  have "foldl scan_step (begin_value fr CHR ''{'') (ws0 @ s @ items ws es' @ ws1 @ ''}'')
      = put fr (JObject (map snd es))"
    if fr: "length fr + Suc d \<le> maxNestingDepth" for fr
  proof -
    have "foldl scan_step (begin_value fr CHR ''{'') (ws0 @ s @ items ws es' @ ws1 @ ''}'')
        = foldl scan_step (InObject [] [] # fr, KeyOrEmpty) (s @ items ws es' @ ws1 @ ''}'')"
      using fr assms(3) by (simp add: begin_value_def open_frame_def scan_spaces)
    also have "\<dots> = foldl scan_step (InObject [] [] # fr, Quoted True Plain []) (tl s @ items ws es' @ ws1 @ ''}'')"
      by (subst s) (simp add: json_space_def)
    also have "\<dots> = foldl scan_step (InObject [kv] (fst kv) # fr, After) (items ws es' @ ws1 @ ''}'')"
      using assms(1) fr items_stop [of "ws1 @ ''}''" ws es'] close
      by (subst member_at [of d s kv]) (auto simp: es)
    also have "\<exists>k1. \<dots> = foldl scan_step (InObject (map snd es) k1 # fr, After) (ws1 @ ''}'')"
      using scan_members [of es' d ws fr "ws1 @ ''}''" "[kv]"] assms(1,3) fr close by (auto simp: es)
    finally obtain k1 where "foldl scan_step (begin_value fr CHR ''{'') (ws0 @ s @ items ws es' @ ws1 @ ''}'')
        = foldl scan_step (InObject (map snd es) k1 # fr, After) (ws1 @ ''}'')" ..
    then show ?thesis using assms(3) by (simp add: scan_spaces json_space_def)
  qed
  then show ?thesis by (simp add: reads_whole_def es value_start_def json_space_def)
qed

section \<open>Whole texts\<close>

lemma join_lines:
  "es \<noteq> [] \<Longrightarrow> join_with ('','' @ nl) (map (\<lambda>s. pre @ s) (map fst es))
     = pre @ fst (hd es) @ items (nl @ pre) (tl es)"
proof (induction es)
  case (Cons e es)
  then show ?case by (cases es) auto
qed simp

lemma json_join_items: "es \<noteq> [] \<Longrightarrow> json_join (map fst es) = fst (hd es) @ items [] (tl es)"
proof (induction es)
  case (Cons e es)
  then show ?case by (cases es) auto
qed simp

lemma list_all2_zip_fst:
  "list_all2 P xs ys \<Longrightarrow> map fst (zip xs ys) = xs \<and> map snd (zip xs ys) = ys \<and> (\<forall>(x, y) \<in> set (zip xs ys). P x y)"
  by (auto simp: list_all2_iff)

text \<open>\<open>Marshal\<close>.\<close>

lemma reads_json_array:
  assumes "list_all2 (reads d) ss vs"
  shows "reads_whole (Suc d) (json_array ss) (JArray vs)"
proof (cases "ss = []")
  case True
  with assms show ?thesis using reads_empty(1) by (simp add: json_array_def)
next
  case False
  define es where "es = zip ss vs"
  have es: "map fst es = ss" "map snd es = vs" "\<forall>(s, v) \<in> set es. reads d s v"
    using list_all2_zip_fst [OF assms] by (simp_all add: es_def)
  have "es \<noteq> []" using False es(1) by auto
  with reads_array [OF es(3), of "[]" "[]" "[]"] json_join_items [of es] show ?thesis
    by (simp add: json_array_def es)
qed

definition plain_key :: "string \<Rightarrow> bool" where
  "plain_key k \<longleftrightarrow> (\<forall>c \<in> set k. plain_char c \<and> (of_char c :: nat) < 0x80)"

lemma member_plain_key:
  "reads d s v \<Longrightarrow> plain_key k \<Longrightarrow> member d (CHR 0x22 # k @ CHR 0x22 # CHR '':'' # s) (k, v)"
  using memberI [of d s v "[]" k k] scan_plain [of k _ True "[]"]
  by (simp add: plain_key_def unquote_ascii_plain)

lemma reads_json_object:
  assumes "list_all2 (\<lambda>(k, s) (j, v). j = k \<and> plain_key k \<and> reads d s v) fs ms"
  shows "reads_whole (Suc d) (json_object fs) (JObject ms)"
proof (cases "fs = []")
  case True
  with assms show ?thesis using reads_empty(2) by (simp add: json_object_def)
next
  case False
  let ?text = "\<lambda>(k, s). CHR 0x22 # k @ CHR 0x22 # CHR '':'' # s"
  define es where "es = zip (map ?text fs) ms"
  have "list_all2 (member d) (map ?text fs) ms"
    using assms unfolding list.rel_map by (rule list_all2_mono) (auto intro: member_plain_key)
  then have es: "map fst es = map ?text fs" "map snd es = ms" "\<forall>(s, kv) \<in> set es. member d s kv"
    using list_all2_zip_fst [of "member d"] by (simp_all add: es_def)
  have "es \<noteq> []" using False es(1) by auto
  with reads_object [OF es(3), of "[]" "[]" "[]"] json_join_items [of es] show ?thesis
    by (simp add: json_object_def es)
qed

text \<open>\<open>MarshalIndent\<close>.\<close>

definition tree_reads :: "nat \<Rightarrow> jtree \<Rightarrow> json \<Rightarrow> bool" where
  "tree_reads d t v \<longleftrightarrow>
     (\<forall>ind cur. spaces ind \<longrightarrow> spaces cur \<longrightarrow> reads d (indent_json ind cur t) v)"

definition tree_whole :: "nat \<Rightarrow> jtree \<Rightarrow> json \<Rightarrow> bool" where
  "tree_whole d t v \<longleftrightarrow>
     (\<forall>ind cur. spaces ind \<longrightarrow> spaces cur \<longrightarrow> reads_whole d (indent_json ind cur t) v)"

lemma tree_whole_reads: "tree_whole d t v \<Longrightarrow> tree_reads d t v"
  by (simp add: tree_reads_def tree_whole_def reads_whole_reads)

lemma tree_leaf: "reads d s v \<Longrightarrow> tree_reads d (JLeaf s) v"
  by (simp add: tree_reads_def)

lemma tree_array:
  assumes "list_all2 (tree_reads d) ts vs"
  shows "tree_whole (Suc d) (JArr ts) (JArray vs)"
  unfolding tree_whole_def
proof (intro allI impI)
  fix ind cur :: string
  assume sp: "spaces ind" "spaces cur"
  show "reads_whole (Suc d) (indent_json ind cur (JArr ts)) (JArray vs)"
  proof (cases "ts = []")
    case True
    with assms show ?thesis using reads_empty(1) by simp
  next
    case False
    let ?nl = "CHR 0x0A # cur @ ind"
    define es where "es = zip (map (indent_json ind (cur @ ind)) ts) vs"
    have "list_all2 (reads d) (map (indent_json ind (cur @ ind)) ts) vs"
      using assms unfolding list.rel_map by (rule list_all2_mono) (use sp in \<open>auto simp: tree_reads_def\<close>)
    then have es: "map fst es = map (indent_json ind (cur @ ind)) ts" "map snd es = vs"
      "\<forall>(s, v) \<in> set es. reads d s v"
      using list_all2_zip_fst [of "reads d"] by (simp_all add: es_def)
    have ne: "es \<noteq> []" using False es(1) by auto
    note lines = join_lines [OF ne, of "[CHR 0x0A]" "cur @ ind"]
    have "reads_whole (Suc d) (CHR ''['' # ?nl @ fst (hd es) @ items ?nl (tl es) @ (CHR 0x0A # cur) @ '']'')
        (JArray (map snd es))"
      using sp by (intro reads_array [OF es(3) ne]) (auto simp: json_space_def)
    moreover have "map (\<lambda>t. cur @ ind @ indent_json ind (cur @ ind) t) ts = map (\<lambda>s. cur @ ind @ s) (map fst es)"
      unfolding es(1) by simp
    ultimately show ?thesis using False lines by (simp add: es(2))
  qed
qed

lemma tree_object:
  assumes "list_all2 (\<lambda>(k, t) (j, v). j = replace_invalid k \<and> tree_reads d t v) fs ms"
  shows "tree_whole (Suc d) (JObj fs) (JObject ms)"
  unfolding tree_whole_def
proof (intro allI impI)
  fix ind cur :: string
  assume sp: "spaces ind" "spaces cur"
  show "reads_whole (Suc d) (indent_json ind cur (JObj fs)) (JObject ms)"
  proof (cases "fs = []")
    case True
    with assms show ?thesis using reads_empty(2) by simp
  next
    case False
    let ?nl = "CHR 0x0A # cur @ ind"
    let ?text = "\<lambda>(k, t). json_string k @ '': '' @ indent_json ind (cur @ ind) t"
    define es where "es = zip (map ?text fs) ms"
    have mem: "member d (?text (k, t)) (replace_invalid k, v)" if "tree_reads d t v" for k t v
      using memberI [of d "indent_json ind (cur @ ind) t" v "'' ''" "json_escape k"] that sp
      by (auto simp: tree_reads_def json_string_def scan_escape unquote_escape json_space_def)
    have "list_all2 (member d) (map ?text fs) ms"
      using assms unfolding list.rel_map by (rule list_all2_mono) (use mem in auto)
    then have es: "map fst es = map ?text fs" "map snd es = ms" "\<forall>(s, kv) \<in> set es. member d s kv"
      using list_all2_zip_fst [of "member d"] by (simp_all add: es_def)
    have ne: "es \<noteq> []" using False es(1) by auto
    note lines = join_lines [OF ne, of "[CHR 0x0A]" "cur @ ind"]
    have "reads_whole (Suc d) (CHR ''{'' # ?nl @ fst (hd es) @ items ?nl (tl es) @ (CHR 0x0A # cur) @ ''}'')
        (JObject (map snd es))"
      using sp by (intro reads_object [OF es(3) ne]) (auto simp: json_space_def)
    moreover have "map (\<lambda>(k, t). cur @ ind @ json_string k @ '': '' @ indent_json ind (cur @ ind) t) fs
        = map (\<lambda>s. cur @ ind @ s) (map fst es)"
      unfolding es(1) by (simp add: case_prod_unfold)
    ultimately show ?thesis using False lines by (simp add: es(2))
  qed
qed

lemma tree_object_plain:
  assumes "list_all2 (\<lambda>(k, t) (j, v). j = k \<and> plain_key k \<and> tree_reads d t v) fs ms"
  shows "tree_whole (Suc d) (JObj fs) (JObject ms)"
  using assms by (intro tree_object) (auto elim!: list_all2_mono simp: plain_key_def replace_invalid_ascii)

lemma json_value_indent:
  assumes "tree_whole d t v" and "d \<le> maxNestingDepth" and "spaces ind"
  shows "json_value (MarshalIndent ind t) = Some v"
  using assms json_value_reads [of d "indent_json ind [] t" v] by (simp add: tree_whole_def MarshalIndent_def)

section \<open>Decoding what was written\<close>

lemma into_uint_json [simp]: "into_uint (JNumber (format_nat 10 (unat (x :: 'a::len word)))) y = (x, True)"
  using unsigned_less [where w = x and 'a = nat] by (simp add: into_uint_def parse_format)

lemma number_int_text: "number_int (int_text i) = Some i"
proof (cases "i < 0")
  case True
  then show ?thesis by (simp add: number_int_def int_text_def HasPrefix_def parse_format)
next
  case False
  have "CHR ''-'' \<notin> set (format_nat 10 n)" for n by (rule format_nat_no_minus) simp_all
  then have "\<not> HasPrefix (format_nat 10 n) ''-''" for n
    by (metis HasPrefix_iff append_Cons list.set_intros(1))
  with False show ?thesis by (simp add: number_int_def int_text_def parse_format)
qed

lemma into_int_text: "- (2 ^ 63) \<le> i \<Longrightarrow> i < 2 ^ 63 \<Longrightarrow> into_int (JNumber (int_text i)) y = (i, True)"
  by (simp add: into_int_def number_int_text)

lemma into_int64_json [simp]: "into_int64 (JNumber (FormatInt x 10)) y = (x, True)"
  using sint_greater_eq [of x] sint_less [of x] by (simp add: into_int64_def FormatInt_int_text number_int_text)

lemma into_string_json [simp]: "into_string (JString s) y = (s, True)"
  by (simp add: into_string_def)

lemma into_bytes_json [simp]: "into_bytes (bytes_json bs) y = (bs, True)"
  by (cases bs) (simp_all add: into_bytes_def bytes_json_def into_slice_def)

lemma into_field_ok: "dec v (get r) = (x, True) \<Longrightarrow> into_field get upd dec v r = (upd (\<lambda>_. x) r, True)"
  by (simp add: into_field_def)

lemma into_elements_ok:
  "list_all2 (\<lambda>v x. \<forall>y. dec v y = (x, True)) vs ys \<Longrightarrow> into_elements dec z vs xs = (ys, True)"
  by (induction vs ys arbitrary: xs rule: list_all2_induct) simp_all

lemma into_slice_ok:
  "list_all2 (\<lambda>v x. \<forall>y. dec v y = (x, True)) vs ys \<Longrightarrow> into_slice dec z (JArray vs) xs = (Some ys, True)"
  by (simp add: into_slice_def into_elements_ok)

lemma plain_key_ascii:
  "list_all (\<lambda>c. c \<noteq> CHR 0x22 \<and> c \<noteq> CHR 0x5C \<and> 32 \<le> (of_char c :: nat) \<and> (of_char c :: nat) < 0x80) k
     \<Longrightarrow> plain_key k"
  by (auto simp: plain_key_def plain_char_def list_all_iff)

lemma find_field_exact: "map_of fs key = Some f \<Longrightarrow> find_field fs key = Some f"
  by (simp add: find_field_def)

lemma Unmarshal_reads:
  "reads_whole d data v \<Longrightarrow> d \<le> maxNestingDepth \<Longrightarrow> Unmarshal dec data x = dec v x"
  by (simp add: Unmarshal_def json_value_reads)

lemma Unmarshal_indent:
  "tree_whole d t v \<Longrightarrow> d \<le> maxNestingDepth \<Longrightarrow> spaces ind \<Longrightarrow>
   Unmarshal dec (MarshalIndent ind t) x = dec v x"
  by (simp add: Unmarshal_def json_value_indent)

end
