(* ===== verification/Decoders.thy ===== *)
theory Decoders
  imports Blocks Go_Roundtrip
begin

text \<open>
  What \<open>json.Unmarshal\<close> makes of transfers and blocks (the tags of \<open>core/tx.go\<close> and
  \<open>core/block.go\<close>), and what it makes of their own encodings. A list of pointers may hold nil
  ones, which no loop of the program over transfers survives.
\<close>

section \<open>Decoders\<close>

definition Transfer_fields :: "Transfer fields" where
  "Transfer_fields =
     [(''sender_pub_key'', into_field tx_SenderPubKey tx_SenderPubKey_update into_bytes),
      (''recipient'', into_field tx_Recipient tx_Recipient_update into_string),
      (''value'', into_field tx_Value tx_Value_update into_uint),
      (''fee'', into_field tx_Fee tx_Fee_update into_uint),
      (''nonce'', into_field tx_Nonce tx_Nonce_update into_uint),
      (''signature'', into_field tx_Signature tx_Signature_update into_bytes)]"

definition zero_Transfer :: Transfer where
  "zero_Transfer = \<lparr>tx_SenderPubKey = None, tx_Recipient = [], tx_Value = 0, tx_Fee = 0, tx_Nonce = 0,
     tx_Signature = None\<rparr>"

definition into_transfer :: "Transfer decoder" where
  "into_transfer = into_struct Transfer_fields"

text \<open>\<open>[]*Transfer\<close>.\<close>

definition into_transfers :: "Transfer option slice decoder" where
  "into_transfers = into_slice (into_pointer into_transfer zero_Transfer) None"

text \<open>A block as it is read, with its transfers apart.\<close>

type_synonym raw_block = "LedgerBlock \<times> Transfer option slice"

definition into_head ::
  "(LedgerBlock \<Rightarrow> 'a) \<Rightarrow> (('a \<Rightarrow> 'a) \<Rightarrow> LedgerBlock \<Rightarrow> LedgerBlock) \<Rightarrow> 'a decoder \<Rightarrow> raw_block decoder" where
  "into_head get upd = into_field (get \<circ> fst) (apfst \<circ> upd)"

definition LedgerBlock_fields :: "raw_block fields" where
  "LedgerBlock_fields =
     [(''index'', into_head blk_Index blk_Index_update into_uint),
      (''timestamp'', into_head blk_Timestamp blk_Timestamp_update into_int64),
      (''prev_hash'', into_head blk_PrevHash blk_PrevHash_update into_bytes),
      (''hash'', into_head blk_Hash blk_Hash_update into_bytes),
      (''transfers'', into_field snd apsnd into_transfers),
      (''miner'', into_head blk_Miner blk_Miner_update into_string),
      (''nonce'', into_head blk_Nonce blk_Nonce_update into_uint),
      (''difficulty'', into_head blk_Difficulty blk_Difficulty_update into_uint),
      (''bits'', into_head blk_Bits blk_Bits_update into_uint),
      (''reward'', into_head blk_Reward blk_Reward_update into_uint),
      (''max_supply'', into_head blk_MaxSupply blk_MaxSupply_update into_uint),
      (''halving_interval'', into_head blk_HalvingInterval blk_HalvingInterval_update into_uint),
      (''message'', into_head blk_Message blk_Message_update into_string)]"

definition zero_block :: LedgerBlock where
  "zero_block = \<lparr>blk_Index = 0, blk_Timestamp = 0, blk_PrevHash = None, blk_Hash = None,
     blk_Transfers = None, blk_Miner = [], blk_Nonce = 0, blk_Difficulty = 0, blk_Bits = 0,
     blk_Reward = 0, blk_MaxSupply = 0, blk_HalvingInterval = 0, blk_Message = []\<rparr>"

definition into_block :: "raw_block decoder" where
  "into_block = into_struct LedgerBlock_fields"

definition UnmarshalTransfer :: "bytes \<Rightarrow> Transfer option" where
  "UnmarshalTransfer data = decoded (Unmarshal into_transfer data zero_Transfer)"

definition UnmarshalBlock :: "bytes \<Rightarrow> raw_block option" where
  "UnmarshalBlock data = decoded (Unmarshal into_block data (zero_block, None))"

section \<open>Blocks with their transfers\<close>

definition block_of :: "raw_block \<Rightarrow> LedgerBlock outcome" where
  "block_of raw = obind (pointers (snd raw)) (\<lambda>ts. Ret ((fst raw)\<lparr>blk_Transfers := ts\<rparr>))"

definition raw_of :: "LedgerBlock \<Rightarrow> raw_block" where
  "raw_of b = (b\<lparr>blk_Transfers := None\<rparr>, map_option (map Some) (blk_Transfers b))"

lemma block_of_raw_of [simp]: "block_of (raw_of b) = Ret b"
  by (simp add: block_of_def raw_of_def)

section \<open>Reading back transfers\<close>

text \<open>A transfer as its text stands for it, and as it comes back.\<close>

definition transfer_value :: "Transfer \<Rightarrow> json" where
  "transfer_value tx = JObject
     [(''sender_pub_key'', bytes_json (tx_SenderPubKey tx)),
      (''recipient'', JString (replace_invalid (tx_Recipient tx))),
      (''value'', JNumber (format_nat 10 (unat (tx_Value tx)))),
      (''fee'', JNumber (format_nat 10 (unat (tx_Fee tx)))),
      (''nonce'', JNumber (format_nat 10 (unat (tx_Nonce tx)))),
      (''signature'', bytes_json (tx_Signature tx))]"

definition stored_transfer :: "Transfer \<Rightarrow> Transfer" where
  "stored_transfer tx = tx\<lparr>tx_Recipient := replace_invalid (tx_Recipient tx)\<rparr>"

lemma transfer_keys:
  "plain_key ''sender_pub_key''" "plain_key ''recipient''" "plain_key ''value''" "plain_key ''fee''"
  "plain_key ''nonce''" "plain_key ''signature''"
  by (rule plain_key_ascii, simp)+

lemma reads_transfer: "reads_whole 1 (MarshalTransfer tx) (transfer_value tx)"
  unfolding MarshalTransfer_def transfer_value_def One_nat_def
  by (rule reads_json_object) (auto simp: transfer_keys intro: reads_whole_reads)

lemma into_transfer_value: "into_transfer (transfer_value tx) r = (stored_transfer tx, True)"
  by (simp add: into_transfer_def into_struct_def transfer_value_def Transfer_fields_def
      find_field_exact into_field_def stored_transfer_def)

lemma UnmarshalTransfer_Marshal: "UnmarshalTransfer (MarshalTransfer tx) = Some (stored_transfer tx)"
  by (simp add: UnmarshalTransfer_def Unmarshal_reads [OF reads_transfer] maxNestingDepth_def
      into_transfer_value decoded_def)

section \<open>Reading back blocks\<close>

definition block_value :: "LedgerBlock \<Rightarrow> json" where
  "block_value b = JObject
     ([(''index'', JNumber (format_nat 10 (unat (blk_Index b)))),
       (''timestamp'', JNumber (FormatInt (blk_Timestamp b) 10)),
       (''prev_hash'', bytes_json (blk_PrevHash b)),
       (''hash'', bytes_json (blk_Hash b)),
       (''transfers'', (case blk_Transfers b of None \<Rightarrow> JNull | Some ts \<Rightarrow> JArray (map transfer_value ts))),
       (''miner'', JString (replace_invalid (blk_Miner b))),
       (''nonce'', JNumber (format_nat 10 (unat (blk_Nonce b)))),
       (''difficulty'', JNumber (format_nat 10 (unat (blk_Difficulty b)))),
       (''bits'', JNumber (format_nat 10 (unat (blk_Bits b)))),
       (''reward'', JNumber (format_nat 10 (unat (blk_Reward b)))),
       (''max_supply'', JNumber (format_nat 10 (unat (blk_MaxSupply b)))),
       (''halving_interval'', JNumber (format_nat 10 (unat (blk_HalvingInterval b))))]
      @ (if blk_Message b = [] then [] else [(''message'', JString (replace_invalid (blk_Message b)))]))"

text \<open>What a block is after it has been written and read: its texts have their invalid bytes
  replaced.\<close>

definition stored_block :: "LedgerBlock \<Rightarrow> LedgerBlock" where
  "stored_block b = b\<lparr>blk_Transfers := map_option (map stored_transfer) (blk_Transfers b),
     blk_Miner := replace_invalid (blk_Miner b), blk_Message := replace_invalid (blk_Message b)\<rparr>"

lemma block_keys:
  "plain_key ''index''" "plain_key ''timestamp''" "plain_key ''prev_hash''" "plain_key ''hash''"
  "plain_key ''transfers''" "plain_key ''miner''" "plain_key ''difficulty''"
  "plain_key ''bits''" "plain_key ''reward''" "plain_key ''max_supply''" "plain_key ''halving_interval''"
  "plain_key ''message''"
  by (rule plain_key_ascii, simp)+

lemma reads_transfer_list:
  "reads 2 (case ts of None \<Rightarrow> ''null'' | Some ts \<Rightarrow> json_array (map MarshalTransfer ts))
     (case ts of None \<Rightarrow> JNull | Some ts \<Rightarrow> JArray (map transfer_value ts))"
proof (cases ts)
  case None
  then show ?thesis using reads_mono [OF reads_whole_reads [OF reads_null]] by simp
next
  case (Some us)
  have "list_all2 (reads 1) (map MarshalTransfer us) (map transfer_value us)"
    unfolding list.rel_map by (rule list.rel_refl) (rule reads_whole_reads [OF reads_transfer])
  from reads_json_array [OF this] show ?thesis by (simp add: Some reads_whole_reads numeral_2_eq_2)
qed

lemma reads_block: "reads_whole 3 (MarshalBlock b) (block_value b)"
proof -
  have leaf: "reads 0 s v \<Longrightarrow> reads 2 s v" for s v by (erule reads_mono) simp
  have "list_all2 (\<lambda>(k, s) (j, v). j = k \<and> plain_key k \<and> reads 2 s v)
     ([(''index'', json_uint (blk_Index b)), (''timestamp'', json_int64 (blk_Timestamp b)),
       (''prev_hash'', json_bytes (blk_PrevHash b)), (''hash'', json_bytes (blk_Hash b)),
       (''transfers'', (case blk_Transfers b of None \<Rightarrow> ''null''
                        | Some ts \<Rightarrow> json_array (map MarshalTransfer ts))),
       (''miner'', json_string (blk_Miner b)), (''nonce'', json_uint (blk_Nonce b)),
       (''difficulty'', json_uint (blk_Difficulty b)), (''bits'', json_uint (blk_Bits b)),
       (''reward'', json_uint (blk_Reward b)), (''max_supply'', json_uint (blk_MaxSupply b)),
       (''halving_interval'', json_uint (blk_HalvingInterval b))]
      @ (if blk_Message b = [] then [] else [(''message'', json_string (blk_Message b))]))
     ([(''index'', JNumber (format_nat 10 (unat (blk_Index b)))),
       (''timestamp'', JNumber (FormatInt (blk_Timestamp b) 10)),
       (''prev_hash'', bytes_json (blk_PrevHash b)),
       (''hash'', bytes_json (blk_Hash b)),
       (''transfers'', (case blk_Transfers b of None \<Rightarrow> JNull | Some ts \<Rightarrow> JArray (map transfer_value ts))),
       (''miner'', JString (replace_invalid (blk_Miner b))),
       (''nonce'', JNumber (format_nat 10 (unat (blk_Nonce b)))),
       (''difficulty'', JNumber (format_nat 10 (unat (blk_Difficulty b)))),
       (''bits'', JNumber (format_nat 10 (unat (blk_Bits b)))),
       (''reward'', JNumber (format_nat 10 (unat (blk_Reward b)))),
       (''max_supply'', JNumber (format_nat 10 (unat (blk_MaxSupply b)))),
       (''halving_interval'', JNumber (format_nat 10 (unat (blk_HalvingInterval b))))]
      @ (if blk_Message b = [] then [] else [(''message'', JString (replace_invalid (blk_Message b)))]))"
    by (auto simp: block_keys transfer_keys reads_transfer_list intro: leaf reads_whole_reads)
  from reads_json_object [OF this] show ?thesis
    by (simp add: MarshalBlock_def block_value_def numeral_3_eq_3 numeral_2_eq_2)
qed

lemma into_transfers_value:
  "into_transfers (case ts of None \<Rightarrow> JNull | Some us \<Rightarrow> JArray (map transfer_value us)) x
     = (map_option (map (Some \<circ> stored_transfer)) ts, True)"
proof (cases ts)
  case (Some us)
  have "list_all2 (\<lambda>v p. \<forall>q. into_pointer into_transfer zero_Transfer v q = (p, True))
      (map transfer_value us) (map (Some \<circ> stored_transfer) us)"
    unfolding list.rel_map
  proof (rule list.rel_refl)
    fix tx
    show "\<forall>q. into_pointer into_transfer zero_Transfer (transfer_value tx) q = ((Some \<circ> stored_transfer) tx, True)"
      using into_transfer_value [of tx] by (simp add: into_pointer_def transfer_value_def)
  qed
  then show ?thesis by (simp add: Some into_transfers_def into_slice_ok)
qed (simp add: into_transfers_def into_slice_def)

lemma into_block_value:
  "blk_Message (fst r) = [] \<Longrightarrow> blk_Transfers (fst r) = None \<Longrightarrow>
   into_block (block_value b) r = (raw_of (stored_block b), True)"
  by (simp add: into_block_def into_struct_def block_value_def LedgerBlock_fields_def into_head_def
      find_field_exact into_field_def into_transfers_value raw_of_def stored_block_def option.map_comp comp_def)

lemma UnmarshalBlock_Marshal: "UnmarshalBlock (MarshalBlock b) = Some (raw_of (stored_block b))"
  by (simp add: UnmarshalBlock_def Unmarshal_reads [OF reads_block] maxNestingDepth_def
      into_block_value zero_block_def decoded_def)

text \<open>Texts that are UTF-8 come back as they were.\<close>

definition valid_texts :: "LedgerBlock \<Rightarrow> bool" where
  "valid_texts b \<longleftrightarrow> valid_utf8 (blk_Miner b) \<and> valid_utf8 (blk_Message b) \<and>
     (\<forall>tx \<in> set (elems (blk_Transfers b)). valid_utf8 (tx_Recipient tx))"

lemma stored_transfer_same: "valid_utf8 (tx_Recipient tx) \<Longrightarrow> stored_transfer tx = tx"
  by (simp add: stored_transfer_def valid_utf8_def)

lemma stored_block_same:
  assumes "valid_texts b"
  shows "stored_block b = b"
proof -
  have "map_option (map stored_transfer) (blk_Transfers b) = blk_Transfers b"
    using assms by (cases "blk_Transfers b") (auto simp: valid_texts_def stored_transfer_same intro!: map_idI)
  with assms show ?thesis by (simp add: stored_block_def valid_texts_def valid_utf8_def)
qed

lemma UnmarshalBlock_valid: "valid_texts b \<Longrightarrow> UnmarshalBlock (MarshalBlock b) = Some (raw_of b)"
  by (simp add: UnmarshalBlock_Marshal stored_block_same)

end
