(* ===== verification/Ledger.thy ===== *)
theory Ledger
  imports Validator Database Params Decoders
begin

text \<open>
  \<open>node/ledger.go\<close>: the node's chain, account state, mempool and storage, and every
  operation on them. The mutex is not modelled: a critical section is one atomic definition,
  and \<open>MineBlock\<close>, which lets go of it while it mines, is three of them. What an operation
  takes from outside is an argument: the clock, what \<open>Engine.Mine\<close> returned, and the
  fields of \<open>node_env\<close> (the cryptography, LevelDB, and \<open>sort.Slice\<close>, whose order among equal fees Go leaves open). Console output is left out.
\<close>

definition genesisTimestamp :: i64 where "genesisTimestamp = 1770249600"
definition genesisBits :: u32 where "genesisBits = 504365040"

definition pszTimestamp :: string where
  "pszTimestamp = ''IND Today 05/Aug/2026 AldianOkto, While banks keep printing Debt, We build an honest Exit''"

record AccountState =
  acc_Balance :: u64
  acc_Nonce :: u64

type_synonym accounts = "string \<rightharpoonup> AccountState"

record 'd LedgerCore =
  lc_Chain :: "LedgerBlock list"
  lc_State :: accounts
  lc_Mempool :: "Transfer list"
  lc_Engine :: ConsensusEngine
  lc_MinerAddress :: string
  lc_Storage :: "'d option"

record ('pub, 'priv, 'd) node_env =
  ne_crypto :: "('pub, 'priv) crypto_lib"
  ne_ldb :: "'d leveldb"
  ne_sort :: "Transfer list \<Rightarrow> Transfer list"

definition with_storage :: "'d LedgerCore \<Rightarrow> ('d \<Rightarrow> 'a outcome) \<Rightarrow> 'a outcome" where
  "with_storage lc f =
     (case lc_Storage lc of
        None \<Rightarrow> Panic ''invalid memory address or nil pointer dereference''
      | Some d \<Rightarrow> f d)"

section \<open>Supply and integrity\<close>

definition node_CalculateBlockReward :: "u64 \<Rightarrow> u64" where
  "node_CalculateBlockReward blockIndex = CalculateBlockReward blockIndex"

definition GetTotalCirculatingSupply :: "'d LedgerCore \<Rightarrow> u64" where
  "GetTotalCirculatingSupply lc =
     foldl (\<lambda>totalSupply block. totalSupply + blk_Reward block) 0 (lc_Chain lc)"

fun verify_checkpoints :: "nat \<Rightarrow> LedgerBlock list \<Rightarrow> unit outcome" where
  "verify_checkpoints i [] = Ret ()"
| "verify_checkpoints i (block # bs) =
     (case VerifyCheckpoint (of_nat i) (elems (blk_Hash block)) of
        Some e \<Rightarrow> Panic ''[FATAL CONSENSUS PANIC] checkpoint''
      | None \<Rightarrow> verify_checkpoints (Suc i) bs)"

definition VerifyConsensusIntegrity :: "'d LedgerCore \<Rightarrow> unit outcome" where
  "VerifyConsensusIntegrity lc =
     (if lc_Chain lc = [] then Ret ()
      else obind (verify_checkpoints 0 (lc_Chain lc)) (\<lambda>_.
        if GetTotalCirculatingSupply lc > MaxSupply
        then Panic ''[FATAL CONSENSUS PANIC] MACROECONOMIC RULE VIOLATION'' else Ret ()))"

section \<open>Account state\<close>

definition zero_account :: AccountState where
  "zero_account = \<lparr>acc_Balance = 0, acc_Nonce = 0\<rparr>"

definition ensure_account :: "string \<Rightarrow> accounts \<Rightarrow> accounts" where
  "ensure_account a St = (case St a of None \<Rightarrow> St(a \<mapsto> zero_account) | Some _ \<Rightarrow> St)"

definition update_account ::
  "string \<Rightarrow> (AccountState \<Rightarrow> AccountState) \<Rightarrow> accounts \<Rightarrow> accounts" where
  "update_account a f St = St(a := map_option f (St a))"

definition credit :: "string \<Rightarrow> u64 \<Rightarrow> accounts \<Rightarrow> accounts" where
  "credit a v St =
     update_account a (\<lambda>acc. acc\<lparr>acc_Balance := acc_Balance acc + v\<rparr>) (ensure_account a St)"

definition rebuild_tx :: "Transfer \<Rightarrow> accounts \<Rightarrow> accounts outcome" where
  "rebuild_tx tx St =
     obind (PubkeyToAddress (elems (tx_SenderPubKey tx))) (\<lambda>sender.
       let St1 = ensure_account sender St;
           St2 = update_account sender (\<lambda>acc. acc
             \<lparr>acc_Balance := (if acc_Balance acc \<ge> tx_Value tx + tx_Fee tx
                               then acc_Balance acc - (tx_Value tx + tx_Fee tx) else 0),
              acc_Nonce := acc_Nonce acc + 1\<rparr>) St1
       in Ret (credit (tx_Recipient tx) (tx_Value tx) St2))"

definition RebuildState :: "LedgerBlock \<Rightarrow> accounts \<Rightarrow> accounts outcome" where
  "RebuildState block St =
     obind (ofold rebuild_tx (elems (blk_Transfers block)) St) (\<lambda>St1.
       Ret (if blk_Miner block \<noteq> ''SYSTEM_GENESIS'' \<and> blk_Miner block \<noteq> []
            then
              let feeTotal = foldl (\<lambda>s tx. s + tx_Fee tx) 0 (elems (blk_Transfers block));
                  totalRewardAdded = blk_Reward block + feeTotal
              in if totalRewardAdded > 0
                 then credit (blk_Miner block) totalRewardAdded St1 else St1
            else St1))"

section \<open>Genesis, loading and start-up\<close>

definition genesis_template :: "ConsensusEngine \<Rightarrow> LedgerBlock" where
  "genesis_template engine =
     \<lparr>blk_Index = 0,
      blk_Timestamp = genesisTimestamp,
      blk_PrevHash = Some (replicate 64 (CHR 0x00)),
      blk_Hash = None,
      blk_Transfers = Some [],
      blk_Miner = ''SYSTEM_GENESIS'',
      blk_Nonce = 0,
      blk_Difficulty = ce_TargetDifficulty engine,
      blk_Bits = genesisBits,
      blk_Reward = node_CalculateBlockReward 0,
      blk_MaxSupply = MaxSupply,
      blk_HalvingInterval = HalvingInterval,
      blk_Message = pszTimestamp\<rparr>"

definition SpawnGenesis ::
  "('pub, 'priv, 'd) node_env \<Rightarrow> u64 \<times> bytes \<Rightarrow> 'd LedgerCore \<Rightarrow> 'd LedgerCore outcome" where
  "SpawnGenesis E mined lc =
     (let genesis = (Mine_prepare (lc_Engine lc) (genesis_template (lc_Engine lc)))
            \<lparr>blk_Nonce := fst mined, blk_Hash := Some (snd mined),
             blk_Reward := node_CalculateBlockReward 0\<rparr>;
          lc1 = lc\<lparr>lc_Chain := lc_Chain lc @ [genesis]\<rparr>
      in with_storage lc1 (\<lambda>d.
           Ret (lc1\<lparr>lc_Storage := Some (snd (SaveBlock (ne_ldb E) 0 (MarshalBlock genesis) d))\<rparr>)))"

definition genesis_matches :: "LedgerBlock \<Rightarrow> bool" where
  "genesis_matches storedGenesis \<longleftrightarrow>
     blk_Message storedGenesis = pszTimestamp \<and> blk_Timestamp storedGenesis = genesisTimestamp \<and>
     blk_Bits storedGenesis = genesisBits \<and> blk_Reward storedGenesis = BlockReward \<and>
     blk_MaxSupply storedGenesis = MaxSupply \<and>
     blk_HalvingInterval storedGenesis = HalvingInterval"

text \<open>The loop of \<open>LoadFromDisk\<close> over heights \<open>i\<close> to \<open>lastIdx\<close>: the first argument is how
  many heights are left. A missing block ends it, one that does not decode is skipped, and a nil transfer
  of one that does is dereferenced.\<close>

fun load_blocks ::
  "('pub, 'priv, 'd) node_env \<Rightarrow> nat \<Rightarrow> u64 \<Rightarrow> 'd \<Rightarrow> 'd LedgerCore \<Rightarrow> 'd LedgerCore outcome" where
  "load_blocks E 0 i d lc = Ret lc"
| "load_blocks E (Suc n) i d lc =
     (case GetBlock (ne_ldb E) i d of
        None \<Rightarrow> Ret lc
      | Some data \<Rightarrow>
          obind (case UnmarshalBlock data of
                   None \<Rightarrow> Ret lc
                 | Some raw \<Rightarrow>
                     obind (block_of raw) (\<lambda>block.
                       obind (RebuildState block (lc_State lc)) (\<lambda>St.
                         Ret (lc\<lparr>lc_Chain := lc_Chain lc @ [block], lc_State := St\<rparr>))))
            (load_blocks E n (i + 1) d))"

definition LoadFromDisk ::
  "('pub, 'priv, 'd) node_env \<Rightarrow> u64 \<times> bytes \<Rightarrow> 'd LedgerCore \<Rightarrow> (bool \<times> 'd LedgerCore) outcome" where
  "LoadFromDisk E mined lc = with_storage lc (\<lambda>d.
     case GetLastIndex (ne_ldb E) d of
       None \<Rightarrow> Ret (False, lc)
     | Some lastIdx \<Rightarrow>
         obind (load_blocks E (Suc (unat lastIdx)) 0 d lc) (\<lambda>lc1.
           if lc_Chain lc1 \<noteq> [] \<and> \<not> genesis_matches (hd (lc_Chain lc1))
           then
             let lc2 = lc1\<lparr>lc_Chain := [], lc_State := Map.empty,
                            lc_Storage := Some (snd (ClearAll (ne_ldb E) d))\<rparr>
             in obind (SpawnGenesis E mined lc2) (\<lambda>lc3. Ret (True, lc3))
           else obind (VerifyConsensusIntegrity lc1) (\<lambda>_. Ret (lc_Chain lc1 \<noteq> [], lc1))))"

definition InitializeLedger ::
  "('pub, 'priv, 'd) node_env \<Rightarrow> (string \<Rightarrow> 'd option) \<Rightarrow> u64 \<times> bytes \<Rightarrow> string \<Rightarrow> u32 \<Rightarrow> string
     \<Rightarrow> 'd LedgerCore outcome" where
  "InitializeLedger E OpenFile mined dbPath initialDifficulty minerAddr =
     (case NewDatabase OpenFile dbPath of
        Inl _ \<Rightarrow> Panic ''Failed to open database''
      | Inr db \<Rightarrow>
          let difficulty = (if initialDifficulty = 0
                            then ucast (cp_DifficultyBits DefaultConsensus) else initialDifficulty);
              coreLedger =
                \<lparr>lc_Chain = [], lc_State = Map.empty, lc_Mempool = [],
                 lc_Engine = NewConsensusEngine difficulty, lc_MinerAddress = minerAddr,
                 lc_Storage = Some db\<rparr>
          in obind (LoadFromDisk E mined coreLedger) (\<lambda>(loaded, lc).
               if \<not> loaded then SpawnGenesis E mined lc else Ret lc))"

section \<open>The mempool\<close>

definition AddToMempool ::
  "('pub, 'priv, 'd) node_env \<Rightarrow> Transfer \<Rightarrow> 'd LedgerCore \<Rightarrow> (bool \<times> 'd LedgerCore) outcome" where
  "AddToMempool E tx lc =
     (let requiredPrefix = cp_AddressPrefix DefaultConsensus in
      if \<not> HasPrefix (tx_Recipient tx) requiredPrefix then Ret (False, lc)
      else if \<not> Transfer_Verify (ne_crypto E) tx then Ret (False, lc)
      else
        obind (PubkeyToAddress (elems (tx_SenderPubKey tx))) (\<lambda>sender.
          let St1 = (case lc_State lc sender of
                       None \<Rightarrow> (lc_State lc)(sender \<mapsto> \<lparr>acc_Balance = 0, acc_Nonce = tx_Nonce tx\<rparr>)
                     | Some _ \<Rightarrow> lc_State lc);
              St2 = update_account sender (\<lambda>acc. if tx_Nonce tx \<noteq> acc_Nonce acc
                      then acc\<lparr>acc_Nonce := tx_Nonce tx\<rparr> else acc) St1
          in Ret (True, lc\<lparr>lc_State := St2, lc_Mempool := ne_sort E (lc_Mempool lc @ [tx])\<rparr>)))"

text \<open>The count, the first fee, which is the highest of a sorted queue, and the average.\<close>

definition GetMempoolFeeStats :: "'d LedgerCore \<Rightarrow> nat \<times> u64 \<times> float64" where
  "GetMempoolFeeStats lc =
     (case lc_Mempool lc of
        [] \<Rightarrow> (0, 0, FNum 0)
      | tx # _ \<Rightarrow>
          (length (lc_Mempool lc), tx_Fee tx,
           fdiv (float64_of_uint64 (foldl (\<lambda>totalFee tx. totalFee + tx_Fee tx) 0 (lc_Mempool lc)))
             (to_float (of_nat (length (lc_Mempool lc))))))"

definition formatCoin :: "u64 \<Rightarrow> float64" where
  "formatCoin amount = fdiv (float64_of_uint64 amount) (float64_of_uint64 CoinUnit)"

section \<open>Mining a block\<close>

record selection =
  sel_State :: accounts
  sel_Bytes :: u64
  sel_Fees :: u64
  sel_Valid :: "Transfer list"

text \<open>The loop over the mempool: a transfer that would overfill the block ends it, one the
  sender cannot pay for is skipped.\<close>

fun select_txs :: "Transfer list \<Rightarrow> selection \<Rightarrow> selection outcome" where
  "select_txs [] sel = Ret sel"
| "select_txs (tx # txs) sel =
     (let txSize = of_nat (length (MarshalTransfer tx)) in
      if sel_Bytes sel + txSize > MaxBlockSizeBytes then Ret sel
      else
        obind (PubkeyToAddress (elems (tx_SenderPubKey tx))) (\<lambda>sender.
          let St = ensure_account sender (sel_State sel);
              totalCost = tx_Value tx + tx_Fee tx
          in if acc_Balance (the (St sender)) < totalCost
             then select_txs txs (sel\<lparr>sel_State := St\<rparr>)
             else
               let St1 = update_account sender (\<lambda>acc. acc
                     \<lparr>acc_Balance := acc_Balance acc - totalCost,
                      acc_Nonce := acc_Nonce acc + 1\<rparr>) St;
                   St2 = (case St1 (tx_Recipient tx) of
                            None \<Rightarrow> St1(tx_Recipient tx \<mapsto>
                                      \<lparr>acc_Balance = tx_Value tx, acc_Nonce = 0\<rparr>)
                          | Some _ \<Rightarrow> update_account (tx_Recipient tx) (\<lambda>acc. acc
                                      \<lparr>acc_Balance := acc_Balance acc + tx_Value tx\<rparr>) St1)
               in select_txs txs
                    \<lparr>sel_State = St2,
                     sel_Bytes = sel_Bytes sel + txSize,
                     sel_Fees = sel_Fees sel + tx_Fee tx,
                     sel_Valid = sel_Valid sel @ [tx]\<rparr>))"

text \<open>First critical section: read the tip and take what fits from the mempool.\<close>

definition MineBlock_select ::
  "'d LedgerCore \<Rightarrow> (LedgerBlock \<times> Transfer list \<times> u64 \<times> 'd LedgerCore) outcome" where
  "MineBlock_select lc =
     (if lc_MinerAddress lc \<noteq> ''SYSTEM_GENESIS''
         \<and> \<not> HasPrefix (lc_MinerAddress lc) (cp_AddressPrefix DefaultConsensus)
      then Panic ''[CONSENSUS VIOLATION] Invalid miner address prefix!''
      else if lc_Chain lc = [] then Panic ''index out of range''
      else
        let parent = last (lc_Chain lc) in
        if lc_Mempool lc = [] then Ret (parent, [], 0, lc)
        else
          obind (select_txs (lc_Mempool lc)
                   \<lparr>sel_State = lc_State lc, sel_Bytes = 512, sel_Fees = 0, sel_Valid = []\<rparr>)
            (\<lambda>sel. Ret (parent, sel_Valid sel, sel_Fees sel,
               lc\<lparr>lc_State := sel_State sel,
                  lc_Mempool := (if sel_Valid sel \<noteq> []
                                 then drop (length (sel_Valid sel)) (lc_Mempool lc)
                                 else lc_Mempool lc)\<rparr>)))"

text \<open>Outside the lock: the supply, the reward, the time, the difficulty and the block to
  mine. \<open>now\<close> is \<open>time.Now().Unix()\<close>.\<close>

definition MineBlock_template ::
  "LedgerBlock \<Rightarrow> Transfer list \<Rightarrow> i64 \<Rightarrow> 'd LedgerCore \<Rightarrow> u64 \<times> LedgerBlock \<times> 'd LedgerCore" where
  "MineBlock_template parent validTx now lc =
     (let nextIndex = blk_Index parent + 1;
          currentSupply = GetTotalCirculatingSupply lc;
          reward = node_CalculateBlockReward nextIndex;
          exactReward = (if currentSupply \<ge> MaxSupply then 0
                         else if currentSupply + reward > MaxSupply then MaxSupply - currentSupply
                         else reward);
          currentTime = (if now \<le>s blk_Timestamp parent then blk_Timestamp parent + 1 else now);
          calculatedDiff = CalculateNextDifficulty (blk_Timestamp parent) currentTime
                             (ucast (blk_Difficulty parent));
          engine = (lc_Engine lc)\<lparr>ce_TargetDifficulty := ucast calculatedDiff\<rparr>;
          newBlock =
            \<lparr>blk_Index = nextIndex,
             blk_Timestamp = currentTime,
             blk_PrevHash = blk_Hash parent,
             blk_Hash = None,
             blk_Transfers = Some validTx,
             blk_Miner = lc_MinerAddress lc,
             blk_Nonce = 0,
             blk_Difficulty = ce_TargetDifficulty engine,
             blk_Bits = ce_Bits engine,
             blk_Reward = exactReward,
             blk_MaxSupply = MaxSupply,
             blk_HalvingInterval = HalvingInterval,
             blk_Message = []\<rparr>
      in (currentSupply, newBlock, lc\<lparr>lc_Engine := engine\<rparr>))"

text \<open>The mined block: \<open>Mine\<close> filled its defaults in and the caller sets the result and
  restores the reward.\<close>

definition mined_block :: "ConsensusEngine \<Rightarrow> LedgerBlock \<Rightarrow> u64 \<times> bytes \<Rightarrow> LedgerBlock" where
  "mined_block engine newBlock mined =
     (Mine_prepare engine newBlock)
       \<lparr>blk_Nonce := fst mined, blk_Hash := Some (snd mined), blk_Reward := blk_Reward newBlock\<rparr>"

text \<open>Validation and the second critical section: append, save, pay the miner.\<close>

definition MineBlock_commit ::
  "('pub, 'priv, 'd) node_env \<Rightarrow> LedgerBlock \<Rightarrow> u64 \<Rightarrow> LedgerBlock \<Rightarrow> u64 \<Rightarrow> 'd LedgerCore
     \<Rightarrow> 'd LedgerCore outcome" where
  "MineBlock_commit E parent currentSupply newBlock feeTotal lc =
     (case ValidateBlockConsensus newBlock (Some parent) currentSupply of
        Some err \<Rightarrow> Panic ''[CRITICAL CONSENSUS VIOLATION] Generated block failed strict validation''
      | None \<Rightarrow>
          let lc1 = lc\<lparr>lc_Chain := lc_Chain lc @ [newBlock]\<rparr> in
          with_storage lc1 (\<lambda>d.
            let lc2 = lc1\<lparr>lc_Storage := Some (snd
                        (SaveBlock (ne_ldb E) (blk_Index newBlock) (MarshalBlock newBlock) d))\<rparr>;
                totalMinerReward = blk_Reward newBlock + feeTotal;
                miner = lc_MinerAddress lc
            in Ret (if totalMinerReward > 0 then
                 lc2\<lparr>lc_State :=
                   (case lc_State lc2 miner of
                      None \<Rightarrow> (lc_State lc2)(miner \<mapsto>
                                \<lparr>acc_Balance = totalMinerReward, acc_Nonce = 0\<rparr>)
                    | Some _ \<Rightarrow> update_account miner (\<lambda>acc. acc
                                \<lparr>acc_Balance := acc_Balance acc + totalMinerReward\<rparr>)
                                (lc_State lc2))\<rparr>
               else lc2)))"

definition MineBlock ::
  "('pub, 'priv, 'd) node_env \<Rightarrow> i64 \<Rightarrow> u64 \<times> bytes \<Rightarrow> 'd LedgerCore \<Rightarrow> 'd LedgerCore outcome" where
  "MineBlock E now mined lc =
     obind (MineBlock_select lc) (\<lambda>(parent, validTx, feeTotal, lc1).
       let (currentSupply, newBlock, lc2) = MineBlock_template parent validTx now lc1
       in MineBlock_commit E parent currentSupply
            (mined_block (lc_Engine lc2) newBlock mined) feeTotal lc2)"

text \<open>The background worker: the events its loop receives, in order. A tick mines when the
  queue is not empty, the stop signal ends the loop.\<close>

datatype live_event = Tick i64 "u64 \<times> bytes" | StopSignal

fun StartLiveWorker ::
  "('pub, 'priv, 'd) node_env \<Rightarrow> live_event list \<Rightarrow> 'd LedgerCore \<Rightarrow> 'd LedgerCore outcome" where
  "StartLiveWorker E [] lc = Ret lc"
| "StartLiveWorker E (StopSignal # evs) lc = Ret lc"
| "StartLiveWorker E (Tick now mined # evs) lc =
     obind (if lc_Mempool lc \<noteq> [] then MineBlock E now mined lc else Ret lc)
       (StartLiveWorker E evs)"

section \<open>Lookup, rollback and direct append\<close>

datatype ledger_error =
    StorageUninitialized
  | StorageFailed db_error
  | CannotRollbackGenesis
  | RollbackStorage ledger_error
  | PrevHashMismatch
  | ConsensusValidation block_error

definition Ledger_DeleteBlock ::
  "('pub, 'priv, 'd) node_env \<Rightarrow> u64 \<Rightarrow> 'd LedgerCore \<Rightarrow> ledger_error option \<times> 'd LedgerCore" where
  "Ledger_DeleteBlock E index lc =
     (case lc_Storage lc of
        None \<Rightarrow> (Some StorageUninitialized, lc)
      | Some d \<Rightarrow>
          (case DeleteBlock (ne_ldb E) index d of
             (e, d') \<Rightarrow> (map_option StorageFailed e, lc\<lparr>lc_Storage := Some d'\<rparr>)))"

definition rebuild_chain :: "LedgerBlock list \<Rightarrow> accounts outcome" where
  "rebuild_chain chain = ofold RebuildState chain Map.empty"

definition RollbackBlock ::
  "('pub, 'priv, 'd) node_env \<Rightarrow> 'd LedgerCore \<Rightarrow> (ledger_error option \<times> 'd LedgerCore) outcome" where
  "RollbackBlock E lc =
     (if length (lc_Chain lc) \<le> 1 then Ret (Some CannotRollbackGenesis, lc)
      else
        let tip = last (lc_Chain lc);
            mempool = foldl (\<lambda>mp tx. [tx] @ mp) (lc_Mempool lc) (elems (blk_Transfers tip));
            lc1 = lc\<lparr>lc_Mempool := mempool, lc_Chain := butlast (lc_Chain lc)\<rparr>;
            (e, lc2) = (if lc_Storage lc1 \<noteq> None
                        then Ledger_DeleteBlock E (blk_Index tip) lc1 else (None, lc1))
        in case e of
             Some err \<Rightarrow> Ret (Some (RollbackStorage err), lc2)
           | None \<Rightarrow> obind (rebuild_chain (lc_Chain lc2)) (\<lambda>St.
                       Ret (None, lc2\<lparr>lc_State := St\<rparr>)))"

definition GetBlockByHash :: "'d LedgerCore \<Rightarrow> string \<Rightarrow> LedgerBlock option" where
  "GetBlockByHash lc hashHex =
     find (\<lambda>block. hex_encode (elems (blk_Hash block)) = hashHex
                   \<or> blk_Index block = 0 \<and> hashHex = []) (lc_Chain lc)"

definition GetLatestBlock :: "'d LedgerCore \<Rightarrow> LedgerBlock option" where
  "GetLatestBlock lc = (if lc_Chain lc = [] then None else Some (last (lc_Chain lc)))"

definition AppendBlockDirectly ::
  "('pub, 'priv, 'd) node_env \<Rightarrow> LedgerBlock \<Rightarrow> 'd LedgerCore
     \<Rightarrow> (ledger_error option \<times> 'd LedgerCore) outcome" where
  "AppendBlockDirectly E block lc =
     (let parent = GetLatestBlock lc in
      if (case parent of None \<Rightarrow> False
          | Some p \<Rightarrow> elems (blk_PrevHash block) \<noteq> elems (blk_Hash p))
      then Ret (Some PrevHashMismatch, lc)
      else
        case ValidateBlockConsensus block parent (GetTotalCirculatingSupply lc) of
          Some err \<Rightarrow> Ret (Some (ConsensusValidation err), lc)
        | None \<Rightarrow>
            let lc1 = lc\<lparr>lc_Chain := lc_Chain lc @ [block]\<rparr>;
                lc2 = (case lc_Storage lc1 of
                         None \<Rightarrow> lc1
                       | Some d \<Rightarrow> lc1\<lparr>lc_Storage := Some (snd
                           (SaveBlock (ne_ldb E) (blk_Index block) (MarshalBlock block) d))\<rparr>)
            in obind (RebuildState block (lc_State lc2)) (\<lambda>St.
                 Ret (None, lc2\<lparr>lc_State := St\<rparr>)))"

end
