(* ===== verification/Go_Valid.thy ===== *)
theory Go_Valid
  imports Go_Roundtrip
begin

text \<open>
  Every string \<open>json.Unmarshal\<close> yields is UTF-8, so it is written and read back unchanged.
\<close>

section \<open>Code points\<close>

lemma valid_Nil [simp]: "valid_utf8 []"
  by (simp add: valid_utf8_def)

lemma valid_sequence:
  assumes "utf8_len c cs = Suc (length cs)"
  shows "replace_invalid (c # cs @ r) = c # cs @ replace_invalid r"
  using replace_invalid_sequence [of c cs r] assms by simp

lemma valid_ascii: "(of_char c :: nat) < 0x80 \<Longrightarrow> replace_invalid (c # r) = c # replace_invalid r"
  by (simp add: utf8_len_ascii)

lemma rune_bytes:
  fixes n :: nat
  shows "n = 64 * (n div 64) + n mod 64" and "n div 64 = 64 * (n div 4096) + n div 64 mod 64"
    and "n div 4096 = 64 * (n div 262144) + n div 4096 mod 64"
    and "n mod 64 < 64" and "n div 64 mod 64 < 64" and "n div 4096 mod 64 < 64"
proof -
  have "n div 64 div 64 = n div 4096" "n div 4096 div 64 = n div 262144"
    by (simp_all flip: div_mult2_eq)
  then show "n div 64 = 64 * (n div 4096) + n div 64 mod 64"
    and "n div 4096 = 64 * (n div 262144) + n div 4096 mod 64"
    using mult_div_mod_eq [of 64 "n div 64"] mult_div_mod_eq [of 64 "n div 4096"] by simp_all
qed simp_all

lemma byte_of: "n < 256 \<Longrightarrow> of_char (char_of (n :: nat)) = n"
  by simp

lemma rune_len:
  assumes "n < 0x110000" and "\<not> (0xD800 \<le> n \<and> n < 0xE000)"
  obtains c cs where "encode_rune n = c # cs" and "utf8_len c cs = Suc (length cs)"
proof -
  note b = rune_bytes [of n]
  consider "n < 0x80" | "0x80 \<le> n" "n < 0x800" | "0x800 \<le> n" "n < 0x10000" | "0x10000 \<le> n" by linarith
  then show ?thesis
  proof cases
    case 1
    have "(of_char (char_of n :: char) :: nat) < 0x80" using 1 byte_of [of n] by simp
    with 1 show ?thesis by (intro that [of "char_of n" "[]"]) (simp_all add: encode_rune_def utf8_len_ascii)
  next
    case 2
    let ?b0 = "0xC0 + n div 64" and ?b1 = "0x80 + n mod 64"
    have r: "0xC2 \<le> ?b0" "?b0 \<le> 0xDF" "?b1 \<le> 0xBF" using 2 b by linarith+
    then have o: "of_char (char_of ?b0 :: char) = ?b0" "of_char (char_of ?b1 :: char) = ?b1"
      by (intro byte_of; linarith)+
    have "utf8_len (char_of ?b0) [char_of ?b1] = 2"
      unfolding utf8_len_def Let_def o(1) cont_at_def using r by (simp add: o)
    with 2 show ?thesis by (intro that [of "char_of ?b0" "[char_of ?b1]"]) (simp_all add: encode_rune_def)
  next
    case 3
    let ?b0 = "0xE0 + n div 4096" and ?b1 = "0x80 + n div 64 mod 64" and ?b2 = "0x80 + n mod 64"
    have r: "0xE0 \<le> ?b0" "?b0 \<le> 0xEF" "?b1 \<le> 0xBF" "?b2 \<le> 0xBF" using 3 b by linarith+
    have s: "?b0 = 0xE0 \<Longrightarrow> 0xA0 \<le> ?b1" "?b0 = 0xED \<Longrightarrow> ?b1 \<le> 0x9F" using 3 b assms(2) by linarith+
    from r have o: "of_char (char_of ?b0 :: char) = ?b0" "of_char (char_of ?b1 :: char) = ?b1"
      "of_char (char_of ?b2 :: char) = ?b2" by (intro byte_of; linarith)+
    have "cont_at [char_of ?b1, char_of ?b2] 0 (if ?b0 = 0xE0 then 0xA0 else 0x80) (if ?b0 = 0xED then 0x9F else 0xBF)"
      "cont_at [char_of ?b1, char_of ?b2] 1 0x80 0xBF"
      using r s by (simp_all add: cont_at_def o)
    moreover have "\<not> ?b0 < 0x80" "\<not> (0xC2 \<le> ?b0 \<and> ?b0 \<le> 0xDF)" using r by linarith+
    ultimately have "utf8_len (char_of ?b0) [char_of ?b1, char_of ?b2] = 3"
      unfolding utf8_len_def Let_def o(1) using r by (simp only: if_True if_False simp_thms)
    with 3 show ?thesis
      by (intro that [of "char_of ?b0" "[char_of ?b1, char_of ?b2]"]) (simp_all add: encode_rune_def)
  next
    case 4
    let ?b0 = "0xF0 + n div 262144" and ?b1 = "0x80 + n div 4096 mod 64"
      and ?b2 = "0x80 + n div 64 mod 64" and ?b3 = "0x80 + n mod 64"
    have r: "0xF0 \<le> ?b0" "?b0 \<le> 0xF4" "?b1 \<le> 0xBF" "?b2 \<le> 0xBF" "?b3 \<le> 0xBF"
      using 4 b assms(1) by linarith+
    have s: "?b0 = 0xF0 \<Longrightarrow> 0x90 \<le> ?b1" "?b0 = 0xF4 \<Longrightarrow> ?b1 \<le> 0x8F" using 4 b assms(1) by linarith+
    from r have o: "of_char (char_of ?b0 :: char) = ?b0" "of_char (char_of ?b1 :: char) = ?b1"
      "of_char (char_of ?b2 :: char) = ?b2" "of_char (char_of ?b3 :: char) = ?b3"
      by (intro byte_of; linarith)+
    have "cont_at [char_of ?b1, char_of ?b2, char_of ?b3] 0 (if ?b0 = 0xF0 then 0x90 else 0x80) (if ?b0 = 0xF4 then 0x8F else 0xBF)"
      "cont_at [char_of ?b1, char_of ?b2, char_of ?b3] 1 0x80 0xBF"
      "cont_at [char_of ?b1, char_of ?b2, char_of ?b3] 2 0x80 0xBF"
      using r s by (simp_all add: cont_at_def o numeral_2_eq_2)
    moreover have "\<not> ?b0 < 0x80" "\<not> (0xC2 \<le> ?b0 \<and> ?b0 \<le> 0xDF)" "\<not> (0xE0 \<le> ?b0 \<and> ?b0 \<le> 0xEF)"
      using r by linarith+
    ultimately have "utf8_len (char_of ?b0) [char_of ?b1, char_of ?b2, char_of ?b3] = 4"
      unfolding utf8_len_def Let_def o(1) using r by (simp only: if_True if_False simp_thms)
    with 4 show ?thesis
      by (intro that [of "char_of ?b0" "[char_of ?b1, char_of ?b2, char_of ?b3]"]) (simp_all add: encode_rune_def)
  qed
qed

lemma valid_rune:
  assumes "n < 0x110000" and "\<not> (0xD800 \<le> n \<and> n < 0xE000)"
  shows "replace_invalid (encode_rune n @ r) = encode_rune n @ replace_invalid r"
proof -
  obtain c cs where "encode_rune n = c # cs" and "utf8_len c cs = Suc (length cs)"
    by (rule rune_len [OF assms])
  then show ?thesis using valid_sequence [of c cs r] by simp
qed

section \<open>Unquoting\<close>

lemma parse_digits_bound: "parse_digits b a s = Some n \<Longrightarrow> n < (a + 1) * b ^ length s"
proof (induction s arbitrary: a)
  case (Cons c s)
  then obtain d where d: "d < b" "parse_digits b (a * b + d) s = Some n"
    by (auto split: option.splits if_splits)
  have "n < (a * b + d + 1) * b ^ length s" by (rule Cons.IH [OF d(2)])
  also have "\<dots> \<le> ((a + 1) * b) * b ^ length s"
    using d(1) by (intro mult_right_mono) (simp_all add: algebra_simps)
  finally show ?case by (simp only: length_Cons power_Suc mult.assoc)
qed simp

lemma getu4_bound: "getu4 s = Some n \<Longrightarrow> n < 0x10000"
  using parse_digits_bound [of 16 0 "take 4 s" n] by (auto simp: getu4_def split: if_splits)

lemma valid_prefix:
  "replace_invalid (x @ r) = x @ replace_invalid r \<Longrightarrow> valid_utf8 r \<Longrightarrow> valid_utf8 (x @ r)"
  by (simp add: valid_utf8_def)

lemma valid_rune_prefix:
  "n < 0x110000 \<Longrightarrow> \<not> (0xD800 \<le> n \<and> n < 0xE000) \<Longrightarrow> valid_utf8 r \<Longrightarrow> valid_utf8 (encode_rune n @ r)"
  by (blast intro: valid_prefix valid_rune)

lemma valid_replacement: "valid_utf8 r \<Longrightarrow> valid_utf8 (replacement @ r)"
  by (blast intro: valid_prefix replace_invalid_replacement)

lemma valid_ascii_Cons: "(of_char c :: nat) < 0x80 \<Longrightarrow> valid_utf8 r \<Longrightarrow> valid_utf8 (c # r)"
  by (simp only: valid_utf8_def valid_ascii)

lemma unescape_ascii: "unescape e = Some x \<Longrightarrow> (of_char x :: nat) < 0x80"
  by (auto simp: unescape_def split: if_splits)

text \<open>Two halves of a pair make a code point past the basic plane.\<close>

lemma surrogates:
  fixes n m :: nat
  assumes "0xD800 \<le> n" and "n < 0xDC00" and "0xDC00 \<le> m" and "m < 0xE000"
  shows "(n - 0xD800) * 0x400 + (m - 0xDC00) + 0x10000 < 0x110000"
    and "0xE000 \<le> (n - 0xD800) * 0x400 + (m - 0xDC00) + 0x10000"
  using assms by linarith+

lemma unquote_escape_u:
  assumes "getu4 r = Some n"
  shows "\<exists>x k. unquote (CHR 0x5C # CHR ''u'' # r) = x @ unquote (drop k r) \<and>
    (\<forall>t. valid_utf8 t \<longrightarrow> valid_utf8 (x @ t))"
proof -
  note bound = getu4_bound [OF assms]
  let ?r1 = "drop 4 r"
  show ?thesis
  proof (cases "0xD800 \<le> n \<and> n < 0xE000")
    case sur: True
    show ?thesis
    proof (cases "\<exists>m. next_u ?r1 = Some m \<and> n < 0xDC00 \<and> 0xDC00 \<le> m \<and> m < 0xE000")
      case True
      then obtain m where m: "next_u ?r1 = Some m" "n < 0xDC00" "0xDC00 \<le> m" "m < 0xE000" by blast
      let ?x = "encode_rune ((n - 0xD800) * 0x400 + (m - 0xDC00) + 0x10000)"
      have "unquote (CHR 0x5C # CHR ''u'' # r) = ?x @ unquote (drop 10 r)"
        using sur m assms by (simp add: Let_def)
      then show ?thesis using valid_rune_prefix surrogates [of n m] sur m by (metis linorder_not_less)
    next
      case False
      then have "unquote (CHR 0x5C # CHR ''u'' # r) = replacement @ unquote ?r1"
        using sur assms by (auto simp: Let_def split: option.split)
      then show ?thesis using valid_replacement by blast
    qed
  next
    case False
    then have "unquote (CHR 0x5C # CHR ''u'' # r) = encode_rune n @ unquote ?r1"
      using assms by (auto simp: Let_def)
    moreover have "n < 0x110000" using bound by simp
    ultimately show ?thesis using valid_rune_prefix False by blast
  qed
qed

lemma valid_unquote: "valid_utf8 (unquote s)"
proof (induction "length s" arbitrary: s rule: less_induct)
  case less
  show ?case
  proof (cases s)
    case s: (Cons c cs)
    have IH: "valid_utf8 (unquote t)" if "length t \<le> length cs" for t
      using less that s by simp
    consider e r where "c = CHR 0x5C" "cs = e # r" "e \<noteq> CHR ''u''" | r where "c = CHR 0x5C" "cs = CHR ''u'' # r"
      | "c = CHR 0x5C" "cs = []" | "c \<noteq> CHR 0x5C" "(of_char c :: nat) < 0x80"
      | "c \<noteq> CHR 0x5C" "\<not> (of_char c :: nat) < 0x80"
      by (cases cs) auto
    then show ?thesis
    proof cases
      case 1
      then show ?thesis
        using IH [of r] unescape_ascii [of e] by (auto simp: s intro: valid_ascii_Cons split: option.split)
    next
      case 2
      show ?thesis
      proof (cases "getu4 r")
        case (Some n)
        obtain x k where "unquote (CHR 0x5C # CHR ''u'' # r) = x @ unquote (drop k r)"
          and "\<forall>t. valid_utf8 t \<longrightarrow> valid_utf8 (x @ t)"
          using unquote_escape_u [OF Some] by blast
        then show ?thesis using IH [of "drop k r"] by (simp add: s 2 del: unquote.simps)
      qed (simp add: s 2)
    next
      case 5
      let ?k = "utf8_len c cs"
      show ?thesis
      proof (cases "?k = 0")
        case True
        then show ?thesis using 5 IH [of cs] by (simp add: s Let_def valid_replacement)
      next
        case False
        then have "unquote s = (c # take (?k - 1) cs) @ unquote (drop (?k - 1) cs)"
          using 5 by (simp add: s Let_def)
        moreover have "valid_utf8 ((c # take (?k - 1) cs) @ unquote (drop (?k - 1) cs))"
          using replace_invalid_sequence [OF False] by (intro valid_prefix IH) simp_all
        ultimately show ?thesis by simp
      qed
    qed (use IH [of cs] in \<open>simp_all add: s valid_ascii_Cons\<close>)
  qed simp
qed

section \<open>Scanned values\<close>

fun texts_ok :: "json \<Rightarrow> bool" where
  "texts_ok (JString s) \<longleftrightarrow> valid_utf8 s"
| "texts_ok (JArray vs) \<longleftrightarrow> (\<forall>v \<in> set vs. texts_ok v)"
| "texts_ok (JObject ms) \<longleftrightarrow> (\<forall>kv \<in> set ms. texts_ok (snd kv))"
| "texts_ok _ \<longleftrightarrow> True"

fun frame_ok :: "frame \<Rightarrow> bool" where
  "frame_ok (InArray acc) \<longleftrightarrow> (\<forall>v \<in> set acc. texts_ok v)"
| "frame_ok (InObject acc k) \<longleftrightarrow> (\<forall>kv \<in> set acc. texts_ok (snd kv))"

fun mode_ok :: "mode \<Rightarrow> bool" where
  "mode_ok (Top v) \<longleftrightarrow> texts_ok v"
| "mode_ok (Literal xs v) \<longleftrightarrow> texts_ok v"
| "mode_ok _ \<longleftrightarrow> True"

definition scan_ok :: "scan \<Rightarrow> bool" where
  "scan_ok st \<longleftrightarrow> (\<forall>f \<in> set (fst st). frame_ok f) \<and> mode_ok (snd st)"

lemma scan_ok_pair [simp]: "scan_ok (fr, m) \<longleftrightarrow> (\<forall>f \<in> set fr. frame_ok f) \<and> mode_ok m"
  by (simp add: scan_ok_def)

lemma put_ok [simp]: "\<forall>f \<in> set fr. frame_ok f \<Longrightarrow> texts_ok v \<Longrightarrow> scan_ok (put fr v)"
  by (cases "(fr, v)" rule: put.cases) auto

lemma close_ok [simp]: "\<forall>f \<in> set fr. frame_ok f \<Longrightarrow> scan_ok (close_frame c fr)"
  by (cases "(c, fr)" rule: close_frame.cases) auto

lemma begin_ok [simp]: "\<forall>f \<in> set fr. frame_ok f \<Longrightarrow> scan_ok (begin_value fr c)"
  by (simp add: begin_value_def open_frame_def)

lemma after_ok [simp]: "scan_ok st \<Longrightarrow> scan_ok (after_value st c)"
  by (cases st) (auto split: mode.split frame.split list.split)

lemma end_string_ok [simp]: "\<forall>f \<in> set fr. frame_ok f \<Longrightarrow> scan_ok (end_string key raw fr)"
  by (cases "(key, raw, fr)" rule: end_string.cases) (auto simp: valid_unquote)

lemma step_ok: "scan_ok st \<Longrightarrow> scan_ok (scan_step st c)"
proof (induction st c rule: scan_step.induct)
  case (10 fr q raw c)
  then show ?case by (simp split: option.split)
qed (simp_all del: after_value.simps)

lemma json_value_ok:
  assumes "json_value s = Some v"
  shows "texts_ok v"
proof -
  have "scan_ok st \<Longrightarrow> scan_ok (foldl scan_step st s)" for st
    by (induction s arbitrary: st) (simp_all add: step_ok)
  then have "scan_ok (foldl scan_step ([], Begin) s)" by simp
  with assms show ?thesis
    by (auto simp: json_value_def split: prod.splits list.splits mode.splits if_splits)
qed

section \<open>Decoded values\<close>

definition keeps :: "('a \<Rightarrow> bool) \<Rightarrow> 'a decoder \<Rightarrow> bool" where
  "keeps P dec \<longleftrightarrow> (\<forall>v x. texts_ok v \<longrightarrow> P x \<longrightarrow> P (fst (dec v x)))"

lemma keeps_True: "keeps (\<lambda>_. True) dec"
  by (simp add: keeps_def)

lemma keeps_string: "keeps valid_utf8 into_string"
  by (auto simp: keeps_def into_string_def split: json.split)

lemma keeps_int: "keeps (\<lambda>i. - (2 ^ 63) \<le> i \<and> i < 2 ^ 63) into_int"
  by (auto simp: keeps_def into_int_def split: json.split option.split)

lemma keeps_field:
  assumes "keeps Q dec" and "\<And>r. P r \<Longrightarrow> Q (get r)" and "\<And>r x. P r \<Longrightarrow> Q x \<Longrightarrow> P (upd (\<lambda>_. x) r)"
  shows "keeps P (into_field get upd dec)"
  using assms by (simp add: keeps_def into_field_def case_prod_unfold Let_def)

lemma keeps_other_field: "(\<And>r x. P r \<Longrightarrow> P (upd (\<lambda>_. x) r)) \<Longrightarrow> keeps P (into_field get upd dec)"
  by (rule keeps_field [OF keeps_True]) simp_all

lemma find_field_in: "find_field fs key = Some f \<Longrightarrow> \<exists>k. (k, f) \<in> set fs"
  by (cases "map_of fs key") (fastforce simp: find_field_def dest: map_of_SomeD)+

lemma keeps_struct:
  assumes "\<forall>(k, f) \<in> set fs. keeps P f"
  shows "keeps P (into_struct fs)"
proof -
  have "P (fst (into_members fs ms r))" if "\<forall>kv \<in> set ms. texts_ok (snd kv)" and "P r" for ms r
    using assms that
  proof (induction fs ms r rule: into_members.induct)
    case (2 fs k v ms r)
    let ?x = "case find_field fs k of None \<Rightarrow> (r, True) | Some f \<Rightarrow> f v r"
    have "P (fst ?x)"
      using 2(2-4) find_field_in [of fs k] by (fastforce simp: keeps_def split: option.split)
    then show ?case using 2(1) [of ?x "fst ?x" "snd ?x"] 2(2-4) by (simp add: case_prod_unfold Let_def)
  qed simp
  then show ?thesis by (auto simp: keeps_def into_struct_def split: json.split)
qed

lemma keeps_elements:
  assumes "keeps P dec" and "P z" and "\<forall>v \<in> set vs. texts_ok v" and "\<forall>x \<in> set xs. P x"
  shows "\<forall>x \<in> set (fst (into_elements dec z vs xs)). P x"
  using assms(3,4)
proof (induction vs arbitrary: xs)
  case (Cons v vs)
  have x: "P (case xs of [] \<Rightarrow> z | x # _ \<Rightarrow> x)" and rest: "\<forall>x \<in> set (tl xs). P x"
    using Cons.prems assms(2) by (cases xs; simp)+
  have "\<forall>x \<in> set (fst (into_elements dec z vs (tl xs))). P x"
    using Cons.prems(1) rest by (intro Cons.IH) simp_all
  moreover have "P (fst (dec v (case xs of [] \<Rightarrow> z | x # _ \<Rightarrow> x)))"
    using assms(1) x Cons.prems(1) by (simp add: keeps_def)
  ultimately show ?case by (simp add: case_prod_unfold Let_def)
qed simp

lemma keeps_slice:
  assumes "keeps P dec" and "P z"
  shows "keeps (\<lambda>xs. \<forall>x \<in> set (elems xs). P x) (into_slice dec z)"
  using keeps_elements [OF assms] by (auto simp: keeps_def into_slice_def split: json.split)

lemma keeps_pointer:
  assumes "keeps P dec" and "P z"
  shows "keeps (\<lambda>p. \<forall>x. p = Some x \<longrightarrow> P x) (into_pointer dec z)"
  using assms by (auto simp: keeps_def into_pointer_def case_prod_unfold Let_def split: json.split option.split)

lemma keeps_Unmarshal: "keeps P dec \<Longrightarrow> P x \<Longrightarrow> P (fst (Unmarshal dec data x))"
  by (auto simp: keeps_def Unmarshal_def dest: json_value_ok split: option.split)

lemma keeps_decoded: "keeps P dec \<Longrightarrow> P x \<Longrightarrow> decoded (Unmarshal dec data x) = Some y \<Longrightarrow> P y"
  using keeps_Unmarshal [of P dec x data] by (auto simp: decoded_def split: if_splits)

declare replace_invalid.simps(2) [simp del] unquote.simps(2) [simp del]

end
