(* ===== verification/Mempool_File.thy ===== *)
theory Mempool_File
  imports Ledger Go_Valid
begin

text \<open>
  The queue file of \<open>internal/cli/handlers.go\<close>: the commands and the daemon hand transfers to each
  other through \<open>mempool.json\<close>. The errors of reading, decoding and writing are ignored, as in the
  code; a \<open>null\<close> in the file is a nil pointer in the queue.
\<close>

definition GetDataDir :: "path option \<Rightarrow> path" where
  "GetDataDir home = (case home of None \<Rightarrow> [''xcosh_data''] | Some dir \<Rightarrow> Join dir ''.xcosh'')"

definition transfer_tree :: "Transfer \<Rightarrow> jtree" where
  "transfer_tree tx = JObj
     [(''sender_pub_key'', JLeaf (json_bytes (tx_SenderPubKey tx))),
      (''recipient'', JLeaf (json_string (tx_Recipient tx))),
      (''value'', JLeaf (json_uint (tx_Value tx))),
      (''fee'', JLeaf (json_uint (tx_Fee tx))),
      (''nonce'', JLeaf (json_uint (tx_Nonce tx))),
      (''signature'', JLeaf (json_bytes (tx_Signature tx)))]"

definition pointer_tree :: "Transfer option \<Rightarrow> jtree" where
  "pointer_tree p = (case p of None \<Rightarrow> JLeaf ''null'' | Some tx \<Rightarrow> transfer_tree tx)"

definition mempool_json :: "Transfer option slice \<Rightarrow> bytes" where
  "mempool_json mempool = MarshalIndent ''    ''
     (case mempool of None \<Rightarrow> JLeaf ''null'' | Some txs \<Rightarrow> JArr (map pointer_tree txs))"

definition UnmarshalMempool :: "bytes \<Rightarrow> Transfer option slice" where
  "UnmarshalMempool data = fst (Unmarshal into_transfers data None)"

definition mempool_path :: "path option \<Rightarrow> path" where
  "mempool_path home = Join (GetDataDir home) ''mempool.json''"

definition SaveMempoolToDisk :: "path option \<Rightarrow> Transfer option slice \<Rightarrow> disk \<Rightarrow> disk" where
  "SaveMempoolToDisk home mempool d = snd (WriteFile (mempool_path home) (mempool_json mempool) d)"

definition LoadMempoolFromDisk :: "path option \<Rightarrow> disk \<Rightarrow> Transfer option slice" where
  "LoadMempoolFromDisk home d =
     (case ReadFile (mempool_path home) d of None \<Rightarrow> None | Some data \<Rightarrow> UnmarshalMempool data)"

section \<open>Reading the queue back\<close>

definition queued_ok :: "Transfer option \<Rightarrow> bool" where
  "queued_ok p \<longleftrightarrow> (\<forall>tx. p = Some tx \<longrightarrow> valid_utf8 (tx_Recipient tx))"

definition pointer_value :: "Transfer option \<Rightarrow> json" where
  "pointer_value p = (case p of None \<Rightarrow> JNull | Some tx \<Rightarrow> transfer_value tx)"

lemma pointer_tree_reads: "tree_reads (Suc 0) (pointer_tree p) (pointer_value p)"
proof (cases p)
  case None
  then show ?thesis
    using tree_leaf [OF reads_mono [OF reads_whole_reads [OF reads_null], of "Suc 0"]]
    by (simp add: pointer_tree_def pointer_value_def)
next
  case (Some tx)
  have "tree_whole (Suc 0) (transfer_tree tx) (transfer_value tx)"
    unfolding transfer_tree_def transfer_value_def
    by (rule tree_object_plain)
       (auto simp: transfer_keys intro: tree_leaf reads_whole_reads)
  then show ?thesis by (simp add: Some pointer_tree_def pointer_value_def tree_whole_reads)
qed

lemma into_pointer_value: "into_pointer into_transfer zero_Transfer (pointer_value p) q = (map_option stored_transfer p, True)"
proof (cases p)
  case (Some tx)
  then show ?thesis using into_transfer_value [of tx] by (simp add: pointer_value_def into_pointer_def transfer_value_def)
qed (simp add: pointer_value_def into_pointer_def)

lemma UnmarshalMempool_saved:
  assumes "\<forall>p \<in> set ps. queued_ok p"
  shows "UnmarshalMempool (mempool_json (Some ps)) = Some ps"
proof -
  have "list_all2 (tree_reads (Suc 0)) (map pointer_tree ps) (map pointer_value ps)"
    unfolding list.rel_map by (rule list.rel_refl) (rule pointer_tree_reads)
  then have tree: "tree_whole 2 (JArr (map pointer_tree ps)) (JArray (map pointer_value ps))"
    unfolding numeral_2_eq_2 by (rule tree_array)
  have "list_all2 (\<lambda>v p. \<forall>q. into_pointer into_transfer zero_Transfer v q = (p, True)) (map pointer_value ps) ps"
    unfolding list.rel_map
  proof (rule list.rel_refl_strong)
    fix p assume "p \<in> set ps"
    with assms show "\<forall>q. into_pointer into_transfer zero_Transfer (pointer_value p) q = (p, True)"
      by (cases p) (auto simp: into_pointer_value queued_ok_def stored_transfer_same)
  qed
  then show ?thesis
    by (simp add: UnmarshalMempool_def mempool_json_def Unmarshal_indent [OF tree] maxNestingDepth_def
        json_space_def into_transfers_def into_slice_ok)
qed

text \<open>What was read can be written.\<close>

lemma keeps_transfer: "keeps (\<lambda>tx. valid_utf8 (tx_Recipient tx)) into_transfer"
proof -
  have "keeps (\<lambda>tx. valid_utf8 (tx_Recipient tx)) (into_field tx_Recipient tx_Recipient_update into_string)"
    by (rule keeps_field [OF keeps_string]) simp_all
  then show ?thesis
    unfolding into_transfer_def by (intro keeps_struct) (simp add: Transfer_fields_def keeps_other_field)
qed

lemma loaded_mempool_ok: "\<forall>p \<in> set (elems (LoadMempoolFromDisk home d)). queued_ok p"
proof -
  have "keeps queued_ok (into_pointer into_transfer zero_Transfer)"
    unfolding queued_ok_def by (rule keeps_pointer [OF keeps_transfer]) (simp add: zero_Transfer_def)
  then have "keeps (\<lambda>ps. \<forall>p \<in> set (elems ps). queued_ok p) into_transfers"
    unfolding into_transfers_def by (rule keeps_slice) (simp add: queued_ok_def)
  then have "\<forall>p \<in> set (elems (UnmarshalMempool data)). queued_ok p" for data
    unfolding UnmarshalMempool_def by (rule keeps_Unmarshal) simp
  then show ?thesis by (simp add: LoadMempoolFromDisk_def split: option.split)
qed

lemma load_saved_mempool:
  assumes "dk_readable d (mempool_path home)" and "dk_writable d (mempool_path home)"
    and "\<forall>p \<in> set ps. queued_ok p"
  shows "LoadMempoolFromDisk home (SaveMempoolToDisk home (Some ps) d) = Some ps"
  using assms by (simp add: LoadMempoolFromDisk_def SaveMempoolToDisk_def ReadFile_WriteFile UnmarshalMempool_saved)

text \<open>The empty queue as the daemon writes it.\<close>

lemma mempool_json_empty: "mempool_json (Some []) = ''[]''"
  by (simp add: mempool_json_def MarshalIndent_def)

end
