(* ===== verification/Settings.thy ===== *)
theory Settings
  imports Go_Text
begin

text \<open>
  \<open>internal/settings.go\<close>: the configuration file and the cookie. \<open>LoadConfig\<close> starts from the
  defaults, lets the lines of \<open>xcosh.conf\<close> override them in their order, and when neither user
  nor password is set takes the two from the cookie file, which it writes when there is none.
  The 32 random bytes are an argument.
\<close>

record Config =
  cfg_DataDir :: path
  cfg_Port :: string
  cfg_RPCPort :: string
  cfg_RPCUser :: string
  cfg_RPCPassword :: string
  cfg_CookieString :: string

definition default_config :: "path \<Rightarrow> Config" where
  "default_config dataDir =
     \<lparr>cfg_DataDir = dataDir, cfg_Port = '':19333'', cfg_RPCPort = ''19332'', cfg_RPCUser = [],
      cfg_RPCPassword = [], cfg_CookieString = []\<rparr>"

definition set_option :: "string \<Rightarrow> string \<Rightarrow> Config \<Rightarrow> Config" where
  "set_option key val cfg =
     (if key = ''port'' then
        (if \<not> HasPrefix val '':'' then cfg\<lparr>cfg_Port := CHR '':'' # val\<rparr> else cfg\<lparr>cfg_Port := val\<rparr>)
      else if key = ''rpcport'' then cfg\<lparr>cfg_RPCPort := val\<rparr>
      else if key = ''rpcuser'' then cfg\<lparr>cfg_RPCUser := val\<rparr>
      else if key = ''rpcpassword'' then cfg\<lparr>cfg_RPCPassword := val\<rparr>
      else cfg)"

definition config_line :: "string \<Rightarrow> Config \<Rightarrow> Config" where
  "config_line text cfg =
     (let line = TrimSpace text in
      if line = [] \<or> HasPrefix line ''#'' then cfg
      else
        case SplitN2 line (CHR ''='') of
          [k, v] \<Rightarrow> set_option (TrimSpace k) (TrimSpace v) cfg
        | _ \<Rightarrow> cfg)"

definition config_file :: "bytes option \<Rightarrow> Config \<Rightarrow> Config" where
  "config_file content cfg =
     (case content of None \<Rightarrow> cfg | Some text \<Rightarrow> fold config_line (Scanner_lines text) cfg)"

definition cookie_data :: "bytes \<Rightarrow> string" where
  "cookie_data randomBytes = ''__cookie__:'' @ hex_encode randomBytes"

definition use_cookie :: "bytes option \<Rightarrow> Config \<Rightarrow> Config" where
  "use_cookie content cfg =
     (case content of
        None \<Rightarrow> cfg
      | Some cookie \<Rightarrow>
          (case SplitN2 cookie (CHR '':'') of
             [user, pass] \<Rightarrow>
               cfg\<lparr>cfg_CookieString := cookie, cfg_RPCUser := user, cfg_RPCPassword := pass\<rparr>
           | _ \<Rightarrow> cfg\<lparr>cfg_CookieString := cookie\<rparr>))"

text \<open>The configuration is returned in every case; the flag says whether an error is returned
  with it.\<close>

definition LoadConfig :: "bytes \<Rightarrow> path \<Rightarrow> disk \<Rightarrow> bool \<times> Config \<times> disk" where
  "LoadConfig randomBytes dataDir d =
     (let cfg = default_config dataDir in
      if \<not> MkdirAll dataDir d then (True, cfg, d)
      else
        let cfg1 = config_file (ReadFile (Join dataDir ''xcosh.conf'') d) cfg;
            cookiePath = Join dataDir ''.cookie''
        in if cfg_RPCUser cfg1 = [] \<and> cfg_RPCPassword cfg1 = [] then
             let d1 = (if IsNotExist cookiePath d
                       then snd (WriteFile cookiePath (cookie_data randomBytes) d) else d)
             in (False, use_cookie (ReadFile cookiePath d1) cfg1, d1)
           else (False, cfg1, d))"

section \<open>The port\<close>

text \<open>What every line keeps: the port starts with a colon.\<close>

definition port_ok :: "Config \<Rightarrow> bool" where
  "port_ok cfg \<longleftrightarrow> HasPrefix (cfg_Port cfg) '':''"

lemma config_line_port: "port_ok cfg \<Longrightarrow> port_ok (config_line l cfg)"
  by (auto simp: port_ok_def config_line_def set_option_def HasPrefix_def Let_def
      split: list.splits if_splits)

lemma config_lines_port: "port_ok cfg \<Longrightarrow> port_ok (fold config_line ls cfg)"
  by (induction ls arbitrary: cfg) (simp_all add: config_line_port)

lemma use_cookie_port: "cfg_Port (use_cookie c cfg) = cfg_Port cfg"
  by (simp add: use_cookie_def split: option.splits list.splits)

lemma LoadConfig_port_ok: "port_ok (fst (snd (LoadConfig rnd dir d)))"
proof -
  have d: "port_ok (default_config dir)" by (simp add: port_ok_def default_config_def HasPrefix_def)
  then have f: "port_ok (config_file c (default_config dir))" for c
    by (simp add: config_file_def config_lines_port split: option.splits)
  with d show ?thesis
    by (simp add: LoadConfig_def Let_def port_ok_def use_cookie_port)
qed

section \<open>Assignments\<close>

text \<open>A line \<open>key=value\<close> of printable characters assigns the value.\<close>

definition assignment :: "string \<Rightarrow> string \<Rightarrow> string" where
  "assignment key val = key @ CHR ''='' # val"

lemma printable_eq: "printable (CHR ''='')"
  by (simp add: printable_def)

lemma config_line_assignment:
  assumes "\<forall>c \<in> set key. printable c" and "\<forall>c \<in> set val. printable c"
    and "CHR ''='' \<notin> set key" and "\<not> HasPrefix key ''#''" and "key \<noteq> []"
  shows "config_line (assignment key val) cfg = set_option key val cfg"
proof -
  have "TrimSpace (assignment key val) = assignment key val"
    using assms(1,2) printable_eq by (intro TrimSpace_printable) (auto simp: assignment_def)
  moreover have "\<not> HasPrefix (assignment key val) ''#''"
    using assms(4,5) by (cases key) (simp_all add: assignment_def HasPrefix_def)
  ultimately show ?thesis
    using assms by (simp add: config_line_def Let_def TrimSpace_printable)
      (simp add: assignment_def TrimSpace_printable)
qed

text \<open>A file of such lines.\<close>

definition render_config :: "(string \<times> string) list \<Rightarrow> bytes" where
  "render_config kvs = concat (map (\<lambda>(k, v). assignment k v @ [CHR 0x0A]) kvs)"

definition clean_entry :: "string \<times> string \<Rightarrow> bool" where
  "clean_entry kv \<longleftrightarrow>
     (\<forall>c \<in> set (fst kv @ snd kv). printable c) \<and> CHR ''='' \<notin> set (fst kv) \<and>
     \<not> HasPrefix (fst kv) ''#'' \<and> fst kv \<noteq> [] \<and> length (fst kv) + length (snd kv) < 65535"

lemma printable_no_newline: "\<forall>c \<in> set s. printable c \<Longrightarrow> CHR 0x0A \<notin> set s"
  by (auto simp: printable_def)

lemma Scanner_render:
  assumes "\<forall>kv \<in> set kvs. clean_entry kv"
  shows "Scanner_lines (render_config kvs) = map (\<lambda>(k, v). assignment k v) kvs"
  using assms
proof (induction kvs)
  case Nil
  show ?case by (simp add: Scanner_lines_def render_config_def)
next
  case (Cons kv kvs)
  obtain k v where kv: "kv = (k, v)" by (cases kv)
  have "\<forall>c \<in> set (assignment k v). printable c"
    using Cons.prems printable_eq by (auto simp: kv clean_entry_def assignment_def)
  then have "CHR 0x0A \<notin> set (assignment k v)" "drop_cr (assignment k v) = assignment k v"
    by (rule printable_no_newline, rule drop_cr_printable)
  moreover have "length (assignment k v) < 65536"
    using Cons.prems by (simp add: kv clean_entry_def assignment_def)
  moreover have "Scanner_lines (render_config kvs) = map (\<lambda>(k, v). assignment k v) kvs"
    using Cons by simp
  ultimately show ?case by (simp add: kv Scanner_lines_def render_config_def)
qed

lemma config_file_render:
  assumes "\<forall>kv \<in> set kvs. clean_entry kv"
  shows "config_file (Some (render_config kvs)) cfg = fold (\<lambda>(k, v). set_option k v) kvs cfg"
proof -
  have "fold config_line (map (\<lambda>(k, v). assignment k v) kvs) cfg = fold (\<lambda>(k, v). set_option k v) kvs cfg"
    using assms
  proof (induction kvs arbitrary: cfg)
    case (Cons kv kvs)
    then show ?case
      by (cases kv) (auto simp: clean_entry_def config_line_assignment)
  qed simp
  then show ?thesis by (simp add: config_file_def Scanner_render [OF assms])
qed

text \<open>Folding assignments: the last one of a key wins.\<close>

definition last_value :: "string \<Rightarrow> string \<Rightarrow> (string \<times> string) list \<Rightarrow> string" where
  "last_value key dflt kvs = (case map_of (rev kvs) key of None \<Rightarrow> dflt | Some v \<Rightarrow> v)"

lemma last_value_snoc:
  "last_value key dflt (kvs @ [(k, v)]) = (if k = key then v else last_value key dflt kvs)"
  by (simp add: last_value_def)

lemma fold_set_option:
  "cfg_RPCPort (fold (\<lambda>(k, v). set_option k v) kvs cfg) = last_value ''rpcport'' (cfg_RPCPort cfg) kvs"
  "cfg_RPCUser (fold (\<lambda>(k, v). set_option k v) kvs cfg) = last_value ''rpcuser'' (cfg_RPCUser cfg) kvs"
  "cfg_RPCPassword (fold (\<lambda>(k, v). set_option k v) kvs cfg)
     = last_value ''rpcpassword'' (cfg_RPCPassword cfg) kvs"
  by (induction kvs rule: rev_induct) (auto simp: last_value_def set_option_def)

section \<open>The cookie\<close>

lemma cookie_split: "SplitN2 (cookie_data rnd) (CHR '':'') = [''__cookie__'', hex_encode rnd]"
  using SplitN2_append [of "CHR '':''" "''__cookie__''" "hex_encode rnd"]
  by (simp add: cookie_data_def)

text \<open>With no user and no password in the file, the credentials are those of the cookie, which is
  there afterwards.\<close>

lemma LoadConfig_cookie:
  assumes "MkdirAll dir d" and "dk_readable d (Join dir ''.cookie'')"
    and "dk_writable d (Join dir ''.cookie'')"
    and cfg: "config_file (ReadFile (Join dir ''xcosh.conf'') d) (default_config dir) = cfg"
    and "cfg_RPCUser cfg = []" and "cfg_RPCPassword cfg = []"
    and "LoadConfig rnd dir d = (e, cfg', d')"
  shows "dk_file d' (Join dir ''.cookie'') =
      Some (case dk_file d (Join dir ''.cookie'') of None \<Rightarrow> cookie_data rnd | Some c \<Rightarrow> c)"
    and "\<And>p. p \<noteq> Join dir ''.cookie'' \<Longrightarrow> dk_file d' p = dk_file d p"
    and "dk_readable d' = dk_readable d" and "dk_writable d' = dk_writable d"
    and "dk_makable d' = dk_makable d" and "\<not> e"
    and "cfg' = use_cookie (dk_file d' (Join dir ''.cookie'')) cfg"
  using assms
  by (auto simp: LoadConfig_def Let_def IsNotExist_def ReadFile_def WriteFile_def
      split: option.splits if_splits)

end
