(* ===== verification/Wallet.thy ===== *)
theory Wallet
  imports Go_Valid Crypto
begin

text \<open>
  \<open>storage/wallet/wallet.go\<close>: the file of key pairs. The file is written as indented JSON and
  read back by \<open>json.Unmarshal\<close>; keys are kept in hexadecimal and looked up by address. \<open>crypto.GenerateKey\<close> and the marshalling of
  keys cannot fail on a generated pair.
\<close>

record Account =
  ac_Address :: string
  ac_PublicKey :: string
  ac_PrivateKey :: string

record WalletFile =
  wf_Version :: int
  wf_Accounts :: "Account list"

definition account_json :: "Account \<Rightarrow> jtree" where
  "account_json a =
     JObj [(''address'', JLeaf (json_string (ac_Address a))),
           (''public_key'', JLeaf (json_string (ac_PublicKey a))),
           (''private_key'', JLeaf (json_string (ac_PrivateKey a)))]"

definition wallet_json :: "WalletFile \<Rightarrow> bytes" where
  "wallet_json w = MarshalIndent ''  ''
     (JObj [(''version'', JLeaf (int_text (wf_Version w))),
            (''accounts'', JArr (map account_json (wf_Accounts w)))])"

text \<open>\<open>~/.xcosh\<close>, or \<open>./.xcosh\<close> when there is no home directory.\<close>

definition wallet_getDataDir :: "path option \<Rightarrow> path" where
  "wallet_getDataDir home = (case home of None \<Rightarrow> Join [] ''.xcosh'' | Some dir \<Rightarrow> Join dir ''.xcosh'')"

definition SaveWalletCustom :: "path \<Rightarrow> WalletFile \<Rightarrow> disk \<Rightarrow> bool \<times> disk" where
  "SaveWalletCustom filePath w d =
     (if \<not> MkdirAll (butlast filePath) d then (False, d)
      else WriteFile filePath (wallet_json w) d)"

text \<open>\<open>json.Unmarshal\<close> of the file. A nil list of accounts is not told from an empty one: neither is
  written again.\<close>

definition zero_Account :: Account where
  "zero_Account = \<lparr>ac_Address = [], ac_PublicKey = [], ac_PrivateKey = []\<rparr>"

definition Account_fields :: "Account fields" where
  "Account_fields =
     [(''address'', into_field ac_Address ac_Address_update into_string),
      (''public_key'', into_field ac_PublicKey ac_PublicKey_update into_string),
      (''private_key'', into_field ac_PrivateKey ac_PrivateKey_update into_string)]"

definition into_accounts :: "Account list decoder" where
  "into_accounts v accs = apfst elems (into_slice (into_struct Account_fields) zero_Account v (Some accs))"

definition WalletFile_fields :: "WalletFile fields" where
  "WalletFile_fields =
     [(''version'', into_field wf_Version wf_Version_update into_int),
      (''accounts'', into_field wf_Accounts wf_Accounts_update into_accounts)]"

definition UnmarshalWallet :: "bytes \<Rightarrow> WalletFile option" where
  "UnmarshalWallet data =
     decoded (Unmarshal (into_struct WalletFile_fields) data \<lparr>wf_Version = 0, wf_Accounts = []\<rparr>)"

definition LoadWalletCustom :: "path \<Rightarrow> disk \<Rightarrow> WalletFile option" where
  "LoadWalletCustom filePath d =
     (case ReadFile filePath d of None \<Rightarrow> None | Some data \<Rightarrow> UnmarshalWallet data)"

definition LoadWallet :: "path option \<Rightarrow> disk \<Rightarrow> WalletFile option" where
  "LoadWallet home d = LoadWalletCustom (Join (wallet_getDataDir home) ''wallet.dat'') d"

definition SaveWallet :: "path option \<Rightarrow> WalletFile \<Rightarrow> disk \<Rightarrow> bool \<times> disk" where
  "SaveWallet home w d = SaveWalletCustom (Join (wallet_getDataDir home) ''wallet.dat'') w d"

text \<open>The new account of both constructors: \<open>None\<close> when no key pair is generated, a panic when
  the key is shorter than an address needs.\<close>

definition new_account :: "('pub, 'priv) crypto_lib \<Rightarrow> bytes \<Rightarrow> Account option outcome" where
  "new_account L rand =
     (case GenerateKey L rand of
        None \<Rightarrow> Ret None
      | Some (pub, priv) \<Rightarrow>
          let pubBytes = mode3_MarshalPub L pub; privBytes = mode3_MarshalPriv L priv
          in obind (PubkeyToAddress pubBytes) (\<lambda>addr.
               Ret (Some \<lparr>ac_Address = addr, ac_PublicKey = hex_encode pubBytes,
                          ac_PrivateKey = hex_encode privBytes\<rparr>)))"

text \<open>The result of saving a new wallet is ignored.\<close>

definition CreateOrLoadWalletCustom ::
  "('pub, 'priv) crypto_lib \<Rightarrow> bytes \<Rightarrow> path \<Rightarrow> disk
     \<Rightarrow> (WalletFile option \<times> disk) outcome" where
  "CreateOrLoadWalletCustom L rand filePath d =
     (let loaded = LoadWalletCustom filePath d in
      case loaded of
        Some w \<Rightarrow>
          if wf_Accounts w \<noteq> [] then Ret (Some w, d)
          else obind (new_account L rand) (\<lambda>acc.
            case acc of
              None \<Rightarrow> Ret (None, d)
            | Some a \<Rightarrow>
                let w1 = \<lparr>wf_Version = 1, wf_Accounts = [a]\<rparr>
                in Ret (Some w1, snd (SaveWalletCustom filePath w1 d)))
      | None \<Rightarrow> obind (new_account L rand) (\<lambda>acc.
            case acc of
              None \<Rightarrow> Ret (None, d)
            | Some a \<Rightarrow>
                let w1 = \<lparr>wf_Version = 1, wf_Accounts = [a]\<rparr>
                in Ret (Some w1, snd (SaveWalletCustom filePath w1 d))))"

definition CreateOrLoadWallet ::
  "('pub, 'priv) crypto_lib \<Rightarrow> bytes \<Rightarrow> path option \<Rightarrow> disk
     \<Rightarrow> (WalletFile option \<times> disk) outcome" where
  "CreateOrLoadWallet L rand home d =
     CreateOrLoadWalletCustom L rand (Join (wallet_getDataDir home) ''wallet.dat'') d"

text \<open>The address of the new account, \<open>None\<close> for an error.\<close>

definition GenerateNewAccount ::
  "('pub, 'priv) crypto_lib \<Rightarrow> bytes \<Rightarrow> path \<Rightarrow> disk
     \<Rightarrow> (string option \<times> disk) outcome" where
  "GenerateNewAccount L rand filePath d =
     (let w = (case LoadWalletCustom filePath d of
                  None \<Rightarrow> \<lparr>wf_Version = 1, wf_Accounts = []\<rparr>
                | Some w \<Rightarrow> w)
      in obind (new_account L rand) (\<lambda>acc.
           case acc of
             None \<Rightarrow> Ret (None, d)
           | Some a \<Rightarrow>
               let (saved, d1) = SaveWalletCustom filePath
                     (w\<lparr>wf_Accounts := wf_Accounts w @ [a]\<rparr>) d
               in Ret (if saved then Some (ac_Address a) else None, d1)))"

text \<open>\<open>hex.DecodeString\<close> returns the bytes before the first error, which is ignored here.\<close>

fun hex_prefix :: "string \<Rightarrow> bytes" where
  "hex_prefix (a # b # s) =
     (case (digit_val a, digit_val b) of
        (Some x, Some y) \<Rightarrow> char_of (x * 16 + y) # hex_prefix s
      | _ \<Rightarrow> [])"
| "hex_prefix _ = []"

datatype wallet_error = BadPrivateKey | AccountNotFound

definition GetPrivateKeyInstance ::
  "('pub, 'priv) crypto_lib \<Rightarrow> WalletFile \<Rightarrow> string \<Rightarrow> wallet_error + ('priv \<times> bytes)" where
  "GetPrivateKeyInstance L w targetAddress =
     (case find (\<lambda>acc. ac_Address acc = targetAddress) (wf_Accounts w) of
        None \<Rightarrow> Inl AccountNotFound
      | Some acc \<Rightarrow>
          (case mode3_UnmarshalPriv L (hex_prefix (ac_PrivateKey acc)) of
             None \<Rightarrow> Inl BadPrivateKey
           | Some priv \<Rightarrow> Inr (priv, hex_prefix (ac_PublicKey acc))))"

section \<open>What the operations keep\<close>

lemma hex_prefix_decode: "hex_decode s = Some bs \<Longrightarrow> hex_prefix s = bs"
proof (induction s arbitrary: bs rule: hex_decode.induct)
  case (3 a b s)
  then show ?case by (auto split: option.splits)
qed simp_all

lemma hex_prefix_encode [simp]: "hex_prefix (hex_encode bs) = bs"
  by (rule hex_prefix_decode) simp

text \<open>An account of a generated pair.\<close>

definition account_of :: "('pub, 'priv) crypto_lib \<Rightarrow> 'pub \<Rightarrow> 'priv \<Rightarrow> Account \<Rightarrow> bool" where
  "account_of L pub priv a \<longleftrightarrow>
     PubkeyToAddress (mode3_MarshalPub L pub) = Ret (ac_Address a) \<and>
     ac_PublicKey a = hex_encode (mode3_MarshalPub L pub) \<and>
     ac_PrivateKey a = hex_encode (mode3_MarshalPriv L priv)"

lemma new_account_of:
  assumes "new_account L rand = Ret (Some a)"
  obtains pub priv where "GenerateKey L rand = Some (pub, priv)" and "account_of L pub priv a"
  using assms
  by (auto simp: new_account_def account_of_def Let_def obind_Ret_iff split: option.splits prod.splits)

lemma GetPrivateKeyInstance_account:
  assumes "find (\<lambda>acc. ac_Address acc = addr) (wf_Accounts w) = Some a"
    and "account_of L pub priv a" and "key_pair L pub priv"
  shows "GetPrivateKeyInstance L w addr = Inr (priv, mode3_MarshalPub L pub)"
  using assms by (simp add: GetPrivateKeyInstance_def account_of_def key_pair_def)

lemma GetPrivateKeyInstance_cong:
  "find (\<lambda>acc. ac_Address acc = addr) (wf_Accounts w)
     = find (\<lambda>acc. ac_Address acc = addr) (wf_Accounts w') \<Longrightarrow>
   GetPrivateKeyInstance L w addr = GetPrivateKeyInstance L w' addr"
  by (simp add: GetPrivateKeyInstance_def)

lemma find_append:
  "find P (xs @ ys) = (case find P xs of None \<Rightarrow> find P ys | Some x \<Rightarrow> Some x)"
  by (induction xs) simp_all

text \<open>An account added at the end hides none that was there.\<close>

lemma GetPrivateKeyInstance_added:
  assumes "GetPrivateKeyInstance L w addr \<noteq> Inl AccountNotFound"
  shows "GetPrivateKeyInstance L (w\<lparr>wf_Accounts := wf_Accounts w @ [a]\<rparr>) addr
    = GetPrivateKeyInstance L w addr"
proof -
  obtain b where "find (\<lambda>acc. ac_Address acc = addr) (wf_Accounts w) = Some b"
    using assms by (auto simp: GetPrivateKeyInstance_def split: option.splits)
  then show ?thesis by (intro GetPrivateKeyInstance_cong) (simp add: find_append)
qed

section \<open>Reading the file back\<close>

text \<open>What the file can hold: a version in range, and texts that are UTF-8.\<close>

definition account_texts :: "Account \<Rightarrow> bool" where
  "account_texts a \<longleftrightarrow> valid_utf8 (ac_Address a) \<and> valid_utf8 (ac_PublicKey a) \<and> valid_utf8 (ac_PrivateKey a)"

definition wallet_texts :: "WalletFile \<Rightarrow> bool" where
  "wallet_texts w \<longleftrightarrow> (- (2 ^ 63) \<le> wf_Version w \<and> wf_Version w < 2 ^ 63) \<and> (\<forall>a \<in> set (wf_Accounts w). account_texts a)"

definition account_value :: "Account \<Rightarrow> json" where
  "account_value a = JObject [(''address'', JString (ac_Address a)), (''public_key'', JString (ac_PublicKey a)),
     (''private_key'', JString (ac_PrivateKey a))]"

lemma tree_string: "valid_utf8 s \<Longrightarrow> tree_reads 0 (JLeaf (json_string s)) (JString s)"
  using tree_leaf [OF reads_whole_reads [OF reads_string [of s]]] by (simp add: valid_utf8_def)

lemma wallet_keys:
  "plain_key ''address''" "plain_key ''public_key''" "plain_key ''private_key''" "plain_key ''version''"
  "plain_key ''accounts''"
  by (rule plain_key_ascii, simp)+

lemma account_tree: "account_texts a \<Longrightarrow> tree_whole (Suc 0) (account_json a) (account_value a)"
  unfolding account_json_def account_value_def
  by (rule tree_object_plain) (simp add: account_texts_def wallet_keys tree_string)

lemma wallet_tree:
  assumes "wallet_texts w"
  shows "tree_whole 3
     (JObj [(''version'', JLeaf (int_text (wf_Version w))), (''accounts'', JArr (map account_json (wf_Accounts w)))])
     (JObject [(''version'', JNumber (int_text (wf_Version w))),
       (''accounts'', JArray (map account_value (wf_Accounts w)))])"
proof -
  have "list_all2 (tree_reads (Suc 0)) (map account_json (wf_Accounts w)) (map account_value (wf_Accounts w))"
    unfolding list.rel_map
    by (rule list.rel_refl_strong) (use assms in \<open>auto simp: wallet_texts_def intro: tree_whole_reads account_tree\<close>)
  then have accounts: "tree_reads 2 (JArr (map account_json (wf_Accounts w))) (JArray (map account_value (wf_Accounts w)))"
    unfolding numeral_2_eq_2 by (intro tree_whole_reads tree_array)
  have version: "tree_reads 2 (JLeaf (int_text (wf_Version w))) (JNumber (int_text (wf_Version w)))"
    by (rule tree_leaf, rule reads_mono, rule reads_int) simp
  show ?thesis
    unfolding numeral_3_eq_3 numeral_2_eq_2 [symmetric]
    by (rule tree_object_plain) (simp add: wallet_keys accounts version)
qed

lemma into_account_value:
  "into_struct Account_fields (account_value a) r = (a, True)"
  by (simp add: into_struct_def account_value_def Account_fields_def find_field_exact into_field_def)

lemma into_accounts_value: "into_accounts (JArray (map account_value accs)) xs = (accs, True)"
proof -
  have "list_all2 (\<lambda>v x. \<forall>y. into_struct Account_fields v y = (x, True)) (map account_value accs) accs"
    unfolding list.rel_map by (rule list.rel_refl) (simp add: into_account_value)
  then show ?thesis by (simp add: into_accounts_def into_slice_ok)
qed

lemma UnmarshalWallet_saved: "wallet_texts w \<Longrightarrow> UnmarshalWallet (wallet_json w) = Some w"
  by (simp add: UnmarshalWallet_def wallet_json_def Unmarshal_indent [OF wallet_tree] maxNestingDepth_def
      json_space_def into_struct_def WalletFile_fields_def find_field_exact into_field_def
      into_accounts_value into_int_text wallet_texts_def decoded_def)

text \<open>What was read can be written, and so can a new account.\<close>

lemma keeps_account: "keeps account_texts (into_struct Account_fields)"
  by (rule keeps_struct) (auto simp: Account_fields_def account_texts_def intro!: keeps_field [OF keeps_string])

lemma keeps_wallet: "keeps wallet_texts (into_struct WalletFile_fields)"
proof (rule keeps_struct)
  have "account_texts zero_Account" by (simp add: account_texts_def zero_Account_def)
  from keeps_slice [OF keeps_account this]
  have "keeps (\<lambda>accs. \<forall>a \<in> set accs. account_texts a) into_accounts"
    unfolding keeps_def into_accounts_def fst_apfst by (metis elems_simps(2))
  then have "keeps wallet_texts (into_field wf_Accounts wf_Accounts_update into_accounts)"
    by (rule keeps_field) (simp_all add: wallet_texts_def)
  moreover have "keeps wallet_texts (into_field wf_Version wf_Version_update into_int)"
    by (rule keeps_field [OF keeps_int]) (simp_all add: wallet_texts_def)
  ultimately show "\<forall>(k, f) \<in> set WalletFile_fields. keeps wallet_texts f"
    by (simp add: WalletFile_fields_def)
qed

lemma loaded_wallet_texts: "LoadWalletCustom filePath d = Some w \<Longrightarrow> wallet_texts w"
  unfolding LoadWalletCustom_def UnmarshalWallet_def
  by (auto simp: wallet_texts_def split: option.splits dest: keeps_decoded [OF keeps_wallet, rotated])

lemma hex_ascii: "\<forall>c \<in> set (hex_encode bs). (of_char c :: nat) < 0x80"
proof -
  have digits: "\<forall>d \<in> {0..<16}. (of_char (digit_char d) :: nat) < 0x80" by code_simp
  have "(of_char b :: nat) div 16 \<in> {0..<16}" "(of_char b :: nat) mod 16 \<in> {0..<16}" for b
    using nat_of_char_less_256 [of b] by (auto simp: less_mult_imp_div_less)
  with digits show ?thesis by (induction bs) (auto simp: hex_byte_def Let_def)
qed

lemma address_ascii: "PubkeyToAddress bs = Ret addr \<Longrightarrow> valid_utf8 addr"
  using hex_ascii by (auto simp: PubkeyToAddress_def Let_def split: if_splits intro!: valid_utf8_ascii)

lemma new_account_texts: "new_account L rand = Ret (Some a) \<Longrightarrow> account_texts a"
  by (erule new_account_of)
     (auto simp: account_of_def account_texts_def intro: address_ascii valid_utf8_ascii [OF hex_ascii])

lemma LoadWallet_saved:
  assumes "SaveWalletCustom filePath w d = (True, d')" and "dk_readable d filePath" and "wallet_texts w"
  shows "LoadWalletCustom filePath d' = Some w"
  using assms UnmarshalWallet_saved
  by (auto simp: SaveWalletCustom_def LoadWalletCustom_def ReadFile_def WriteFile_def split: if_splits)

end
