(* ===== verification/P2P_Network.thy ===== *)
theory P2P_Network
  imports Go_Indent Blocks "HOL-Library.AList"
begin

text \<open>
  \<open>internal/p2p/addrman.go\<close> and \<open>internal/p2p/network.go\<close>: the table of known addresses with its
  file, and the plain TCP server that keeps a map of connections. A Go map is an association
  list, in some order. The coding of the address file is a pair of parameters: \<open>decode\<close> is the
  map \<open>json.Unmarshal\<close> leaves, which is nil (\<open>None\<close>) after a \<open>null\<close>. A connection is a number.
\<close>

section \<open>Known addresses\<close>

record PeerAddress =
  pa_IP :: string
  pa_Port :: int
  pa_Services :: u64
  pa_LastSeen :: int
  pa_Attempts :: int

text \<open>The values are pointers: \<open>null\<close> in the file gives a nil one.\<close>

type_synonym addresses = "(string \<times> PeerAddress option) list"

record AddrManager =
  am_Addresses :: "addresses option"
  am_FilePath :: path

definition am_LoadFromDisk :: "(bytes \<Rightarrow> addresses option) \<Rightarrow> disk \<Rightarrow> AddrManager \<Rightarrow> AddrManager" where
  "am_LoadFromDisk decode d am =
     (case ReadFile (am_FilePath am) d of
        None \<Rightarrow> am
      | Some data \<Rightarrow> am\<lparr>am_Addresses := decode data\<rparr>)"

definition am_SaveToDisk :: "(addresses option \<Rightarrow> bytes) \<Rightarrow> AddrManager \<Rightarrow> disk \<Rightarrow> disk" where
  "am_SaveToDisk encode am d = snd (WriteFile (am_FilePath am) (encode (am_Addresses am)) d)"

definition NewAddrManager :: "(bytes \<Rightarrow> addresses option) \<Rightarrow> path \<Rightarrow> disk \<Rightarrow> AddrManager" where
  "NewAddrManager decode dataDir d =
     am_LoadFromDisk decode d
       \<lparr>am_Addresses = Some [], am_FilePath = Join dataDir ''peers_addrman.json''\<rparr>"

definition address_key :: "string \<Rightarrow> int \<Rightarrow> string" where
  "address_key ip port = ip @ '':'' @ int_text port"

text \<open>A new key in a nil map panics, and so does a key whose pointer is nil.\<close>

definition AddAddress ::
  "(addresses option \<Rightarrow> bytes) \<Rightarrow> string \<Rightarrow> int \<Rightarrow> int \<Rightarrow> AddrManager \<Rightarrow> disk
     \<Rightarrow> (AddrManager \<times> disk) outcome" where
  "AddAddress encode ip port now am d =
     (let key = address_key ip port;
          known = (case am_Addresses am of None \<Rightarrow> [] | Some as \<Rightarrow> as)
      in obind (case map_of known key of
             Some None \<Rightarrow> Panic ''invalid memory address or nil pointer dereference''
           | Some (Some existing) \<Rightarrow> Ret (AList.update key (Some (existing\<lparr>pa_LastSeen := now\<rparr>)) known)
           | None \<Rightarrow>
               if am_Addresses am = None then Panic ''assignment to entry in nil map''
               else Ret (AList.update key (Some
                 \<lparr>pa_IP = ip, pa_Port = port, pa_Services = 0, pa_LastSeen = now, pa_Attempts = 0\<rparr>) known))
         (\<lambda>as. let am1 = am\<lparr>am_Addresses := Some as\<rparr> in Ret (am1, am_SaveToDisk encode am1 d)))"

definition GetKnownAddresses :: "AddrManager \<Rightarrow> string list" where
  "GetKnownAddresses am = (case am_Addresses am of None \<Rightarrow> [] | Some as \<Rightarrow> map fst as)"

section \<open>The server\<close>

type_synonym MessageType = string

definition MsgTx :: MessageType where "MsgTx = ''TX''"
definition MsgBlock :: MessageType where "MsgBlock = ''BLOCK''"

record NetServer =
  ns_Address :: string
  ns_Peers :: "(string \<times> nat) list"
  ns_AddrManager :: AddrManager

definition getDataDirInternal :: "path option \<Rightarrow> path" where
  "getDataDirInternal home =
     (case home of None \<Rightarrow> Join [] ''.xcosh'' | Some dir \<Rightarrow> Join dir ''.xcosh'')"

definition peers_file :: "path option \<Rightarrow> path" where
  "peers_file home = Join (getDataDirInternal home) ''peers.json''"

definition peers_json :: "string list \<Rightarrow> bytes" where
  "peers_json addrs = MarshalIndent ''    '' (JArr (map (\<lambda>a. JLeaf (json_string a)) addrs))"

definition savePeersToDisk :: "path option \<Rightarrow> NetServer \<Rightarrow> disk \<Rightarrow> disk" where
  "savePeersToDisk home s d = snd (WriteFile (peers_file home) (peers_json (map fst (ns_Peers s))) d)"

definition NewServer :: "(bytes \<Rightarrow> addresses option) \<Rightarrow> path option \<Rightarrow> string \<Rightarrow> disk \<Rightarrow> NetServer" where
  "NewServer decode home address d =
     \<lparr>ns_Address = address, ns_Peers = [],
      ns_AddrManager = NewAddrManager decode (getDataDirInternal home) d\<rparr>"

text \<open>One turn of the accept loop, up to the start of the connection's goroutine; \<open>remote\<close> is the
  address and its text when it is a TCP one.\<close>

definition accept_turn ::
  "(addresses option \<Rightarrow> bytes) \<Rightarrow> path option \<Rightarrow> int \<Rightarrow> (string \<times> int \<times> string) option \<Rightarrow> nat
     \<Rightarrow> NetServer \<times> disk \<Rightarrow> (NetServer \<times> disk) outcome" where
  "accept_turn encode home now remote c sd =
     (case remote of
        None \<Rightarrow> Ret sd
      | Some (ip, port, peerKey) \<Rightarrow>
          obind (AddAddress encode ip port now (ns_AddrManager (fst sd)) (snd sd)) (\<lambda>(am, d).
            let s1 = (fst sd)\<lparr>ns_AddrManager := am\<rparr>;
                s2 = (if map_of (ns_Peers s1) peerKey = None
                      then s1\<lparr>ns_Peers := AList.update peerKey c (ns_Peers s1)\<rparr> else s1)
            in Ret (s2, savePeersToDisk home s2 d)))"

text \<open>When the connection ends its address is deleted, whichever connection holds it.\<close>

definition connection_ends :: "path option \<Rightarrow> string \<Rightarrow> NetServer \<times> disk \<Rightarrow> NetServer \<times> disk" where
  "connection_ends home remoteAddr sd =
     (let s1 = (fst sd)\<lparr>ns_Peers := AList.delete remoteAddr (ns_Peers (fst sd))\<rparr>
      in (s1, savePeersToDisk home s1 (snd sd)))"

definition envelope_json :: "MessageType \<Rightarrow> bytes \<Rightarrow> bytes" where
  "envelope_json t payload = json_object [(''type'', json_string t), (''payload'', payload)]"

text \<open>\<open>write\<close> is whether a connection takes the bytes; the result is what was sent where, and the
  server without the connections that failed.\<close>

definition Broadcast ::
  "(nat \<Rightarrow> bool) \<Rightarrow> MessageType \<Rightarrow> bytes \<Rightarrow> NetServer \<Rightarrow> (nat \<times> bytes) list \<times> NetServer" where
  "Broadcast write t payload s =
     (let out = envelope_json t payload @ [CHR 0x0A]
      in foldl (\<lambda>(sent, s1) (addr, c).
           (sent @ [(c, out)],
            if write c then s1 else s1\<lparr>ns_Peers := AList.delete addr (ns_Peers s1)\<rparr>))
         ([], s) (ns_Peers s))"

datatype connect_error = AlreadyConnectedTo string | DialFailed

text \<open>\<open>dial\<close> is the new connection, if there is one. The port is what \<open>Sscanf\<close> reads, 0 when it
  reads nothing.\<close>

definition ConnectToPeer ::
  "(addresses option \<Rightarrow> bytes) \<Rightarrow> path option \<Rightarrow> int \<Rightarrow> nat option \<Rightarrow> string \<Rightarrow> NetServer \<times> disk
     \<Rightarrow> (connect_error option \<times> NetServer \<times> disk) outcome" where
  "ConnectToPeer encode home now dial peerAddr sd =
     (if map_of (ns_Peers (fst sd)) peerAddr \<noteq> None then Ret (Some (AlreadyConnectedTo peerAddr), sd)
      else
        case dial of
          None \<Rightarrow> Ret (Some DialFailed, sd)
        | Some c \<Rightarrow>
            let s1 = (fst sd)\<lparr>ns_Peers := AList.update peerAddr c (ns_Peers (fst sd))\<rparr>;
                d1 = savePeersToDisk home s1 (snd sd)
            in case SplitHostPort peerAddr of
                 None \<Rightarrow> Ret (None, s1, d1)
               | Some (host, portStr) \<Rightarrow>
                   obind (AddAddress encode host (case Sscan_int portStr of None \<Rightarrow> 0 | Some p \<Rightarrow> p)
                            now (ns_AddrManager s1) d1) (\<lambda>(am, d2).
                     Ret (None, s1\<lparr>ns_AddrManager := am\<rparr>, d2)))"

definition GetPeerCount :: "NetServer \<Rightarrow> nat" where "GetPeerCount s = length (ns_Peers s)"
definition GetPeerList :: "NetServer \<Rightarrow> string list" where "GetPeerList s = map fst (ns_Peers s)"

section \<open>Runs\<close>

inductive network_step ::
  "(addresses option \<Rightarrow> bytes) \<Rightarrow> path option \<Rightarrow> NetServer \<times> disk \<Rightarrow> NetServer \<times> disk \<Rightarrow> bool"
  for encode home where
  accepted: "accept_turn encode home now remote c sd = Ret sd' \<Longrightarrow> network_step encode home sd sd'"
| ended: "network_step encode home sd (connection_ends home remoteAddr sd)"
| connected: "ConnectToPeer encode home now dial peerAddr sd = Ret (e, sd') \<Longrightarrow>
     network_step encode home sd sd'"
| broadcast: "Broadcast write t payload s = (sent, s') \<Longrightarrow> network_step encode home (s, d) (s', d)"

text \<open>What every step keeps: no address twice; and a table that is a map without nil pointers.\<close>

definition network_lists :: "NetServer \<Rightarrow> bool" where
  "network_lists s \<longleftrightarrow>
     distinct (map fst (ns_Peers s)) \<and>
     (\<forall>as. am_Addresses (ns_AddrManager s) = Some as \<longrightarrow> distinct (map fst as))"

definition table_ok :: "AddrManager \<Rightarrow> bool" where
  "table_ok am \<longleftrightarrow> (\<exists>as. am_Addresses am = Some as \<and> None \<notin> snd ` set as)"

lemma AddAddress_RetE:
  assumes "AddAddress encode ip port now am d = Ret (am', d')"
  obtains as e where "am_Addresses am = Some as"
    and "am' = am\<lparr>am_Addresses := Some (AList.update (address_key ip port) (Some e) as)\<rparr>"
    and "d' = am_SaveToDisk encode am' d"
  using assms
  by (auto simp: AddAddress_def Let_def obind_Ret_iff split: option.splits if_splits)

lemma update_no_nil: "None \<notin> snd ` set as \<Longrightarrow> None \<notin> snd ` set (AList.update k (Some e) as)"
  by (induction as) auto

lemma AddAddress_total:
  assumes "table_ok am"
  shows "\<exists>am' d'. AddAddress encode ip port now am d = Ret (am', d')"
proof -
  from assms obtain as where as: "am_Addresses am = Some as" "None \<notin> snd ` set as"
    by (auto simp: table_ok_def)
  then have "map_of as k \<noteq> Some None" for k by (auto dest!: map_of_SomeD) (metis image_eqI snd_conv)
  with as show ?thesis by (auto simp: AddAddress_def Let_def split: option.splits)
qed

lemma AddAddress_nil:
  "am_Addresses am = None \<Longrightarrow>
     AddAddress encode ip port now am d = Panic ''assignment to entry in nil map''"
  by (simp add: AddAddress_def)

text \<open>A broadcast, connection by connection.\<close>

lemma broadcast_fold:
  "foldl (\<lambda>(sent, s1) (addr, c).
           (sent @ [(c, out)],
            if write c then s1 else s1\<lparr>ns_Peers := AList.delete addr (ns_Peers s1)\<rparr>)) (sent, s) ps
    = (sent @ map (\<lambda>(addr, c). (c, out)) ps,
       s\<lparr>ns_Peers := filter (\<lambda>e. fst e \<notin> fst ` set (filter (\<lambda>(_, c). \<not> write c) ps)) (ns_Peers s)\<rparr>)"
proof (induction ps arbitrary: sent s)
  case Nil
  show ?case by simp
next
  case (Cons p ps)
  obtain addr c where p: "p = (addr, c)" by (cases p)
  have "filter (\<lambda>e. fst e \<notin> A) (AList.delete addr xs) = filter (\<lambda>e. fst e \<notin> insert addr A) xs"
    for A and xs :: "(string \<times> nat) list"
    by (auto simp: AList.delete_eq intro!: filter_cong)
  then show ?case unfolding p by (simp add: Cons.IH)
qed

end
