(* ===== verification/RPC_Server.thy ===== *)
theory RPC_Server
  imports Mempool_File Settings Wallet P2P_Network
begin

text \<open>
  \<open>internal/rpc/server.go\<close>: the JSON-RPC handler of the daemon, and the request the command line
  client of \<open>internal/cli/handlers.go\<close> sends it. A request is its authorisation header, its HTTP
  method and its decoded body (\<open>None\<close> when it does not decode). Of a JSON number the handler only
  uses \<open>int(x)\<close>, which is the number here. The fields the handler reads by reflection carry their
  kind.
\<close>

section \<open>Basic authentication\<close>

text \<open>\<open>http.Request.BasicAuth\<close>\<close>

definition BasicAuth :: "string option \<Rightarrow> (string \<times> string) option" where
  "BasicAuth header =
     (case header of
        None \<Rightarrow> None
      | Some auth \<Rightarrow>
          if length auth < 6 \<or> map to_lower (take 6 auth) \<noteq> ''basic '' then None
          else
            (case base64_decode (drop 6 auth) of
               None \<Rightarrow> None
             | Some cs \<Rightarrow>
                 (case SplitN2 cs (CHR '':'') of [user, pass] \<Rightarrow> Some (user, pass) | _ \<Rightarrow> None)))"

definition authorized :: "Config option \<Rightarrow> string option \<Rightarrow> bool" where
  "authorized cfg header =
     (case (BasicAuth header, cfg) of
        (Some (user, pass), Some c) \<Rightarrow> user = cfg_RPCUser c \<and> pass = cfg_RPCPassword c
      | _ \<Rightarrow> False)"

text \<open>The header of \<open>HandleRPCClient\<close>.\<close>

definition client_header :: "Config option \<Rightarrow> string option" where
  "client_header cfg =
     (let rpcUser = (case cfg of None \<Rightarrow> [] | Some c \<Rightarrow> cfg_RPCUser c);
          rpcPass = (case cfg of None \<Rightarrow> [] | Some c \<Rightarrow> cfg_RPCPassword c)
      in if rpcUser \<noteq> [] \<or> rpcPass \<noteq> []
         then Some (''Basic '' @ base64_encode (rpcUser @ '':'' @ rpcPass)) else None)"

section \<open>Requests and responses\<close>

datatype rpc_param = PNumber int | PString string | POther

record 'i RPCRequest =
  rq_Method :: string
  rq_Params :: "rpc_param list"
  rq_ID :: 'i

datatype rpc_result =
    RNone
  | RInt int
  | RString string
  | RMiningInfo nat nat
  | RInfo nat nat float64
  | RGenerate int string "string list"

record 'i RPCResponse =
  rp_Result :: rpc_result
  rp_Error :: "(int \<times> string) option"
  rp_ID :: 'i

datatype 'i http_reply = Unauthorized | MethodNotAllowed | InvalidJSON | Reply "'i RPCResponse"

section \<open>What the handler reads by reflection\<close>

datatype field = FBytes bytes | FString string | FUint nat

definition field_Hash :: "LedgerBlock \<Rightarrow> field" where
  "field_Hash b = FBytes (elems (blk_Hash b))"

definition field_Difficulty :: "LedgerBlock \<Rightarrow> field" where
  "field_Difficulty b = FUint (unat (blk_Difficulty b))"

definition rpc_blocks :: "'d LedgerCore \<Rightarrow> nat" where
  "rpc_blocks lc = length (lc_Chain lc)"

definition rpc_bestblockhash :: "'d LedgerCore \<Rightarrow> string" where
  "rpc_bestblockhash lc =
     (if lc_Chain lc = [] then []
      else case field_Hash (last (lc_Chain lc)) of FString s \<Rightarrow> s | _ \<Rightarrow> [])"

definition rpc_difficulty :: "'d LedgerCore \<Rightarrow> nat" where
  "rpc_difficulty lc =
     (if lc_Chain lc = [] then 0
      else case field_Difficulty (last (lc_Chain lc)) of FUint n \<Rightarrow> n | _ \<Rightarrow> 0)"

definition rpc_balances :: "WalletFile option \<Rightarrow> 'd LedgerCore \<Rightarrow> u64 list" where
  "rpc_balances w lc =
     (case w of
        None \<Rightarrow> []
      | Some wfile \<Rightarrow>
          concat (map (\<lambda>acc. case lc_State lc (ac_Address acc) of
                               None \<Rightarrow> [] | Some a \<Rightarrow> [acc_Balance a]) (wf_Accounts wfile)))"

text \<open>The total is summed in coins.\<close>

definition rpc_total :: "u64 list \<Rightarrow> float64" where
  "rpc_total balances = foldl (\<lambda>total bal. fadd total (ToDecimal bal)) (FNum 0) balances"

section \<open>The methods\<close>

text \<open>What surrounds the handler: the ledger's environment, the coding of the address file, the home
  directory, the clock, and for the mining calls the time and the result of each.\<close>

record ('pub, 'priv, 'd) rpc_env =
  re_node :: "('pub, 'priv, 'd) node_env"
  re_am_decode :: "bytes \<Rightarrow> addresses option"
  re_am_encode :: "addresses option \<Rightarrow> bytes"
  re_home :: "path option"
  re_now :: int
  re_rounds :: "nat \<Rightarrow> i64 \<times> u64 \<times> bytes"

primrec mine_rounds ::
  "('pub, 'priv, 'd) rpc_env \<Rightarrow> nat \<Rightarrow> nat \<Rightarrow> 'd LedgerCore \<Rightarrow> 'd LedgerCore outcome" where
  "mine_rounds R 0 i lc = Ret lc"
| "mine_rounds R (Suc n) i lc =
     obind (MineBlock (re_node R) (fst (re_rounds R i)) (snd (re_rounds R i)) lc) (mine_rounds R n (i + 1))"

definition generate_count :: "rpc_param list \<Rightarrow> int" where
  "generate_count params = (case params of PNumber bc # _ \<Rightarrow> bc | _ \<Rightarrow> 1)"

definition rpc_generate ::
  "('pub, 'priv, 'd) rpc_env \<Rightarrow> rpc_param list \<Rightarrow> 'd LedgerCore \<times> disk
     \<Rightarrow> (rpc_result \<times> 'd LedgerCore \<times> disk) outcome" where
  "rpc_generate R params nd =
     (let blocksCount = generate_count params;
          targetAddr = (case params of _ # PString ta # _ \<Rightarrow> if ta \<noteq> [] then ta else ''SYSTEM_MINER''
                        | _ \<Rightarrow> ''SYSTEM_MINER'')
      in obind (mine_rounds R (nat blocksCount) 0 (fst nd)) (\<lambda>lc.
           Ret (RGenerate blocksCount targetAddr
                  (replicate (nat blocksCount) ''Block mined successfully''),
                lc, SaveMempoolToDisk (re_home R) (Some []) (snd nd))))"

definition rpc_data_dir :: "path option \<Rightarrow> path" where
  "rpc_data_dir home = (case home of None \<Rightarrow> [''.''] | Some dir \<Rightarrow> Join dir ''.xcosh'')"

definition rpc_wallet_path :: "path option \<Rightarrow> path" where
  "rpc_wallet_path home =
     (case home of None \<Rightarrow> [''wallet.dat''] | Some dir \<Rightarrow> Join (Join dir ''.xcosh'') ''wallet.dat'')"

definition rpc_addnode ::
  "('pub, 'priv, 'd) rpc_env \<Rightarrow> rpc_param list \<Rightarrow> disk
     \<Rightarrow> (rpc_result \<times> (int \<times> string) option \<times> disk) outcome" where
  "rpc_addnode R params d =
     (case params of
        [] \<Rightarrow> Ret (RNone, Some (-32602, ''Missing parameter: peer address required''), d)
      | PString peerAddr # _ \<Rightarrow>
          let am = NewAddrManager (re_am_decode R) (rpc_data_dir (re_home R)) d;
              reply = RString (''Successfully added peer to addrman: '' @ peerAddr)
          in (case SplitHostPort peerAddr of
                None \<Rightarrow> Ret (reply, None, d)
              | Some (host, portStr) \<Rightarrow>
                  obind (AddAddress (re_am_encode R) host
                           (case Sscan_int portStr of None \<Rightarrow> 0 | Some p \<Rightarrow> p) (re_now R) am d)
                    (\<lambda>(_, d1). Ret (reply, None, d1)))
      | _ \<Rightarrow> Ret (RNone, Some (-32602, ''Invalid params: peer address must be a string''), d))"

text \<open>The dispatch; the last component is whether the process is about to exit.\<close>

definition rpc_dispatch ::
  "('pub, 'priv, 'd) rpc_env \<Rightarrow> string \<Rightarrow> rpc_param list \<Rightarrow> 'd LedgerCore \<times> disk
     \<Rightarrow> (rpc_result \<times> (int \<times> string) option \<times> ('d LedgerCore \<times> disk) \<times> bool) outcome" where
  "rpc_dispatch R method params nd =
     (let lc = fst nd in
      if method = ''getblockcount'' then Ret (RInt (int (rpc_blocks lc)), None, nd, False)
      else if method = ''getconnectioncount'' then Ret (RInt 1, None, nd, False)
      else if method = ''getbestblockhash'' then Ret (RString (rpc_bestblockhash lc), None, nd, False)
      else if method = ''getmininginfo''
      then Ret (RMiningInfo (rpc_blocks lc) (rpc_difficulty lc), None, nd, False)
      else if method = ''getinfo''
      then Ret (RInfo (rpc_blocks lc) (rpc_difficulty lc)
             (rpc_total (rpc_balances
                (LoadWalletCustom (rpc_wallet_path (re_home R)) (snd nd)) lc)),
             None, nd, False)
      else if method = ''generate''
      then obind (rpc_generate R params nd) (\<lambda>(r, nd1). Ret (r, None, nd1, False))
      else if method = ''addnode''
      then obind (rpc_addnode R params (snd nd)) (\<lambda>(r, e, d). Ret (r, e, (lc, d), False))
      else if method = ''stop'' then Ret (RString ''Xcosh server stopping...'', None, nd, True)
      else Ret (RNone, Some (-32601, ''Method not found''), nd, False))"

definition rpc_handle ::
  "('pub, 'priv, 'd) rpc_env \<Rightarrow> Config option \<Rightarrow> string option \<Rightarrow> string \<Rightarrow> 'i RPCRequest option
     \<Rightarrow> 'd LedgerCore \<times> disk \<Rightarrow> ('i http_reply \<times> ('d LedgerCore \<times> disk) \<times> bool) outcome" where
  "rpc_handle R cfg header httpMethod body nd =
     (if \<not> authorized cfg header then Ret (Unauthorized, nd, False)
      else if httpMethod \<noteq> ''POST'' then Ret (MethodNotAllowed, nd, False)
      else
        case body of
          None \<Rightarrow> Ret (InvalidJSON, nd, False)
        | Some req \<Rightarrow>
            obind (rpc_dispatch R (rq_Method req) (rq_Params req) nd) (\<lambda>(r, e, nd1, stop).
              Ret (Reply \<lparr>rp_Result = r, rp_Error = e, rp_ID = rq_ID req\<rparr>, nd1, stop)))"

section \<open>The client and the handler\<close>

lemma BasicAuth_header:
  assumes "CHR '':'' \<notin> set user"
  shows "BasicAuth (Some (''Basic '' @ base64_encode (user @ '':'' @ pass))) = Some (user, pass)"
proof -
  have low: "map to_lower ''Basic '' = ''basic ''" by code_simp
  have "SplitN2 (user @ CHR '':'' # pass) (CHR '':'') = [user, pass]"
    using assms by (rule SplitN2_append)
  then show ?thesis using low by (simp add: BasicAuth_def)
qed

lemma client_authorized:
  assumes "cfg_RPCUser c \<noteq> [] \<or> cfg_RPCPassword c \<noteq> []"
    and "CHR '':'' \<notin> set (cfg_RPCUser c)"
  shows "authorized (Some c) (client_header (Some c))"
proof -
  have "client_header (Some c)
      = Some (''Basic '' @ base64_encode (cfg_RPCUser c @ '':'' @ cfg_RPCPassword c))"
    using assms(1) by (auto simp: client_header_def)
  then show ?thesis using BasicAuth_header [OF assms(2), of "cfg_RPCPassword c"]
    by (simp add: authorized_def)
qed

end
