(* ===== verification/Go_Numbers.thy ===== *)
theory Go_Numbers
  imports Go_Indent Go_Float
begin

text \<open>
  What the command line uses of \<open>strconv\<close> to read numbers: integers with a base prefix, as the flag
  package reads them, and floating-point numbers. Underscores may separate digits.
\<close>

section \<open>Integers\<close>

text \<open>\<open>strconv.ParseUint(s, 0, 64)\<close>: the base is in the prefix, and underscores may separate
  digits.\<close>

definition base_of :: "string \<Rightarrow> nat \<times> string" where
  "base_of s =
     (if s = [] \<or> hd s \<noteq> CHR ''0'' then (10, s)
      else if 3 \<le> length s \<and> to_lower (s ! 1) = CHR ''b'' then (2, drop 2 s)
      else if 3 \<le> length s \<and> to_lower (s ! 1) = CHR ''o'' then (8, drop 2 s)
      else if 3 \<le> length s \<and> to_lower (s ! 1) = CHR ''x'' then (16, drop 2 s)
      else (8, tl s))"

fun base_digits :: "nat \<Rightarrow> string \<Rightarrow> nat \<Rightarrow> nat option" where
  "base_digits b [] n = Some n"
| "base_digits b (c # s) n =
     (if c = CHR ''_'' then base_digits b s n
      else
        case digit_val (to_lower c) of
          None \<Rightarrow> None
        | Some d \<Rightarrow> if d < b then base_digits b s (n * b + d) else None)"

datatype saw = SawStart | SawDigit | SawUnderscore | SawOther

fun underscores :: "bool \<Rightarrow> saw \<Rightarrow> string \<Rightarrow> bool" where
  "underscores hex sw [] = (sw \<noteq> SawUnderscore)"
| "underscores hex sw (c # s) =
     (if is_digit c \<or> hex \<and> digit_val (to_lower c) \<noteq> None
      then underscores hex SawDigit s
      else if c = CHR ''_'' then sw = SawDigit \<and> underscores hex SawUnderscore s
      else sw \<noteq> SawUnderscore \<and> underscores hex SawOther s)"

definition underscoreOK :: "string \<Rightarrow> bool" where
  "underscoreOK s =
     (if 2 \<le> length s \<and> hd s = CHR ''0'' \<and> to_lower (s ! 1) \<in> {CHR ''b'', CHR ''o'', CHR ''x''}
      then underscores (to_lower (s ! 1) = CHR ''x'') SawDigit (drop 2 s)
      else underscores False SawStart s)"

definition ParseUint0 :: "string \<Rightarrow> nat option" where
  "ParseUint0 s =
     (if s = [] then None
      else
        case base_of s of
          (b, digits) \<Rightarrow>
            (case base_digits b digits 0 of
               None \<Rightarrow> None
             | Some n \<Rightarrow>
                 if 2 ^ 64 \<le> n \<or> CHR ''_'' \<in> set digits \<and> \<not> underscoreOK s then None else Some n))"

definition ParseInt0 :: "string \<Rightarrow> int option" where
  "ParseInt0 s =
     (let neg = HasPrefix s ''-''; s1 = (if neg \<or> HasPrefix s ''+'' then tl s else s) in
      case ParseUint0 s1 of
        None \<Rightarrow> None
      | Some n \<Rightarrow>
          if neg then (if 2 ^ 63 < n then None else Some (- int n))
          else (if 2 ^ 63 \<le> n then None else Some (int n)))"

section \<open>Floating-point numbers\<close>

text \<open>\<open>strconv.ParseFloat(s, 64)\<close>. A word for an infinity may have a sign, the one for no number may
  not. A number is digits with at most one point, in base 10, or in base 16 after \<open>0x\<close>, and an
  exponent, which base 16 needs. \<open>None\<close> is a syntax error or a number that rounds to an infinity.\<close>

definition special_float :: "string \<Rightarrow> float64 option" where
  "special_float s =
     (let low = map to_lower s in
      if low \<in> {''inf'', ''infinity'', ''+inf'', ''+infinity''} then Some (FInf False)
      else if low \<in> {''-inf'', ''-infinity''} then Some (FInf True)
      else if low = ''nan'' then Some FNaN else None)"

text \<open>The digits so far as a number, how many are behind the point, whether there was a point and a
  digit; then the same with the rest.\<close>

fun scan_digits :: "nat \<Rightarrow> string \<Rightarrow> nat \<Rightarrow> nat \<Rightarrow> bool \<Rightarrow> bool \<Rightarrow> nat \<times> nat \<times> bool \<times> string" where
  "scan_digits b [] m places dot digits = (m, places, digits, [])"
| "scan_digits b (c # s) m places dot digits =
     (if c = CHR ''_'' then scan_digits b s m places dot digits
      else if c = CHR ''.'' then
        (if dot then (m, places, digits, c # s) else scan_digits b s m places True digits)
      else
        case digit_val (to_lower c) of
          None \<Rightarrow> (m, places, digits, c # s)
        | Some d \<Rightarrow>
            if d < b then scan_digits b s (m * b + d) (if dot then Suc places else places) dot True
            else (m, places, digits, c # s))"

fun scan_exponent :: "string \<Rightarrow> nat \<Rightarrow> nat \<times> string" where
  "scan_exponent [] e = (e, [])"
| "scan_exponent (c # s) e =
     (if c = CHR ''_'' then scan_exponent s e
      else if is_digit c then scan_exponent s (if e < 10000 then e * 10 + the (digit_val c) else e)
      else (e, c # s))"

text \<open>The exponent and the rest, given what comes after the digits.\<close>

definition read_exponent :: "bool \<Rightarrow> string \<Rightarrow> (int \<times> string) option" where
  "read_exponent hex s =
     (if s \<noteq> [] \<and> to_lower (hd s) = (if hex then CHR ''p'' else CHR ''e'') then
        let s1 = tl s;
            s2 = (if s1 \<noteq> [] \<and> hd s1 \<in> {CHR ''+'', CHR ''-''} then tl s1 else s1) in
        if s2 = [] \<or> \<not> is_digit (hd s2) then None
        else
          case scan_exponent s2 0 of
            (e, rest) \<Rightarrow> Some (if hd s1 = CHR ''-'' then - int e else int e, rest)
      else if hex then None else Some (0, s))"

definition ParseFloat :: "string \<Rightarrow> float64 option" where
  "ParseFloat s =
     (case special_float s of
        Some f \<Rightarrow> Some f
      | None \<Rightarrow>
          let neg = HasPrefix s ''-'';
              s1 = (if neg \<or> HasPrefix s ''+'' then tl s else s);
              hex = (3 \<le> length s1 \<and> hd s1 = CHR ''0'' \<and> to_lower (s1 ! 1) = CHR ''x'')
          in case scan_digits (if hex then 16 else 10) (if hex then drop 2 s1 else s1) 0 0 False False of
               (m, places, digits, rest) \<Rightarrow>
                 (case read_exponent hex rest of
                    None \<Rightarrow> None
                  | Some (e, rest1) \<Rightarrow>
                      if \<not> digits \<or> rest1 \<noteq> [] \<or> CHR ''_'' \<in> set s \<and> \<not> underscoreOK s1 then None
                      else
                        let x = of_nat m * (if hex then 2 powi (e - 4 * int places) else 10 powi (e - int places))
                        in (case to_float (if neg then - x else x) of
                              FNum y \<Rightarrow> Some (FNum y)
                            | _ \<Rightarrow> None)))"

section \<open>Reading numbers back\<close>

lemma small_digits:
  "\<forall>d \<in> {0..<10}. digit_char d \<noteq> CHR ''_'' \<and> to_lower (digit_char d) = digit_char d"
  by code_simp

lemma base_digits_parse:
  assumes "\<forall>c \<in> set s. \<exists>d < 10. c = digit_char d"
  shows "base_digits 10 s n = parse_digits 10 n s"
  using assms small_digits by (induction s arbitrary: n) auto

lemma numeral_digits: "\<forall>c \<in> set (format_nat 10 n). \<exists>d < 10. c = digit_char d"
  using format_nat_digits [of 10] by simp

lemma digit_zero_iff: "d < 10 \<Longrightarrow> digit_char d = CHR ''0'' \<longleftrightarrow> d = 0"
  using digit_char_inject [of d 0] by (simp add: digit_char_def)

lemma decimal_first: "0 < n \<Longrightarrow> hd (format_nat 10 n) \<noteq> CHR ''0''"
proof (induction n rule: less_induct)
  case (less n)
  show ?case
  proof (cases "n < 10")
    case True
    with less.prems show ?thesis by (subst format_nat.simps) (simp add: digit_zero_iff)
  next
    case False
    then have "hd (format_nat 10 (n div 10)) \<noteq> CHR ''0''" using less.IH [of "n div 10"] by simp
    with False show ?thesis by (subst format_nat.simps) (simp add: hd_append)
  qed
qed

lemma ParseUint0_decimal:
  assumes "n < 2 ^ 64"
  shows "ParseUint0 (format_nat 10 n) = Some n"
proof (cases "n = 0")
  case True
  have "ParseUint0 ''0'' = Some 0" by code_simp
  with True show ?thesis by (subst format_nat.simps) (simp add: digit_char_def)
next
  case False
  let ?s = "format_nat 10 n"
  have "base_of ?s = (10, ?s)" using False decimal_first [of n] by (simp add: base_of_def)
  moreover have "base_digits 10 ?s 0 = Some n"
    using base_digits_parse [OF numeral_digits] parse_format [of 10 n] by simp
  moreover have "CHR ''_'' \<notin> set ?s"
    using numeral_digits [of n] small_digits by fastforce
  ultimately show ?thesis using assms by (simp add: ParseUint0_def)
qed

lemma ParseInt0_decimal:
  assumes "n < 2 ^ 63"
  shows "ParseInt0 (format_nat 10 n) = Some (int n)"
proof -
  have "hd (format_nat 10 n) \<notin> {CHR ''-'', CHR ''+''}"
  proof -
    have "\<forall>d \<in> {0..<10}. digit_char d \<notin> {CHR ''-'', CHR ''+''}" by code_simp
    moreover have "hd (format_nat 10 n) \<in> set (format_nat 10 n)" by simp
    with numeral_digits [of n] obtain d where "d < 10" "hd (format_nat 10 n) = digit_char d" by blast
    ultimately show ?thesis by simp
  qed
  then have "\<not> HasPrefix (format_nat 10 n) ''-''" "\<not> HasPrefix (format_nat 10 n) ''+''"
    by (auto simp: HasPrefix_iff)
  then show ?thesis using assms ParseUint0_decimal [of n] by (simp add: ParseInt0_def)
qed

section \<open>Reading decimals back\<close>

lemma decimal_chars:
  assumes "d < 10"
  shows "digit_char d \<notin> {CHR ''_'', CHR ''.'', CHR ''+'', CHR ''-''} \<and> to_lower (digit_char d) = digit_char d \<and>
    of_char (digit_char d) < (58::nat)"
proof -
  have "\<forall>d \<in> {0..<10}. digit_char d \<notin> {CHR ''_'', CHR ''.'', CHR ''+'', CHR ''-''} \<and>
      to_lower (digit_char d) = digit_char d \<and> of_char (digit_char d) < (58::nat)" by code_simp
  with assms show ?thesis by simp
qed

lemma scan_decimal:
  assumes "\<forall>c \<in> set ds. \<exists>d < 10. c = digit_char d" and "parse_digits 10 m ds = Some v"
  shows "scan_digits 10 (ds @ s) m places dot digits =
    scan_digits 10 s v (if dot then places + length ds else places) dot (digits \<or> ds \<noteq> [])"
  using assms
proof (induction ds arbitrary: m places digits)
  case (Cons c ds)
  then obtain d where d: "d < 10" "c = digit_char d" by auto
  with Cons.prems(2) have "parse_digits 10 (m * 10 + d) ds = Some v" by simp
  with Cons.IH [of "m * 10 + d" "if dot then Suc places else places" True] Cons.prems(1) d decimal_chars [OF d(1)]
  show ?case by simp
qed simp

lemma parse_digits_shift:
  assumes "\<forall>c \<in> set ds. \<exists>d < 10. c = digit_char d" and "parse_digits 10 0 ds = Some v"
  shows "parse_digits 10 m ds = Some (m * 10 ^ length ds + v)"
proof -
  have "parse_digits 10 (m + a) ds = map_option (\<lambda>v. m * 10 ^ length ds + v) (parse_digits 10 a ds)" for a
    using assms(1)
  proof (induction ds arbitrary: m a)
    case (Cons c ds)
    then obtain d where "d < 10" "c = digit_char d" by auto
    with Cons.prems Cons.IH [of "m * 10" "a * 10 + d"] show ?case by (simp add: algebra_simps)
  qed simp
  from this [of 0] assms(2) show ?thesis by simp
qed

text \<open>A number of \<open>10 ^ 8\<close>-ths, written with eight digits behind the point.\<close>

definition eight_digits :: "nat \<Rightarrow> string" where
  "eight_digits r = (let f = format_nat 10 r in replicate (8 - length f) CHR ''0'' @ f)"

definition coin_text :: "nat \<Rightarrow> string" where
  "coin_text n = format_nat 10 (n div 10 ^ 8) @ ''.'' @ eight_digits (n mod 10 ^ 8)"

lemma length_format_nat: "0 < k \<Longrightarrow> r < 10 ^ k \<Longrightarrow> length (format_nat 10 r) \<le> k"
proof (induction k arbitrary: r)
  case (Suc k)
  show ?case
  proof (cases "r < 10")
    case True
    then show ?thesis by (subst format_nat.simps) simp
  next
    case False
    with Suc.prems have "0 < k" by (cases k) auto
    moreover have "r div 10 < 10 ^ k" using Suc.prems by (simp add: less_mult_imp_div_less mult.commute)
    ultimately show ?thesis using Suc.IH [of "r div 10"] False by (subst format_nat.simps) simp
  qed
qed simp

lemma eight_digits:
  assumes "r < 10 ^ 8"
  shows "length (eight_digits r) = 8" and "\<forall>c \<in> set (eight_digits r). \<exists>d < 10. c = digit_char d"
    and "parse_digits 10 0 (eight_digits r) = Some r"
proof -
  show "length (eight_digits r) = 8"
    using length_format_nat [of 8 r] assms by (simp add: eight_digits_def Let_def)
  have zero: "CHR ''0'' = digit_char 0" by (simp add: digit_char_def)
  then show "\<forall>c \<in> set (eight_digits r). \<exists>d < 10. c = digit_char d"
    using numeral_digits [of r] by (auto simp: eight_digits_def Let_def intro: exI [of _ 0])
  have "parse_digits 10 0 (replicate k CHR ''0'') = Some 0" for k
    by (induction k) (simp_all add: zero)
  then show "parse_digits 10 0 (eight_digits r) = Some r"
    by (simp add: eight_digits_def Let_def parse_digits_append parse_format)
qed

lemma not_special_float:
  assumes "s \<noteq> []" and "hd s = digit_char d" and "d < 10" shows "special_float s = None"
proof -
  have "to_lower (hd s) = digit_char d" using assms decimal_chars [of d] by simp
  moreover have "\<forall>d \<in> {0..<10}. digit_char d \<notin> {CHR ''i'', CHR ''+'', CHR ''-'', CHR ''n''}" by code_simp
  ultimately have "hd (map to_lower s) \<notin> {CHR ''i'', CHR ''+'', CHR ''-'', CHR ''n''}"
    using assms by (simp add: hd_map)
  then show ?thesis by (auto simp: special_float_def Let_def)
qed

text \<open>A text of digits and at most one point that starts with a digit, without and with a sign.\<close>

lemma ParseFloat_plain:
  assumes "s \<noteq> []" and "\<forall>c \<in> set s. c = CHR ''.'' \<or> (\<exists>d < 10. c = digit_char d)"
    and "hd s = digit_char d" and "d < 10"
    and "scan_digits 10 s 0 0 False False = (m, places, True, [])"
  shows "to_float (of_nat m * 10 powi (0 - int places)) = FNum v \<Longrightarrow> ParseFloat s = Some (FNum v)"
    and "to_float (- (of_nat m * 10 powi (0 - int places))) = FNum v \<Longrightarrow>
      ParseFloat (CHR ''-'' # s) = Some (FNum v)"
proof -
  have special: "special_float s = None" using not_special_float [OF assms(1,3,4)] .
  have signs: "\<not> HasPrefix s ''-''" "\<not> HasPrefix s ''+''"
    using decimal_chars [OF assms(4)] assms(3) by (auto simp: HasPrefix_iff)
  have hex: "to_lower (s ! 1) \<noteq> CHR ''x''" if "3 \<le> length s"
  proof -
    have "s ! 1 \<in> set s" using that by simp
    moreover have "to_lower CHR ''.'' \<noteq> CHR ''x''" "\<forall>d \<in> {0..<10}. digit_char d \<noteq> CHR ''x''" by code_simp+
    ultimately show ?thesis using assms(2) decimal_chars by fastforce
  qed
  have under: "CHR ''_'' \<notin> set s" using assms(2) decimal_chars by fastforce
  then have under': "CHR ''_'' \<notin> set (CHR ''-'' # s)" by simp
  have not_hex: "(3 \<le> length s \<and> hd s = CHR ''0'' \<and> to_lower (s ! 1) = CHR ''x'') = False"
    using hex by blast
  show "ParseFloat s = Some (FNum v)" if "to_float (of_nat m * 10 powi (0 - int places)) = FNum v"
    unfolding ParseFloat_def Let_def
    by (simp only: special signs not_hex assms(5) read_exponent_def option.case prod.case simp_thms if_False
        under that float64.case)
  have minus: "HasPrefix (CHR ''-'' # s) ''-''" by (simp add: HasPrefix_def)
  have first: "to_lower (hd s) = digit_char d" using assms(3) decimal_chars [OF assms(4)] by simp
  have "\<forall>d \<in> {0..<10}. digit_char d \<noteq> CHR ''i''" "to_lower CHR ''-'' = CHR ''-''" by code_simp+
  then have special': "special_float (CHR ''-'' # s) = None"
    using first assms(1,4) by (cases s) (auto simp: special_float_def Let_def)
  show "ParseFloat (CHR ''-'' # s) = Some (FNum v)"
    if "to_float (- (of_nat m * 10 powi (0 - int places))) = FNum v"
    unfolding ParseFloat_def Let_def
    by (simp only: special' minus list.sel not_hex assms(5) read_exponent_def option.case prod.case simp_thms
        if_False if_True under' that float64.case)
qed

text \<open>Whole numbers in the range where every one of them is a float.\<close>

lemma ParseFloat_whole:
  assumes "\<bar>i\<bar> < 2 ^ 53"
  shows "ParseFloat (int_text i) = Some (FNum (of_int i))"
proof -
  let ?n = "nat \<bar>i\<bar>"
  have small: "?n < 2 ^ 53" using assms by (simp add: nat_less_iff)
  let ?s = "format_nat 10 ?n"
  have s: "?s \<noteq> []" by simp
  then have "hd ?s \<in> set ?s" by (rule hd_in_set)
  then obtain d where d: "hd ?s = digit_char d" "d < 10" using numeral_digits by blast
  have chars: "\<forall>c \<in> set ?s. c = CHR ''.'' \<or> (\<exists>d < 10. c = digit_char d)" using numeral_digits by blast
  have scan: "scan_digits 10 ?s 0 0 False False = (?n, 0, True, [])"
    using scan_decimal [OF numeral_digits parse_format, of ?n "[]" 0 False False] s by simp
  note plain = ParseFloat_plain [OF s chars d scan]
  have float: "to_float (of_nat ?n) = FNum (of_nat ?n)" "to_float (- of_nat ?n) = FNum (- of_nat ?n)"
    using to_float_nat [OF small] by (auto simp: to_float_def Let_def split: if_splits)
  show ?thesis
  proof (cases "i < 0")
    case True
    then have "of_int i = (- of_nat ?n :: rat)" by simp
    then show ?thesis using plain(2) float(2) True by (simp add: int_text_def)
  next
    case False
    then have "of_int i = (of_nat ?n :: rat)" by simp
    then show ?thesis using plain(1) float(1) False by (simp add: int_text_def)
  qed
qed

lemma ParseFloat_coin_text:
  assumes "to_float (of_nat n / 100000000) = FNum v"
  shows "ParseFloat (coin_text n) = Some (FNum v)"
proof -
  let ?a = "format_nat 10 (n div 10 ^ 8)" and ?b = "eight_digits (n mod 10 ^ 8)" and ?s = "coin_text n"
  have r: "n mod 10 ^ 8 < 10 ^ 8" by simp
  note b = eight_digits [OF r]
  have hd_s: "hd ?s \<in> set ?a" by (simp add: coin_text_def hd_append)
  then obtain d where d: "d < 10" "hd ?s = digit_char d" using numeral_digits by blast
  have s: "?s \<noteq> []" by (simp add: coin_text_def)
  have chars: "\<forall>c \<in> set ?s. c = CHR ''.'' \<or> (\<exists>d < 10. c = digit_char d)"
    using numeral_digits [of "n div 10 ^ 8"] b(2) by (auto simp: coin_text_def)
  have "parse_digits 10 (n div 10 ^ 8) ?b = Some (n div 10 ^ 8 * 10 ^ 8 + n mod 10 ^ 8)"
    using parse_digits_shift [OF b(2,3)] b(1) by simp
  then have whole: "parse_digits 10 (n div 10 ^ 8) ?b = Some n" by (simp only: div_mult_mod_eq)
  have scan: "scan_digits 10 ?s 0 0 False False = (n, 8, True, [])"
  proof -
    have "scan_digits 10 ?s 0 0 False False
        = scan_digits 10 (''.'' @ ?b) (n div 10 ^ 8) 0 False True"
      unfolding coin_text_def
      by (subst scan_decimal [OF numeral_digits parse_format]) simp_all
    also have "\<dots> = scan_digits 10 (?b @ []) (n div 10 ^ 8) 0 True True" by simp
    also have "\<dots> = (n, 8, True, [])"
      using scan_decimal [OF b(2) whole, of "[]" 0 True True] b(1) by simp
    finally show ?thesis .
  qed
  have val8: "of_nat n * 10 powi (0 - int 8) = (of_nat n / 100000000 :: rat)"
    by (simp add: power_int_minus power_int_numeral)
  show ?thesis
    by (rule ParseFloat_plain(1) [OF s chars d(2,1) scan]) (use assms val8 in simp)
qed

end
