(* ===== verification/Go_Stream.thy ===== *)
theory Go_Stream
  imports Go_Roundtrip
begin

text \<open>
  \<open>json.Decoder\<close>: values one after the other from a stream of bytes. It reads one value and leaves
  the rest, and what it reads is what \<open>json.Unmarshal\<close> makes of the same text.
\<close>

section \<open>The reader\<close>

text \<open>\<open>None\<close> when the text breaks off or is no value. A number ends at the first character that cannot
  continue it.\<close>

fun read_value :: "scan \<Rightarrow> bytes \<Rightarrow> (json \<times> bytes) option" where
  "read_value ([], Top v) s = Some (v, s)"
| "read_value ([], Digits q raw) [] = (if number_ends q then Some (JNumber raw, []) else None)"
| "read_value ([], Digits q raw) (c # s) =
     (if more_digits q c = None \<and> number_ends q then Some (JNumber raw, c # s)
      else read_value (scan_step ([], Digits q raw) c) s)"
| "read_value (fr, m) [] = None"
| "read_value (fr, m) (c # s) = read_value (scan_step (fr, m) c) s"

lemma read_value_length: "read_value sc s = Some (v, r) \<Longrightarrow> length r \<le> length s"
  by (induction sc s rule: read_value.induct) (auto split: if_split_asm simp del: scan_step.simps)

lemma read_value_shorter:
  assumes "read_value ([], Begin) s = Some (v, r)"
  shows "length r < length s"
  using assms read_value_length by (cases s) (fastforce simp del: scan_step.simps)+

section \<open>Reading back\<close>

lemma read_value_spaces:
  "spaces ws \<Longrightarrow> read_value ([], Begin) (ws @ s) = read_value ([], Begin) s"
  by (induction ws) simp_all

text \<open>Once a value is whole nothing but white space leaves it so.\<close>

lemma scan_bad: "foldl scan_step (fr, Bad) s = (fr, Bad)"
  by (induction s) simp_all

lemma scan_top: "foldl scan_step ([], Top w) s = ([], Top v) \<Longrightarrow> w = v \<and> spaces s"
  by (induction s) (auto simp: scan_bad split: if_split_asm)

text \<open>A text that scans to a value is read as that value, up to white space after it.\<close>

lemma read_value_scan:
  "foldl scan_step sc s = ([], Top v) \<Longrightarrow> \<exists>ws. spaces ws \<and> read_value sc (s @ r) = Some (v, ws @ r)"
proof (induction s arbitrary: sc)
  case Nil
  then show ?case by simp
next
  case (Cons c s)
  then have scan: "foldl scan_step (scan_step sc c) s = ([], Top v)" by simp
  note IH = Cons.IH [OF scan]
  consider (top) w where "sc = ([], Top w)"
    | (number) q raw where "sc = ([], Digits q raw)" "more_digits q c = None" "number_ends q"
    | (more) q raw where "sc = ([], Digits q raw)" "\<not> (more_digits q c = None \<and> number_ends q)"
    | (other) "\<forall>w. sc \<noteq> ([], Top w)" "\<forall>q raw. sc \<noteq> ([], Digits q raw)"
    by blast
  then show ?case
  proof cases
    case top
    with scan_top [of w "c # s" v] Cons.prems show ?thesis by (intro exI [of _ "c # s"]) simp
  next
    case number
    then have "foldl scan_step ([], Top (JNumber raw)) (c # s) = ([], Top v)"
      using Cons.prems by (simp split: if_split_asm add: scan_bad)
    from scan_top [OF this] number show ?thesis by (intro exI [of _ "c # s"]) simp
  next
    case more
    then have "read_value sc (c # s @ r) = read_value (scan_step sc c) (s @ r)"
      by (auto simp del: scan_step.simps)
    with IH show ?thesis by simp
  next
    case other
    obtain fr m where "sc = (fr, m)" by (cases sc)
    with other have "read_value sc (c # s @ r) = read_value (scan_step sc c) (s @ r)"
      by (cases m; cases fr) simp_all
    with IH show ?thesis by simp
  qed
qed

lemma read_value_reads:
  assumes "reads_whole d s v" and "d \<le> maxNestingDepth"
  shows "\<exists>ws. spaces ws \<and> read_value ([], Begin) (s @ r) = Some (v, ws @ r)"
  by (rule read_value_scan) (use assms in \<open>auto simp: reads_whole_def value_start_def neq_Nil_conv\<close>)

end
