(* ===== verification/RPC_Wire.thy ===== *)
theory RPC_Wire
  imports RPC_Server Go_Numbers Go_Stream
begin

text \<open>
  What crosses the wire between the command line and the daemon: the request \<open>HandleRPCClient\<close> encodes
  (\<open>internal/cli/handlers.go\<close>) and what the handler decodes (\<open>internal/rpc/server.go\<close>). A number of a
  parameter becomes a float, and the identifier is kept as it came.
\<close>

section \<open>The request of the client\<close>

fun param_json :: "rpc_param \<Rightarrow> string" where
  "param_json (PNumber i) = int_text i"
| "param_json (PString s) = json_string s"
| "param_json POther = ''null''"

text \<open>No caller passes an empty list of parameters that is not nil.\<close>

definition request_json :: "string \<Rightarrow> rpc_param list \<Rightarrow> bytes" where
  "request_json method params = json_object
     [(''jsonrpc'', json_string ''2.0''), (''method'', json_string method),
      (''params'', if params = [] then ''null'' else json_array (map param_json params)),
      (''id'', int_text 1)]"

section \<open>What the handler decodes\<close>

text \<open>\<open>conv\<close> is the machine's conversion of a number out of range.\<close>

definition int_of_float :: "(float64 \<Rightarrow> i64) \<Rightarrow> float64 \<Rightarrow> int" where
  "int_of_float conv f =
     (case f of
        FNum x \<Rightarrow>
          let i = (if x < 0 then \<lceil>x\<rceil> else \<lfloor>x\<rfloor>)
          in if - (2 ^ 63) \<le> i \<and> i < 2 ^ 63 then i else sint (conv f)
      | _ \<Rightarrow> sint (conv f))"

text \<open>A value for an \<open>interface{}\<close>: every number in it must be in the range of floats.\<close>

fun numbers_ok :: "json \<Rightarrow> bool" where
  "numbers_ok (JNumber s) \<longleftrightarrow> ParseFloat s \<noteq> None"
| "numbers_ok (JArray vs) \<longleftrightarrow> (\<forall>v \<in> set vs. numbers_ok v)"
| "numbers_ok (JObject ms) \<longleftrightarrow> (\<forall>m \<in> set ms. numbers_ok (snd m))"
| "numbers_ok _ \<longleftrightarrow> True"

definition into_param :: "(float64 \<Rightarrow> i64) \<Rightarrow> rpc_param decoder" where
  "into_param conv v p =
     (case v of
        JString s \<Rightarrow> (PString s, True)
      | JNumber s \<Rightarrow>
          (case ParseFloat s of None \<Rightarrow> (POther, False) | Some f \<Rightarrow> (PNumber (int_of_float conv f), True))
      | _ \<Rightarrow> (POther, numbers_ok v))"

definition into_any :: "json decoder" where
  "into_any v x = (v, numbers_ok v)"

definition into_params :: "(float64 \<Rightarrow> i64) \<Rightarrow> rpc_param list decoder" where
  "into_params conv v ps = apfst elems (into_slice (into_param conv) POther v (Some ps))"

definition into_rest ::
  "('r \<Rightarrow> 'a) \<Rightarrow> (('a \<Rightarrow> 'a) \<Rightarrow> 'r \<Rightarrow> 'r) \<Rightarrow> 'a decoder \<Rightarrow> (string \<times> 'r) decoder" where
  "into_rest get upd = into_field (get \<circ> snd) (apsnd \<circ> upd)"

definition RPCRequest_fields :: "(float64 \<Rightarrow> i64) \<Rightarrow> (string \<times> json RPCRequest) fields" where
  "RPCRequest_fields conv =
     [(''jsonrpc'', into_field fst apfst into_string),
      (''method'', into_rest rq_Method rq_Method_update into_string),
      (''params'', into_rest rq_Params rq_Params_update (into_params conv)),
      (''id'', into_rest rq_ID rq_ID_update into_any)]"

text \<open>The first value of the body is decoded; what follows is not looked at.\<close>

definition UnmarshalRequest :: "(float64 \<Rightarrow> i64) \<Rightarrow> bytes \<Rightarrow> json RPCRequest option" where
  "UnmarshalRequest conv body =
     (case read_value ([], Begin) body of
        None \<Rightarrow> None
      | Some (v, _) \<Rightarrow>
          map_option snd (decoded (into_struct (RPCRequest_fields conv) v
            ([], \<lparr>rq_Method = [], rq_Params = [], rq_ID = JNull\<rparr>))))"

text \<open>The handler on the bytes of a request.\<close>

definition rpc_serve ::
  "(float64 \<Rightarrow> i64) \<Rightarrow> ('pub, 'priv, 'd) rpc_env \<Rightarrow> Config option \<Rightarrow> string option \<Rightarrow> string \<Rightarrow> bytes
     \<Rightarrow> 'd LedgerCore \<times> disk \<Rightarrow> (json http_reply \<times> ('d LedgerCore \<times> disk) \<times> bool) outcome" where
  "rpc_serve conv R cfg header httpMethod body nd =
     rpc_handle R cfg header httpMethod (UnmarshalRequest conv body) nd"

section \<open>The request is understood\<close>

definition sendable :: "rpc_param \<Rightarrow> bool" where
  "sendable p \<longleftrightarrow> (case p of PNumber i \<Rightarrow> \<bar>i\<bar> < 2 ^ 53 | PString s \<Rightarrow> valid_utf8 s | POther \<Rightarrow> True)"

fun param_value :: "rpc_param \<Rightarrow> json" where
  "param_value (PNumber i) = JNumber (int_text i)"
| "param_value (PString s) = JString s"
| "param_value POther = JNull"

lemma reads_param: "sendable p \<Longrightarrow> reads 0 (param_json p) (param_value p)"
  using reads_whole_reads [OF reads_null] reads_whole_reads [OF reads_string]
  by (cases p) (auto simp: sendable_def valid_utf8_def intro: reads_int, metis)

lemma into_param_value:
  assumes "sendable p"
  shows "into_param conv (param_value p) q = (p, True)"
proof (cases p)
  case (PNumber i)
  then show ?thesis
    using assms ParseFloat_whole [of i]
    by (auto simp: sendable_def into_param_def int_of_float_def Let_def)
qed (simp_all add: into_param_def)

lemma reads_params:
  assumes "\<forall>p \<in> set params. sendable p"
  shows "reads 1 (if params = [] then ''null'' else json_array (map param_json params))
     (if params = [] then JNull else JArray (map param_value params))"
proof (cases "params = []")
  case True
  then show ?thesis using reads_mono [OF reads_whole_reads [OF reads_null]] by simp
next
  case False
  have "list_all2 (reads 0) (map param_json params) (map param_value params)"
    using assms by (auto simp: list_all2_conv_all_nth intro: reads_param)
  from reads_whole_reads [OF reads_json_array [OF this]] False show ?thesis by simp
qed

lemma request_keys: "plain_key ''jsonrpc''" "plain_key ''method''" "plain_key ''params''" "plain_key ''id''"
  by (rule plain_key_ascii, simp)+

lemma reads_request:
  assumes "valid_utf8 method" and "\<forall>p \<in> set params. sendable p"
  shows "reads_whole 2 (request_json method params)
    (JObject [(''jsonrpc'', JString ''2.0''), (''method'', JString method),
      (''params'', if params = [] then JNull else JArray (map param_value params)),
      (''id'', JNumber (int_text 1))])"
proof -
  have leaf: "reads 0 s v \<Longrightarrow> reads 1 s v" for s v by (erule reads_mono) simp
  have "reads 1 (json_string s) (JString s)" if "valid_utf8 s" for s
    using leaf [OF reads_whole_reads [OF reads_string [of s]]] that by (simp add: valid_utf8_def)
  moreover have "valid_utf8 ''2.0''" by (rule valid_utf8_ascii) simp
  ultimately have "reads_whole (Suc 1) (request_json method params)
    (JObject [(''jsonrpc'', JString ''2.0''), (''method'', JString method),
      (''params'', if params = [] then JNull else JArray (map param_value params)),
      (''id'', JNumber (int_text 1))])"
    unfolding request_json_def using assms reads_params [OF assms(2)] leaf [OF reads_int [of 1]]
    by (intro reads_json_object) (simp add: request_keys)
  then show ?thesis by (simp add: numeral_2_eq_2)
qed

lemma request_understood:
  assumes "valid_utf8 method" and "\<forall>p \<in> set params. sendable p"
  shows "UnmarshalRequest conv (request_json method params)
    = Some \<lparr>rq_Method = method, rq_Params = params, rq_ID = JNumber (int_text 1)\<rparr>"
proof -
  obtain ws where read: "read_value ([], Begin) (request_json method params)
      = Some (JObject [(''jsonrpc'', JString ''2.0''), (''method'', JString method),
      (''params'', if params = [] then JNull else JArray (map param_value params)),
      (''id'', JNumber (int_text 1))], ws)"
    using read_value_reads [OF reads_request [OF assms], of "[]"] by (auto simp: maxNestingDepth_def)
  have "list_all2 (\<lambda>v x. \<forall>y. into_param conv v y = (x, True)) (map param_value params) params"
    using assms(2) by (auto simp: list_all2_conv_all_nth into_param_value)
  then have "into_params conv (if params = [] then JNull else JArray (map param_value params)) []
      = (params, True)"
    by (simp add: into_params_def into_slice_def into_elements_ok)
  moreover have "ParseFloat (int_text 1) \<noteq> None" using ParseFloat_whole [of 1] by simp
  ultimately show ?thesis
    by (simp add: UnmarshalRequest_def read into_struct_def RPCRequest_fields_def find_field_exact
        into_field_def into_rest_def into_any_def decoded_def)
qed

end
