(* ===== verification/Node_Status.thy ===== *)
theory Node_Status
  imports Go_Valid Blocks
begin

text \<open>
  Three small parts of \<open>internal\<close>: the uptime record (\<open>uptime.go\<close>), the traffic counters
  (\<open>nettotals.go\<close>) and the fork handler (\<open>reorg.go\<close>). The clock is an argument.
\<close>

section \<open>Uptime\<close>

record UptimeRecord =
  ut_StartTime :: i64

definition uptime_json :: "UptimeRecord \<Rightarrow> bytes" where
  "uptime_json r = MarshalIndent ''  '' (JObj [(''start_time'', JLeaf (json_int64 (ut_StartTime r)))])"

text \<open>\<open>home\<close> is the home directory when there is one.\<close>

definition getXcoshDir :: "path option \<Rightarrow> path" where
  "getXcoshDir home = (case home of None \<Rightarrow> [''xcosh_data''] | Some dir \<Rightarrow> Join dir ''.xcosh'')"

definition getUptimeFilePath :: "path option \<Rightarrow> path" where
  "getUptimeFilePath home = Join (getXcoshDir home) ''uptime.json''"

definition RecordStartTime :: "path option \<Rightarrow> i64 \<Rightarrow> disk \<Rightarrow> disk" where
  "RecordStartTime home now d =
     (let file = getUptimeFilePath home in
      if IsNotExist file d then snd (WriteFile file (uptime_json \<lparr>ut_StartTime = now\<rparr>) d) else d)"

definition time_text :: "int \<Rightarrow> int \<Rightarrow> int \<Rightarrow> int \<Rightarrow> string" where
  "time_text days hours minutes seconds =
     (let num = (\<lambda>n. format_nat 10 (nat n)) in
      if days > 0 then
        num days @ '' days, '' @ num hours @ '' hours, '' @ num minutes @ '' minutes, ''
          @ num seconds @ '' seconds''
      else if hours > 0 then
        num hours @ '' hours, '' @ num minutes @ '' minutes, '' @ num seconds @ '' seconds''
      else if minutes > 0 then num minutes @ '' minutes, '' @ num seconds @ '' seconds''
      else num seconds @ '' seconds'')"

definition uptime_text :: "int \<Rightarrow> string" where
  "uptime_text diff =
     time_text (diff div 86400) (diff mod 86400 div 3600) (diff mod 3600 div 60) (diff mod 60)"

text \<open>The difference is an \<open>int64\<close> and not negative once it is divided, so Go's division is \<open>div\<close>.
  With no file to read the clock starts now.\<close>

definition UptimeRecord_fields :: "UptimeRecord fields" where
  "UptimeRecord_fields = [(''start_time'', into_field ut_StartTime ut_StartTime_update into_int64)]"

text \<open>An error of \<open>Unmarshal\<close> is not looked at.\<close>

definition UnmarshalUptime :: "bytes \<Rightarrow> UptimeRecord" where
  "UnmarshalUptime data = fst (Unmarshal (into_struct UptimeRecord_fields) data \<lparr>ut_StartTime = 0\<rparr>)"

definition GetUptime :: "path option \<Rightarrow> i64 \<Rightarrow> disk \<Rightarrow> int \<times> string \<times> disk" where
  "GetUptime home now d =
     (let file = getUptimeFilePath home in
      case ReadFile file d of
        None \<Rightarrow> (0, ''0 seconds'', snd (WriteFile file (uptime_json \<lparr>ut_StartTime = now\<rparr>) d))
      | Some data \<Rightarrow>
          let diff = max 0 (sint (now - ut_StartTime (UnmarshalUptime data)))
          in (diff, uptime_text diff, d))"

lemma UnmarshalUptime_saved: "UnmarshalUptime (uptime_json r) = r"
proof -
  have "tree_whole (Suc 0) (JObj [(''start_time'', JLeaf (json_int64 (ut_StartTime r)))])
      (JObject [(''start_time'', JNumber (FormatInt (ut_StartTime r) 10))])"
    by (rule tree_object_plain) (simp add: plain_key_ascii tree_leaf reads_int64)
  then show ?thesis
    by (simp add: Unmarshal_indent UnmarshalUptime_def uptime_json_def maxNestingDepth_def json_space_def into_struct_def
        UptimeRecord_fields_def find_field_exact into_field_def)
qed

section \<open>Traffic counters\<close>

record UploadTarget =
  up_Timeframe :: i64
  up_Target :: i64
  up_TargetReached :: bool
  up_ServeHistoricalBlocks :: bool
  up_BytesLeftInCycle :: i64
  up_TimeLeftInCycle :: i64

record NetTotalsResponse =
  nt_TotalBytesRecv :: i64
  nt_TotalBytesSent :: i64
  nt_TimeMillis :: i64
  nt_UploadTarget :: UploadTarget

record traffic =
  tr_recv :: i64
  tr_sent :: i64

definition RecordReceive :: "i64 \<Rightarrow> traffic \<Rightarrow> traffic" where
  "RecordReceive n t = t\<lparr>tr_recv := tr_recv t + n\<rparr>"

definition RecordSend :: "i64 \<Rightarrow> traffic \<Rightarrow> traffic" where
  "RecordSend n t = t\<lparr>tr_sent := tr_sent t + n\<rparr>"

definition GetNetTotals :: "i64 \<Rightarrow> traffic \<Rightarrow> NetTotalsResponse" where
  "GetNetTotals nowMillis t =
     \<lparr>nt_TotalBytesRecv = tr_recv t, nt_TotalBytesSent = tr_sent t, nt_TimeMillis = nowMillis,
      nt_UploadTarget =
        \<lparr>up_Timeframe = 86400, up_Target = 0, up_TargetReached = False,
         up_ServeHistoricalBlocks = True, up_BytesLeftInCycle = 0, up_TimeLeftInCycle = 0\<rparr>\<rparr>"

section \<open>Forks\<close>

datatype reorg_error = TooShortOrInvalid

text \<open>Each step prints the first eight bytes of a hash before it would do anything; slicing past
  the end panics. The steps have no effect on a chain.\<close>

definition hash8 :: "LedgerBlock \<Rightarrow> bytes outcome" where
  "hash8 b = (let h = elems (blk_Hash b) in
     if length h < 8 then Panic ''slice bounds out of range'' else Ret (take 8 h))"

definition AppendToMainChain :: "LedgerBlock \<Rightarrow> reorg_error option outcome" where
  "AppendToMainChain block = obind (hash8 block) (\<lambda>_. Ret None)"

definition empty_block :: LedgerBlock where
  "empty_block =
     \<lparr>blk_Index = 0, blk_Timestamp = 0, blk_PrevHash = None, blk_Hash = None, blk_Transfers = None,
      blk_Miner = [], blk_Nonce = 0, blk_Difficulty = 0, blk_Bits = 0, blk_Reward = 0,
      blk_MaxSupply = 0, blk_HalvingInterval = 0, blk_Message = []\<rparr>"

definition FindCommonAncestor :: "LedgerBlock \<Rightarrow> LedgerBlock \<Rightarrow> LedgerBlock" where
  "FindCommonAncestor tipA tipB = empty_block"

definition RollbackChain :: "LedgerBlock \<Rightarrow> LedgerBlock \<Rightarrow> reorg_error option outcome" where
  "RollbackChain fromTip ancestor = obind (hash8 fromTip) (\<lambda>_. obind (hash8 ancestor) (\<lambda>_. Ret None))"

definition ApplyAlternativeChain :: "LedgerBlock \<Rightarrow> LedgerBlock \<Rightarrow> reorg_error option outcome" where
  "ApplyAlternativeChain toTip ancestor = obind (hash8 toTip) (\<lambda>_. Ret None)"

definition HandleReorg :: "LedgerBlock \<Rightarrow> LedgerBlock \<Rightarrow> reorg_error option outcome" where
  "HandleReorg newBlock currentTip =
     (if elems (blk_PrevHash newBlock) = elems (blk_Hash currentTip) then AppendToMainChain newBlock
      else if blk_Index newBlock \<ge> blk_Index currentTip then
        let ancestor = FindCommonAncestor currentTip newBlock in
        obind (RollbackChain currentTip ancestor) (\<lambda>e.
          case e of
            Some err \<Rightarrow> Ret (Some err)
          | None \<Rightarrow> ApplyAlternativeChain newBlock ancestor)
      else Ret (Some TooShortOrInvalid))"

section \<open>The uptime text\<close>

text \<open>A number and what follows the space after it are read back.\<close>

lemma format_digits_only:
  assumes "c \<in> set (format_nat 10 n)"
  shows "c \<noteq> CHR '' ''"
proof -
  have "2 \<le> (10 :: nat)" "10 \<le> (16 :: nat)" by simp_all
  from format_nat_digits [OF this assms] obtain d where d: "d < 10" "c = digit_char d" by blast
  then have "digit_val c = Some d" by simp
  then show ?thesis by (auto simp: digit_val_def)
qed

lemma number_then:
  assumes "format_nat 10 m @ CHR '' '' # x = format_nat 10 n @ CHR '' '' # y"
  shows "m = n \<and> x = y"
proof -
  have t: "takeWhile (\<lambda>c. c \<noteq> CHR '' '') (format_nat 10 k @ CHR '' '' # z) = format_nat 10 k" for k z
    using format_digits_only [of _ k] by (simp add: takeWhile_append)
  have "format_nat 10 m = format_nat 10 n" using t [of m x] t [of n y] assms by simp
  with assms show ?thesis by (simp add: format_nat_inject)
qed

lemma number_then_iff [simp]:
  "format_nat 10 m @ CHR '' '' # x = format_nat 10 n @ CHR '' '' # y \<longleftrightarrow> m = n \<and> x = y"
  by (rule iffI, rule number_then, assumption) simp

lemma time_parts:
  fixes d :: int
  shows "d = d div 86400 * 86400 + d mod 86400 div 3600 * 3600 + d mod 3600 div 60 * 60 + d mod 60"
proof -
  have "d mod 86400 = d mod 86400 div 3600 * 3600 + d mod 3600"
    using mod_mod_cancel [of 3600 86400 d] div_mult_mod_eq [of "d mod 86400" 3600] by simp
  moreover have "d mod 3600 = d mod 3600 div 60 * 60 + d mod 60"
    using mod_mod_cancel [of 60 3600 d] div_mult_mod_eq [of "d mod 3600" 60] by simp
  ultimately show ?thesis using div_mult_mod_eq [of d 86400] by linarith
qed


text \<open>Two durations with the same parts are the same, and two shapes of text never agree.\<close>

lemma time_parts_eq:
  fixes d e :: int
  assumes "d div 86400 = e div 86400" and "d mod 86400 div 3600 = e mod 86400 div 3600"
    and "d mod 3600 div 60 = e mod 3600 div 60" and "d mod 60 = e mod 60"
  shows "d = e"
  using time_parts [of d] time_parts [of e] unfolding assms by linarith

lemma time_text_inject:
  assumes "0 \<le> d" "0 \<le> h" "0 \<le> m" "0 \<le> s" and "0 \<le> d'" "0 \<le> h'" "0 \<le> m'" "0 \<le> s'"
    and "time_text d h m s = time_text d' h' m' s'"
  shows "d = d' \<and> h = h' \<and> m = m' \<and> s = s'"
  using assms by (simp add: time_text_def Let_def nat_eq_iff format_nat_inject split: if_splits)

lemma uptime_text_inject:
  assumes "0 \<le> d" and "0 \<le> e" and same: "uptime_text d = uptime_text e"
  shows "d = e"
proof -
  have pos: "0 \<le> x div 86400" "0 \<le> x mod 86400 div 3600" "0 \<le> x mod 3600 div 60" "0 \<le> x mod 60"
    if "0 \<le> x" for x :: int
    using that by (simp_all add: pos_imp_zdiv_nonneg_iff)
  note parts = time_text_inject [OF pos [OF assms(1)] pos [OF assms(2)] same [unfolded uptime_text_def]]
  show ?thesis by (rule time_parts_eq) (use parts in blast)+
qed

end
