(* ===== verification/Commands.thy ===== *)
theory Commands
  imports RPC_Wire Node_Status
begin

text \<open>
  The commands of \<open>internal/cli/handlers.go\<close> and the daemon of \<open>internal/daemon/server.go\<close>. A command
  returns what it would print, and the disk it leaves; the ledger it opens is closed with the
  process. What the standard library decides about text that is only passed to it
  (\<open>net.ParseIP\<close>) is a parameter, and so are the clock and the result of mining a genesis block.
\<close>

record ('pub, 'priv, 'd) cli_env =
  ce_rpc :: "('pub, 'priv, 'd) rpc_env"
  ce_open :: "string \<Rightarrow> 'd option"
  ce_genesis :: "u64 \<times> bytes"
  ce_ParseIP :: "string \<Rightarrow> bool"
  ce_path :: "path \<Rightarrow> string"

definition ce_home :: "('pub, 'priv, 'd) cli_env \<Rightarrow> path option" where
  "ce_home C = re_home (ce_rpc C)"

definition wallet_path :: "('pub, 'priv, 'd) cli_env \<Rightarrow> path" where
  "wallet_path C = Join (GetDataDir (ce_home C)) ''wallet.dat''"

text \<open>\<open>node.InitializeLedger\<close> on the data directory.\<close>

definition cli_ledger :: "('pub, 'priv, 'd) cli_env \<Rightarrow> u32 \<Rightarrow> string \<Rightarrow> 'd LedgerCore outcome" where
  "cli_ledger C difficulty miner =
     InitializeLedger (re_node (ce_rpc C)) (ce_open C) (ce_genesis C)
       (ce_path C (GetDataDir (ce_home C))) difficulty miner"

section \<open>Wallet, balances, supply\<close>

definition HandleCreateWalletAccount ::
  "('pub, 'priv, 'd) cli_env \<Rightarrow> bytes \<Rightarrow> disk \<Rightarrow> (string option \<times> disk) outcome" where
  "HandleCreateWalletAccount C rand d =
     GenerateNewAccount (ne_crypto (re_node (ce_rpc C))) rand (wallet_path C) d"

definition HandleCheckBalance ::
  "('pub, 'priv, 'd) cli_env \<Rightarrow> (string \<Rightarrow> (float64 \<times> u64) option) outcome" where
  "HandleCheckBalance C =
     obind (cli_ledger C 1 ''SYSTEM_VIEWER'') (\<lambda>lc.
       Ret (\<lambda>addr. map_option (\<lambda>acc. (ToDecimal (acc_Balance acc), acc_Nonce acc)) (lc_State lc addr)))"

text \<open>The supply as the command computes it, and what is left.\<close>

definition supply_estimate :: "nat \<Rightarrow> u64 \<times> u64" where
  "supply_estimate blocks =
     (let maxSupply = 785000000 * 100000000 :: u64;
          circulatingSupply = of_nat blocks * 5000000000
      in (circulatingSupply,
          if maxSupply > circulatingSupply then maxSupply - circulatingSupply else 0))"

text \<open>What is shown: the cap, the supply and what is left, in coins.\<close>

definition HandleCheckSupply :: "('pub, 'priv, 'd) cli_env \<Rightarrow> (float64 \<times> float64 \<times> float64) outcome" where
  "HandleCheckSupply C =
     obind (cli_ledger C 1 ''SYSTEM_VIEWER'') (\<lambda>lc.
       case supply_estimate (length (lc_Chain lc)) of
         (circulating, remaining) \<Rightarrow>
           Ret (ToDecimal (785000000 * 100000000), ToDecimal circulating, ToDecimal remaining))"

section \<open>Sending\<close>

datatype send_result =
    IncompleteArguments
  | BadRecipientPrefix
  | WalletUnavailable
  | SenderNotInWallet
  | NoPrivateKey wallet_error
  | Queued Transfer string

definition send_account :: "WalletFile option \<Rightarrow> string \<Rightarrow> send_result + Account" where
  "send_account w senderAddr =
     (case w of
        None \<Rightarrow> Inl WalletUnavailable
      | Some wfile \<Rightarrow>
          if wf_Accounts wfile = [] then Inl WalletUnavailable
          else if senderAddr \<noteq> [] then
            (case find (\<lambda>acc. ac_Address acc = senderAddr) (wf_Accounts wfile) of
               None \<Rightarrow> Inl SenderNotInWallet
             | Some acc \<Rightarrow> Inr acc)
          else Inr (hd (wf_Accounts wfile)))"

definition HandleSendTx ::
  "('pub, 'priv, 'd) cli_env \<Rightarrow> bytes \<Rightarrow> nat \<Rightarrow> string \<Rightarrow> u64 \<Rightarrow> u64 \<Rightarrow> string \<Rightarrow> disk
     \<Rightarrow> (send_result \<times> disk) outcome" where
  "HandleSendTx C rand nanos recipient amount fee senderAddr d =
     (let L = ne_crypto (re_node (ce_rpc C)) in
      if recipient = [] \<or> amount = 0 then Ret (IncompleteArguments, d)
      else if \<not> HasPrefix recipient (cp_AddressPrefix DefaultConsensus) then Ret (BadRecipientPrefix, d)
      else
        let w = LoadWalletCustom (wallet_path C) d in
        case send_account w senderAddr of
          Inl err \<Rightarrow> Ret (err, d)
        | Inr acc \<Rightarrow>
            (case GetPrivateKeyInstance L (the w) (ac_Address acc) of
               Inl err \<Rightarrow> Ret (NoPrivateKey err, d)
             | Inr (priv, pubBytes) \<Rightarrow>
                 obind (cli_ledger C 1 (ac_Address acc)) (\<lambda>lc.
                   let currentNonce = (case lc_State lc (ac_Address acc) of
                         None \<Rightarrow> 0
                       | Some st \<Rightarrow> acc_Nonce st + of_nat (nanos mod 100000))
                   in obind (NewTransfer L rand priv (Some pubBytes) recipient amount fee currentNonce)
                     (\<lambda>tx.
                       let existing = LoadMempoolFromDisk (ce_home C) d;
                           d1 = SaveMempoolToDisk (ce_home C) (Some (elems existing @ [Some tx])) d;
                           txID = ComputeID L tx
                       in if length txID < 16 then Panic ''slice bounds out of range''
                          else Ret (Queued tx (take 16 txID), d1)))))"

section \<open>Nodes, mining, peers\<close>

datatype addnode_result = NodeUsage | BadHostPort | BadPort | BadHost | NodeAdded string int

text \<open>The argument, or the first one of the command line after the command; then the request that
  follows an added node.\<close>

definition HandleAddNode ::
  "('pub, 'priv, 'd) cli_env \<Rightarrow> string \<Rightarrow> string option \<Rightarrow> disk
     \<Rightarrow> (addnode_result \<times> disk \<times> (string \<times> rpc_param list) option) outcome" where
  "HandleAddNode C arg osArg d =
     (case (if arg \<noteq> [] then Some arg else osArg) of
        None \<Rightarrow> Ret (NodeUsage, d, None)
      | Some peerAddr \<Rightarrow>
          (case SplitHostPort peerAddr of
             None \<Rightarrow> Ret (BadHostPort, d, None)
           | Some (host, portStr) \<Rightarrow>
               (case Sscan_int portStr of
                  None \<Rightarrow> Ret (BadPort, d, None)
                | Some port \<Rightarrow>
                    if port \<le> 0 \<or> port > 65535 then Ret (BadPort, d, None)
                    else if \<not> ce_ParseIP C host \<and> host \<noteq> ''localhost'' then Ret (BadHost, d, None)
                    else
                      obind (AddAddress (re_am_encode (ce_rpc C)) host port (re_now (ce_rpc C))
                               (NewAddrManager (re_am_decode (ce_rpc C)) (GetDataDir (ce_home C)) d) d)
                        (\<lambda>(am, d1). Ret (NodeAdded host port, d1, Some (''addnode'', [PString peerAddr]))))))"

definition first_account :: "WalletFile option \<Rightarrow> string \<Rightarrow> string" where
  "first_account w fallback =
     (case w of
        None \<Rightarrow> fallback
      | Some wfile \<Rightarrow> if wf_Accounts wfile = [] then fallback else ac_Address (hd (wf_Accounts wfile)))"

definition HandleManualMine ::
  "('pub, 'priv, 'd) cli_env \<Rightarrow> int \<Rightarrow> string \<Rightarrow> disk \<Rightarrow> string \<times> rpc_param list" where
  "HandleManualMine C blocksCount targetAddress d =
     (let target = (if targetAddress = []
                    then first_account (LoadWallet (ce_home C) d) ''SYSTEM_MINER''
                    else targetAddress)
      in (''generate'', [PNumber blocksCount, PString target]))"

text \<open>\<open>None\<close> when there is no file to read; a file that does not decode shows no peers.\<close>

definition UnmarshalPeers :: "bytes \<Rightarrow> string list option" where
  "UnmarshalPeers data = map_option elems (decoded (Unmarshal (into_slice into_string []) data None))"

definition HandleCheckPeers :: "path option \<Rightarrow> disk \<Rightarrow> string list option" where
  "HandleCheckPeers home d =
     (case ReadFile (Join (GetDataDir home) ''peers.json'') d of
        None \<Rightarrow> None
      | Some data \<Rightarrow> Some (case UnmarshalPeers data of None \<Rightarrow> [] | Some peers \<Rightarrow> peers))"

definition HandleCheckFees ::
  "(float64 \<Rightarrow> u64) \<Rightarrow> ('pub, 'priv, 'd) cli_env \<Rightarrow> disk \<Rightarrow> (nat \<times> float64 \<times> float64) outcome" where
  "HandleCheckFees conv C d =
     obind (cli_ledger C 1 (first_account (LoadWallet (ce_home C) d) ''SYSTEM_VIEWER''))
       (\<lambda>lc.
       obind (pointers (LoadMempoolFromDisk (ce_home C) d)) (\<lambda>disk.
         let diskMempool = elems disk;
             lc1 = (if diskMempool \<noteq> [] then lc\<lparr>lc_Mempool := diskMempool\<rparr> else lc)
         in case GetMempoolFeeStats lc1 of
              (pending, highest, avg) \<Rightarrow>
                Ret (pending, ToDecimal highest, ToDecimal (uint64_of_float conv avg))))"

definition HandleCheckUptime :: "('pub, 'priv, 'd) cli_env \<Rightarrow> i64 \<Rightarrow> disk \<Rightarrow> string \<times> disk" where
  "HandleCheckUptime C now d = snd (GetUptime (ce_home C) now d)"

section \<open>Looking blocks up\<close>

datatype block_lookup = BadIndex | OutOfRange u64 nat | BlockHash string

text \<open>The test converts the index to a signed number, the access does not.\<close>

definition block_at :: "u64 \<Rightarrow> LedgerBlock list \<Rightarrow> block_lookup outcome" where
  "block_at index chain =
     (if sint index \<ge> int (length chain) then Ret (OutOfRange index (length chain))
      else if length chain \<le> unat index then Panic ''index out of range''
      else Ret (BlockHash (hex_encode (elems (blk_Hash (chain ! unat index))))))"

definition HandleGetBlockHash :: "('pub, 'priv, 'd) cli_env \<Rightarrow> string \<Rightarrow> block_lookup outcome" where
  "HandleGetBlockHash C indexStr =
     (case Sscan_uint64 indexStr of
        None \<Rightarrow> Ret BadIndex
      | Some index \<Rightarrow> obind (cli_ledger C 1 ''SYSTEM_VIEWER'') (\<lambda>lc. block_at index (lc_Chain lc)))"

definition HandleGetBlock :: "('pub, 'priv, 'd) cli_env \<Rightarrow> string \<Rightarrow> LedgerBlock option outcome" where
  "HandleGetBlock C targetHash =
     obind (cli_ledger C 1 ''SYSTEM_VIEWER'') (\<lambda>lc.
       Ret (find (\<lambda>block. hex_encode (elems (blk_Hash block)) = targetHash) (lc_Chain lc)))"

section \<open>The client of the daemon\<close>

text \<open>The port and the authorisation header of a request; the configuration is only used when it
  was loaded without an error.\<close>

definition HandleRPCClient_request :: "bool \<times> Config \<times> disk \<Rightarrow> string \<times> string option" where
  "HandleRPCClient_request loaded =
     (case loaded of (err, cfg, d) \<Rightarrow>
        (if \<not> err \<and> cfg_RPCPort cfg \<noteq> [] then cfg_RPCPort cfg else ''19332'',
         client_header (if err then None else Some cfg)))"

text \<open>What the client makes of the answer, \<open>None\<close> when there is no connection: every case but the last
  ends the process with status 1.\<close>

datatype client_result =
    NoDaemon
  | NotAuthorized
  | NotJSON
  | RPCFailed int string
  | Printed rpc_result

definition HandleRPCClient_reply :: "'i http_reply option \<Rightarrow> client_result" where
  "HandleRPCClient_reply resp =
     (case resp of
        None \<Rightarrow> NoDaemon
      | Some Unauthorized \<Rightarrow> NotAuthorized
      | Some MethodNotAllowed \<Rightarrow> NotJSON
      | Some InvalidJSON \<Rightarrow> NotJSON
      | Some (Reply r) \<Rightarrow>
          (case rp_Error r of
             Some (code, message) \<Rightarrow> RPCFailed code message
           | None \<Rightarrow> Printed (rp_Result r)))"

text \<open>A call of the client on a daemon that listens on its port: the request is posted with the
  identifier 1.\<close>

definition HandleRPCClient ::
  "(float64 \<Rightarrow> i64) \<Rightarrow> ('pub, 'priv, 'd) rpc_env \<Rightarrow> Config option \<Rightarrow> bool \<times> Config \<times> disk \<Rightarrow> string \<Rightarrow> rpc_param list
     \<Rightarrow> 'd LedgerCore \<times> disk \<Rightarrow> (client_result \<times> ('d LedgerCore \<times> disk) \<times> bool) outcome" where
  "HandleRPCClient conv R daemon_cfg loaded method params nd =
     obind (rpc_serve conv R daemon_cfg (snd (HandleRPCClient_request loaded)) ''POST''
              (request_json method params) nd)
       (\<lambda>(reply, nd1, stop). Ret (HandleRPCClient_reply (Some reply), nd1, stop))"

section \<open>The daemon\<close>

definition daemon_miner :: "('pub, 'priv, 'd) cli_env \<Rightarrow> disk \<Rightarrow> string" where
  "daemon_miner C d = first_account (LoadWallet (ce_home C) d) ''SYSTEM_MINER''"

definition daemon_rpc_port :: "bool \<times> Config \<times> disk \<Rightarrow> string" where
  "daemon_rpc_port loaded =
     (case loaded of (err, cfg, d) \<Rightarrow>
        if err then ''19332'' else if cfg_RPCPort cfg \<noteq> [] then cfg_RPCPort cfg else ''19332'')"

definition daemon_port :: "string \<Rightarrow> Config \<Rightarrow> string" where
  "daemon_port port cfg =
     (if cfg_Port cfg \<noteq> [] then
        (if hd (cfg_Port cfg) \<noteq> CHR '':'' then CHR '':'' # cfg_Port cfg else cfg_Port cfg)
      else port)"

text \<open>Start-up: the start time is recorded, the configuration loaded, and the ledger opened at
  difficulty 3 for the first account of the wallet.\<close>

definition daemon_start ::
  "('pub, 'priv, 'd) cli_env \<Rightarrow> bytes \<Rightarrow> i64 \<Rightarrow> string \<Rightarrow> disk
     \<Rightarrow> (string \<times> string \<times> Config \<times> 'd LedgerCore \<times> disk) outcome" where
  "daemon_start C rnd now port d =
     (let d1 = RecordStartTime (ce_home C) now d;
          addrMiner = daemon_miner C d1;
          loaded = LoadConfig rnd (GetDataDir (ce_home C)) d1;
          (err, cfg, d2) = loaded
      in obind (cli_ledger C 3 addrMiner) (\<lambda>lc.
           Ret (daemon_port port cfg, daemon_rpc_port loaded, cfg, lc, d2)))"

text \<open>One turn of the miner loop: the queue on disk replaces the node's, a block is mined, and the
  queue on disk is emptied. A nil transfer in it is dereferenced; that a full block may end the
  loop before it is left out.\<close>

definition daemon_tick ::
  "('pub, 'priv, 'd) cli_env \<Rightarrow> i64 \<Rightarrow> u64 \<times> bytes \<Rightarrow> 'd LedgerCore \<times> disk
     \<Rightarrow> ('d LedgerCore \<times> disk) outcome" where
  "daemon_tick C now mined nd =
     obind (pointers (LoadMempoolFromDisk (ce_home C) (snd nd))) (\<lambda>disk.
       let diskMempool = elems disk in
       if diskMempool \<noteq> [] then
         obind (MineBlock (re_node (ce_rpc C)) now mined ((fst nd)\<lparr>lc_Mempool := diskMempool\<rparr>)) (\<lambda>lc.
           Ret (lc, SaveMempoolToDisk (ce_home C) (Some []) (snd nd)))
       else Ret nd)"

definition daemon_status :: "string \<Rightarrow> string \<Rightarrow> bytes" where
  "daemon_status port updated = MarshalIndent ''  ''
     (JObj [(''port'', JLeaf (json_string port)), (''status'', JLeaf (json_string ''active'')),
            (''updated_at'', JLeaf (json_string updated))])"

text \<open>The exporter overwrites the file \<open>HandleCheckPeers\<close> reads.\<close>

definition daemon_export :: "('pub, 'priv, 'd) cli_env \<Rightarrow> string \<Rightarrow> string \<Rightarrow> disk \<Rightarrow> disk" where
  "daemon_export C port updated d =
     snd (WriteFile (Join (GetDataDir (ce_home C)) ''peers.json'') (daemon_status port updated) d)"

end
