(* ===== verification/Ledger_Chain.thy ===== *)
theory Ledger_Chain
  imports Ledger
begin

text \<open>
  The shape of the chain under the ledger's operations: consecutive heights, increasing
  timestamps, hash links, and a supply that stays under the cap without wrapping. What the
  ledger needs of the validator is the locale \<open>block_gate\<close>; the chain lemmas are proved from
  it and the model's validator interprets it.
\<close>

section \<open>Linked chains\<close>

fun linked :: "LedgerBlock list \<Rightarrow> bool" where
  "linked (b # c # bs) \<longleftrightarrow> follows c (Some b) \<and> linked (c # bs)"
| "linked _ \<longleftrightarrow> True"

definition issued :: "LedgerBlock list \<Rightarrow> nat" where
  "issued chain = sum_list (map (\<lambda>b. unat (blk_Reward b)) chain)"

definition chain_ok :: "LedgerBlock list \<Rightarrow> bool" where
  "chain_ok chain \<longleftrightarrow>
     chain \<noteq> [] \<and> blk_Index (hd chain) = 0 \<and> linked chain \<and> issued chain \<le> unat MaxSupply"

lemma linked_snoc:
  "linked (bs @ [b]) \<longleftrightarrow> linked bs \<and> (bs \<noteq> [] \<longrightarrow> follows b (Some (last bs)))"
  by (induction bs rule: linked.induct) auto

lemma linked_butlast: "linked bs \<Longrightarrow> linked (butlast bs)"
  by (cases bs rule: rev_cases) (simp_all add: linked_snoc)

lemma linked_nth:
  assumes "linked bs" and "Suc i < length bs"
  shows "follows (bs ! Suc i) (Some (bs ! i))"
  using assms
proof (induction bs arbitrary: i rule: linked.induct)
  case (1 b c bs)
  then show ?case by (cases i) auto
qed simp_all

lemma issued_snoc [simp]: "issued (bs @ [b]) = issued bs + unat (blk_Reward b)"
  by (simp add: issued_def)

text \<open>Heights are positions.\<close>

lemma chain_index:
  assumes "chain_ok bs" and "i < length bs"
  shows "blk_Index (bs ! i) = of_nat i"
  using assms(2)
proof (induction i)
  case 0
  with assms(1) show ?case by (auto simp: chain_ok_def hd_conv_nth)
next
  case (Suc i)
  with assms(1) have "follows (bs ! Suc i) (Some (bs ! i))"
    by (intro linked_nth) (simp_all add: chain_ok_def)
  with Suc show ?case by (simp add: follows_def)
qed

lemma chain_ok_butlast:
  assumes "chain_ok bs" and "1 < length bs"
  shows "chain_ok (butlast bs)"
proof -
  from assms(2) obtain b cs c where bs: "bs = (b # cs) @ [c]"
    by (cases bs; cases "tl bs" rule: rev_cases) auto
  have "issued (b # cs) \<le> issued bs" unfolding bs issued_def by simp
  with assms(1) show ?thesis
    using linked_snoc [of "b # cs" c] by (simp add: chain_ok_def bs)
qed

text \<open>The supply the code adds up in 64 bits is the number issued, as long as that stays under
  the cap.\<close>

lemma foldl_add_word:
  "foldl (\<lambda>s x. s + f x) a xs = a + sum_list (map f xs)" for f :: "'x \<Rightarrow> 'a::len word"
  by (induction xs arbitrary: a) (simp_all add: add.assoc)

lemma unat_sum_list_small:
  assumes "sum_list (map (\<lambda>x. unat (f x)) xs) < 2 ^ LENGTH('a)"
  shows "unat (sum_list (map f xs) :: 'a::len word) = sum_list (map (\<lambda>x. unat (f x)) xs)"
  using assms by (induction xs) (simp_all add: unat_plus_no_wrap)

lemma unat_supply:
  assumes "issued (lc_Chain lc) \<le> unat MaxSupply"
  shows "unat (GetTotalCirculatingSupply lc) = issued (lc_Chain lc)"
proof -
  have "sum_list (map (\<lambda>b. unat (blk_Reward b)) (lc_Chain lc)) < 2 ^ LENGTH(64)"
    using assms by (simp add: issued_def)
  then show ?thesis
    unfolding GetTotalCirculatingSupply_def foldl_add_word issued_def
    by (simp only: add_0 unat_sum_list_small)
qed

section \<open>The contract of the block validator\<close>

locale block_gate =
  fixes check :: "LedgerBlock \<Rightarrow> LedgerBlock option \<Rightarrow> u64 \<Rightarrow> block_error option"
  assumes check_follows: "check b p s = None \<Longrightarrow> follows b p"
    and check_cap: "check b p s = None \<Longrightarrow> s \<le> MaxSupply \<Longrightarrow>
      unat s + unat (blk_Reward b) \<le> unat MaxSupply"
begin

lemma gate_extends_chain:
  assumes "chain_ok bs" and "unat s = issued bs" and "check b (Some (last bs)) s = None"
  shows "chain_ok (bs @ [b])"
proof -
  have "s \<le> MaxSupply"
    using assms(1,2) by (simp add: chain_ok_def word_le_nat_alt)
  with assms check_follows [OF assms(3)] check_cap [OF assms(3)] show ?thesis
    by (auto simp: chain_ok_def linked_snoc)
qed

lemma gate_starts_chain:
  assumes "check b None s = None" and "s \<le> MaxSupply"
  shows "chain_ok [b]"
  using check_follows [OF assms(1)] check_cap [OF assms]
  by (simp add: chain_ok_def follows_def issued_def)

end

interpretation validator: block_gate ValidateBlockConsensus
proof unfold_locales
  fix b p s
  assume ok: "ValidateBlockConsensus b p s = None"
  then show "follows b p" by (simp add: validate_accepts_iff)
  assume "s \<le> MaxSupply"
  with ok show "unat s + unat (blk_Reward b) \<le> unat MaxSupply"
    using expected_reward_within_cap by (simp add: validate_accepts_iff)
qed

section \<open>The operations keep the chain well formed\<close>

lemma select_keeps:
  assumes "MineBlock_select lc = Ret (parent, txs, fees, lc1)"
  shows "parent = last (lc_Chain lc)" and "lc_Chain lc \<noteq> []" and "lc_Chain lc1 = lc_Chain lc"
    and "lc_MinerAddress lc1 = lc_MinerAddress lc" and "lc_Storage lc1 = lc_Storage lc"
    and "lc_Engine lc1 = lc_Engine lc"
    and "lc_MinerAddress lc = ''SYSTEM_GENESIS'' \<or> HasPrefix (lc_MinerAddress lc) AddressPrefix"
  using assms
  by (auto simp: MineBlock_select_def Let_def DefaultConsensus_def obind_Ret_iff split: if_splits)

lemma template_keeps:
  assumes "MineBlock_template parent txs now lc = (cur, block, lc1)"
  shows "cur = GetTotalCirculatingSupply lc" and "lc_Chain lc1 = lc_Chain lc"
    and "lc_State lc1 = lc_State lc" and "lc_MinerAddress lc1 = lc_MinerAddress lc"
    and "lc_Storage lc1 = lc_Storage lc" and "lc_Mempool lc1 = lc_Mempool lc"
    and "blk_Transfers block = Some txs" and "blk_Miner block = lc_MinerAddress lc"
    and "blk_Index block = blk_Index parent + 1"
    and "blk_Reward block = expected_reward (blk_Index parent + 1) cur"
  using assms
  by (auto simp: MineBlock_template_def Let_def expected_reward_def node_CalculateBlockReward_def)

lemma commit_Ret:
  assumes "MineBlock_commit E parent cur block fees lc = Ret lc'"
  shows "ValidateBlockConsensus block (Some parent) cur = None"
    and "lc_Chain lc' = lc_Chain lc @ [block]"
    and "lc_Mempool lc' = lc_Mempool lc" and "lc_MinerAddress lc' = lc_MinerAddress lc"
  using assms
  by (auto simp: MineBlock_commit_def with_storage_def Let_def split: option.splits if_splits)

lemma mined_block_simps [simp]:
  "blk_Index (mined_block ce b m) = blk_Index b"
  "blk_Transfers (mined_block ce b m) = blk_Transfers b"
  "blk_Miner (mined_block ce b m) = blk_Miner b"
  "blk_Reward (mined_block ce b m) = blk_Reward b"
  "blk_Timestamp (mined_block ce b m) = blk_Timestamp b"
  "blk_PrevHash (mined_block ce b m) = blk_PrevHash b"
  "blk_Difficulty (mined_block ce b m) = blk_Difficulty b"
  by (simp_all add: mined_block_def)

text \<open>One mined block, taken apart: the phases that made it and the block they appended.\<close>

lemma MineBlock_RetE:
  assumes "MineBlock E now mined lc = Ret lc'"
  obtains parent txs fees lc1 cur block lc2 where
    "MineBlock_select lc = Ret (parent, txs, fees, lc1)"
    "MineBlock_template parent txs now lc1 = (cur, block, lc2)"
    "MineBlock_commit E parent cur (mined_block (lc_Engine lc2) block mined) fees lc2 = Ret lc'"
  using assms unfolding MineBlock_def
  by (elim obind_RetE) (auto split: prod.splits)

lemma MineBlock_chain_ok [chain_intro]:
  assumes "chain_ok (lc_Chain lc)" and "MineBlock E now mined lc = Ret lc'"
  shows "chain_ok (lc_Chain lc')"
proof -
  from assms(2) obtain parent txs fees lc1 cur block lc2
    where sel: "MineBlock_select lc = Ret (parent, txs, fees, lc1)"
      and tmp: "MineBlock_template parent txs now lc1 = (cur, block, lc2)"
      and com: "MineBlock_commit E parent cur (mined_block (lc_Engine lc2) block mined) fees lc2
                = Ret lc'"
    by (rule MineBlock_RetE)
  note s = select_keeps [OF sel] and t = template_keeps [OF tmp] and c = commit_Ret [OF com]
  have "unat cur = issued (lc_Chain lc)"
    using assms(1) t(1) s(3) by (simp add: unat_supply chain_ok_def)
  with assms(1) c(1) s(1) show ?thesis
    unfolding c(2) t(2) s(3) by (blast intro: validator.gate_extends_chain)
qed

lemma AppendBlockDirectly_Ret:
  assumes "AppendBlockDirectly E block lc = Ret (None, lc')"
  shows "ValidateBlockConsensus block (GetLatestBlock lc) (GetTotalCirculatingSupply lc) = None"
    and "lc_Chain lc' = lc_Chain lc @ [block]"
    and "RebuildState block (lc_State lc) = Ret (lc_State lc')"
    and "lc_Mempool lc' = lc_Mempool lc" and "lc_MinerAddress lc' = lc_MinerAddress lc"
  using assms
  by (auto simp: AppendBlockDirectly_def Let_def obind_Ret_iff
      split: option.splits if_splits)

lemma AppendBlockDirectly_error:
  assumes "AppendBlockDirectly E block lc = Ret (Some e, lc')"
  shows "lc' = lc"
  using assms by (auto simp: AppendBlockDirectly_def Let_def obind_Ret_iff split: option.splits if_splits)

lemma AppendBlockDirectly_chain_ok [chain_intro]:
  assumes "chain_ok (lc_Chain lc)" and "AppendBlockDirectly E block lc = Ret (r, lc')"
  shows "chain_ok (lc_Chain lc')"
proof (cases r)
  case (Some e)
  with assms show ?thesis by (auto dest: AppendBlockDirectly_error)
next
  case None
  with assms(2) have a: "AppendBlockDirectly E block lc = Ret (None, lc')" by simp
  have "ValidateBlockConsensus block (Some (last (lc_Chain lc))) (GetTotalCirculatingSupply lc) = None"
    using AppendBlockDirectly_Ret(1) [OF a] assms(1) by (simp add: GetLatestBlock_def chain_ok_def)
  with assms(1) show ?thesis
    unfolding AppendBlockDirectly_Ret(2) [OF a]
    by (intro validator.gate_extends_chain) (simp_all add: unat_supply chain_ok_def)
qed

lemma RollbackBlock_chain:
  assumes "RollbackBlock E lc = Ret (r, lc')"
  shows "lc_Chain lc' = lc_Chain lc \<and> length (lc_Chain lc) \<le> 1
       \<or> lc_Chain lc' = butlast (lc_Chain lc) \<and> 1 < length (lc_Chain lc)"
  using assms
  by (auto simp: RollbackBlock_def Let_def Ledger_DeleteBlock_def obind_Ret_iff
      split: prod.splits option.splits if_splits)

lemma RollbackBlock_chain_ok [chain_intro]:
  assumes "chain_ok (lc_Chain lc)" and "RollbackBlock E lc = Ret (r, lc')"
  shows "chain_ok (lc_Chain lc')"
  using RollbackBlock_chain [OF assms(2)] assms(1) by (elim disjE) (simp_all add: chain_ok_butlast)

lemma AddToMempool_chain:
  "AddToMempool E tx lc = Ret (r, lc') \<Longrightarrow> lc_Chain lc' = lc_Chain lc"
  by (auto simp: AddToMempool_def Let_def obind_Ret_iff split: if_splits)

lemma SpawnGenesis_Ret:
  assumes "SpawnGenesis E mined lc = Ret lc'"
  shows "lc_Chain lc' = lc_Chain lc @
      [(Mine_prepare (lc_Engine lc) (genesis_template (lc_Engine lc)))
         \<lparr>blk_Nonce := fst mined, blk_Hash := Some (snd mined),
          blk_Reward := node_CalculateBlockReward 0\<rparr>]"
    and "lc_State lc' = lc_State lc"
  using assms by (auto simp: SpawnGenesis_def with_storage_def Let_def split: option.splits)

lemma SpawnGenesis_chain_ok [chain_intro]:
  assumes "SpawnGenesis E mined lc = Ret lc'" and "lc_Chain lc = []"
  shows "chain_ok (lc_Chain lc')"
  using SpawnGenesis_Ret(1) [OF assms(1)] assms(2)
  by (simp add: chain_ok_def issued_def genesis_template_def node_CalculateBlockReward_def
      unat_CalculateBlockReward reward_nat_def)

end
