(* ===== verification/Ledger_Balances.thy ===== *)
theory Ledger_Balances
  imports Ledger_Chain
begin

text \<open>
  What the account state is: a function of the chain. The abstract state is a balance for
  every address (\<open>bal\<close>, zero for an address the map does not hold); \<open>pay\<close> and \<open>reward\<close> are
  what a transfer and a block do to it. \<open>RebuildState\<close> implements them outright, and the live
  path of \<open>MineBlock\<close> implements the same ones for the transfers it accepts, so the state the
  node keeps and the state rebuilt from its blocks are the same balances.
\<close>

section \<open>Balances\<close>

type_synonym balances = "string \<Rightarrow> u64"

definition bal :: "accounts \<Rightarrow> balances" where
  "bal St = (\<lambda>a. case St a of None \<Rightarrow> 0 | Some acc \<Rightarrow> acc_Balance acc)"

definition pay :: "Transfer \<Rightarrow> string \<Rightarrow> balances \<Rightarrow> balances" where
  "pay tx sender B =
     (let cost = tx_Value tx + tx_Fee tx;
          B1 = B(sender := (if cost \<le> B sender then B sender - cost else 0))
      in B1(tx_Recipient tx := B1 (tx_Recipient tx) + tx_Value tx))"

lemma bal_ensure [simp]: "bal (ensure_account a St) = bal St"
  by (auto simp: bal_def ensure_account_def zero_account_def fun_eq_iff split: option.splits)

lemma ensure_holds [simp]: "ensure_account a St a \<noteq> None"
  by (simp add: ensure_account_def split: option.splits)

lemma bal_update:
  assumes "St a \<noteq> None"
  shows "bal (update_account a f St) = (bal St)(a := acc_Balance (f (the (St a))))"
  using assms by (auto simp: bal_def update_account_def fun_eq_iff split: option.splits)

lemma bal_the: "St a \<noteq> None \<Longrightarrow> acc_Balance (the (St a)) = bal St a"
  by (auto simp: bal_def)

lemma bal_upd: "bal (St(a \<mapsto> acc)) = (bal St)(a := acc_Balance acc)"
  by (auto simp: bal_def fun_eq_iff)

lemma bal_credit: "bal (credit a v St) = (bal St)(a := bal St a + v)"
  by (simp add: credit_def bal_update bal_the)

text \<open>The credit written out in \<open>MineBlock\<close>: a fresh account or an addition.\<close>

lemma bal_credit_inline:
  "bal (case St a of None \<Rightarrow> St(a \<mapsto> \<lparr>acc_Balance = v, acc_Nonce = 0\<rparr>)
        | Some _ \<Rightarrow> update_account a (\<lambda>acc. acc\<lparr>acc_Balance := acc_Balance acc + v\<rparr>) St)
     = (bal St)(a := bal St a + v)"
proof (cases "St a")
  case None
  then have "bal St a = 0" by (simp add: bal_def)
  with None show ?thesis by (simp add: bal_upd)
next
  case (Some acc)
  then have "bal St a = acc_Balance acc" by (simp add: bal_def)
  with Some show ?thesis by (simp add: bal_update)
qed

section \<open>Rebuilding implements the abstract steps\<close>

lemma rebuild_tx_bal:
  assumes "PubkeyToAddress (elems (tx_SenderPubKey tx)) = Ret sender"
  shows "\<exists>St'. rebuild_tx tx St = Ret St' \<and> bal St' = pay tx sender (bal St)"
  using assms by (simp add: rebuild_tx_def Let_def bal_credit bal_update bal_the pay_def)

lemma rebuild_tx_Ret:
  assumes "rebuild_tx tx St = Ret St'"
  obtains sender where "PubkeyToAddress (elems (tx_SenderPubKey tx)) = Ret sender"
    and "bal St' = pay tx sender (bal St)"
proof -
  from assms obtain sender where s: "PubkeyToAddress (elems (tx_SenderPubKey tx)) = Ret sender"
    by (auto simp: rebuild_tx_def elim: obind_RetE)
  with assms rebuild_tx_bal [OF s, of St] show thesis by (auto intro: that)
qed

text \<open>Rebuilding depends on the balances only: the same transfers over the same balances
  give the same balances.\<close>

lemma rebuild_txs_cong:
  assumes "bal St = bal Su" and "ofold rebuild_tx txs St = Ret St'"
  shows "\<exists>Su'. ofold rebuild_tx txs Su = Ret Su' \<and> bal Su' = bal St'"
  using assms
proof (induction txs arbitrary: St Su)
  case (Cons tx txs)
  from Cons.prems(2) obtain Sx where x: "rebuild_tx tx St = Ret Sx"
    and rest: "ofold rebuild_tx txs Sx = Ret St'"
    by (auto elim: obind_RetE)
  from x obtain sender where s: "PubkeyToAddress (elems (tx_SenderPubKey tx)) = Ret sender"
    and "bal Sx = pay tx sender (bal St)"
    by (rule rebuild_tx_Ret)
  moreover from rebuild_tx_bal [OF s, of Su] obtain Sy
    where "rebuild_tx tx Su = Ret Sy" and "bal Sy = pay tx sender (bal Su)" by blast
  ultimately show ?case using Cons.IH [of Sx Sy] Cons.prems(1) rest by simp
qed simp

definition block_reward :: "LedgerBlock \<Rightarrow> u64" where
  "block_reward block =
     blk_Reward block + foldl (\<lambda>s tx. s + tx_Fee tx) 0 (elems (blk_Transfers block))"

definition pay_miner :: "LedgerBlock \<Rightarrow> balances \<Rightarrow> balances" where
  "pay_miner block B =
     (if blk_Miner block \<noteq> ''SYSTEM_GENESIS'' \<and> blk_Miner block \<noteq> []
      then B(blk_Miner block := B (blk_Miner block) + block_reward block) else B)"

lemma RebuildState_iff:
  "RebuildState block St = Ret St' \<longleftrightarrow>
     (\<exists>Sx. ofold rebuild_tx (elems (blk_Transfers block)) St = Ret Sx \<and>
        St' = (if blk_Miner block \<noteq> ''SYSTEM_GENESIS'' \<and> blk_Miner block \<noteq> []
                  \<and> block_reward block > 0
               then credit (blk_Miner block) (block_reward block) Sx else Sx))"
  unfolding RebuildState_def block_reward_def Let_def obind_Ret_iff outcome.inject
  by (intro ex_cong1 conj_cong refl, simp only: split: if_split, blast)

lemma RebuildState_bal:
  assumes "ofold rebuild_tx (elems (blk_Transfers block)) St = Ret Sx"
  shows "\<exists>St'. RebuildState block St = Ret St' \<and> bal St' = pay_miner block (bal Sx)"
proof (cases "block_reward block = 0")
  case True
  then show ?thesis unfolding RebuildState_iff assms by (simp add: pay_miner_def)
next
  case False
  then have "block_reward block > 0" by (simp add: word_gt_0)
  then show ?thesis unfolding RebuildState_iff assms by (simp add: pay_miner_def bal_credit)
qed

lemma RebuildState_cong:
  assumes "bal St = bal Su" and "RebuildState block St = Ret St'"
  shows "\<exists>Su'. RebuildState block Su = Ret Su' \<and> bal Su' = bal St'"
proof -
  from assms(2) obtain Sx where x: "ofold rebuild_tx (elems (blk_Transfers block)) St = Ret Sx"
    by (auto simp: RebuildState_iff)
  from rebuild_txs_cong [OF assms(1) x] obtain Sy
    where y: "ofold rebuild_tx (elems (blk_Transfers block)) Su = Ret Sy" and "bal Sy = bal Sx"
    by blast
  with RebuildState_bal [OF x] RebuildState_bal [OF y] assms(2) show ?thesis by auto
qed

section \<open>Selecting implements the same steps\<close>

text \<open>What a run of the selection loop adds: a sublist of the mempool, each with the funds for
  its cost, whose rebuild gives the balances the loop left.\<close>

definition selected ::
  "Transfer list \<Rightarrow> selection \<Rightarrow> selection \<Rightarrow> Transfer list \<Rightarrow> bool" where
  "selected txs sel sel' added \<longleftrightarrow>
     sel_Valid sel' = sel_Valid sel @ added \<and>
     sel_Fees sel' = foldl (\<lambda>s tx. s + tx_Fee tx) (sel_Fees sel) added \<and>
     (\<exists>St. ofold rebuild_tx added (sel_State sel) = Ret St \<and> bal St = bal (sel_State sel'))"

lemma selected_skip:
  assumes "selected txs (sel\<lparr>sel_State := St\<rparr>) sel' added" and "bal St = bal (sel_State sel)"
  shows "selected (tx # txs) sel sel' added"
  using assms rebuild_txs_cong [OF assms(2)] by (fastforce simp: selected_def)

lemma selected_take:
  assumes "selected txs \<lparr>sel_State = St, sel_Bytes = n, sel_Fees = sel_Fees sel + tx_Fee tx,
      sel_Valid = sel_Valid sel @ [tx]\<rparr> sel' added"
    and "PubkeyToAddress (elems (tx_SenderPubKey tx)) = Ret sender"
    and "bal St = pay tx sender (bal (sel_State sel))"
  shows "selected (tx # txs) sel sel' (tx # added)"
proof -
  from rebuild_tx_bal [OF assms(2)] obtain Sx
    where "rebuild_tx tx (sel_State sel) = Ret Sx" and "bal Sx = bal St"
    using assms(3) by metis
  moreover from assms(1) obtain Sy where "ofold rebuild_tx added St = Ret Sy"
    and "bal Sy = bal (sel_State sel')"
    by (auto simp: selected_def)
  ultimately show ?thesis
    using assms(1) rebuild_txs_cong [of St Sx added Sy] by (auto simp: selected_def)
qed

text \<open>One turn of the loop: it ends, skips the transfer, or takes it.\<close>

lemma dom_ensure [simp]: "dom (ensure_account a St) = insert a (dom St)"
  by (auto simp: ensure_account_def split: option.splits)

lemma dom_update [simp]: "dom (update_account a f St) = dom St"
  by (auto simp: update_account_def split: if_splits)

lemma dom_credit_inline:
  "dom (case St a of None \<Rightarrow> St(a \<mapsto> acc) | Some _ \<Rightarrow> update_account a f St) = insert a (dom St)"
  by (auto split: option.splits)

lemma select_txs_cases:
  assumes "select_txs (tx # txs) sel = Ret sel'"
  obtains
    (stop) "sel' = sel"
  | (skip) sender where "PubkeyToAddress (elems (tx_SenderPubKey tx)) = Ret sender"
      "bal (sel_State sel) sender < tx_Value tx + tx_Fee tx"
      "select_txs txs (sel\<lparr>sel_State := ensure_account sender (sel_State sel)\<rparr>) = Ret sel'"
  | (take) sender St n where "PubkeyToAddress (elems (tx_SenderPubKey tx)) = Ret sender"
      "tx_Value tx + tx_Fee tx \<le> bal (sel_State sel) sender"
      "bal St = pay tx sender (bal (sel_State sel))"
      "dom St = insert (tx_Recipient tx) (insert sender (dom (sel_State sel)))"
      "select_txs txs \<lparr>sel_State = St, sel_Bytes = n, sel_Fees = sel_Fees sel + tx_Fee tx,
         sel_Valid = sel_Valid sel @ [tx]\<rparr> = Ret sel'"
proof (cases "sel_Bytes sel + of_nat (length (MarshalTransfer tx)) > MaxBlockSizeBytes")
  case True
  with assms stop show thesis by simp
next
  case False
  with assms obtain sender
    where s: "PubkeyToAddress (elems (tx_SenderPubKey tx)) = Ret sender"
    by (auto simp: Let_def obind_Ret_iff)
  let ?St = "ensure_account sender (sel_State sel)" and ?cost = "tx_Value tx + tx_Fee tx"
  let ?S1 = "update_account sender (\<lambda>acc. acc\<lparr>acc_Balance := acc_Balance acc - ?cost,
      acc_Nonce := acc_Nonce acc + 1\<rparr>) ?St"
  let ?S2 = "case ?S1 (tx_Recipient tx) of
      None \<Rightarrow> ?S1(tx_Recipient tx \<mapsto> \<lparr>acc_Balance = tx_Value tx, acc_Nonce = 0\<rparr>)
    | Some _ \<Rightarrow> update_account (tx_Recipient tx) (\<lambda>acc. acc
        \<lparr>acc_Balance := acc_Balance acc + tx_Value tx\<rparr>) ?S1"
  have the: "acc_Balance (the (?St sender)) = bal (sel_State sel) sender"
    by (simp add: bal_the)
  show thesis
  proof (cases "bal (sel_State sel) sender < ?cost")
    case True
    with assms False s the have "select_txs txs (sel\<lparr>sel_State := ?St\<rparr>) = Ret sel'"
      by (simp add: Let_def)
    with s True show thesis by (rule skip)
  next
    case enough: False
    have "bal ?S2 = pay tx sender (bal (sel_State sel))"
      using enough unfolding bal_credit_inline
      by (simp add: bal_update bal_the pay_def Let_def not_less)
    moreover have "dom ?S2 = insert (tx_Recipient tx) (insert sender (dom (sel_State sel)))"
      by (simp add: dom_credit_inline)
    moreover have "select_txs txs \<lparr>sel_State = ?S2,
        sel_Bytes = sel_Bytes sel + of_nat (length (MarshalTransfer tx)),
        sel_Fees = sel_Fees sel + tx_Fee tx, sel_Valid = sel_Valid sel @ [tx]\<rparr> = Ret sel'"
      using assms False s the enough by (simp add: Let_def)
    ultimately show thesis using s enough by (intro take) (simp_all add: not_less)
  qed
qed

declare select_txs.simps(2) [simp del]

lemma select_txs_selected:
  "select_txs txs sel = Ret sel' \<Longrightarrow> \<exists>added. selected txs sel sel' added"
proof (induction txs arbitrary: sel)
  case Nil
  then show ?case by (auto simp: selected_def)
next
  case (Cons tx txs)
  from Cons.prems show ?case
  proof (cases rule: select_txs_cases)
    case stop
    then show ?thesis by (auto simp: selected_def)
  next
    case (skip sender)
    from Cons.IH [OF skip(3)] show ?thesis by (blast intro: selected_skip bal_ensure)
  next
    case (take sender St n)
    from Cons.IH [OF take(5)] take(1,3) show ?thesis by (blast intro: selected_take)
  qed
qed

section \<open>The live state is the rebuilt state\<close>

definition balances_agree :: "'d LedgerCore \<Rightarrow> bool" where
  "balances_agree lc \<longleftrightarrow>
     (\<exists>St. rebuild_chain (lc_Chain lc) = Ret St \<and> bal St = bal (lc_State lc))"

lemma rebuild_chain_snoc: "rebuild_chain (bs @ [b]) = obind (rebuild_chain bs) (RebuildState b)"
  by (simp add: rebuild_chain_def ofold_append ofold_single)

lemma select_bal:
  assumes "MineBlock_select lc = Ret (parent, txs, fees, lc1)"
  shows "fees = foldl (\<lambda>s tx. s + tx_Fee tx) 0 txs"
    and "\<exists>St. ofold rebuild_tx txs (lc_State lc) = Ret St \<and> bal St = bal (lc_State lc1)"
proof -
  let ?sel = "\<lparr>sel_State = lc_State lc, sel_Bytes = 512, sel_Fees = 0, sel_Valid = []\<rparr>"
  have "(lc_Mempool lc = [] \<and> txs = [] \<and> fees = 0 \<and> lc1 = lc) \<or>
    (\<exists>sel. select_txs (lc_Mempool lc) ?sel = Ret sel \<and> txs = sel_Valid sel \<and> fees = sel_Fees sel
       \<and> lc_State lc1 = sel_State sel)"
    using assms by (auto simp: MineBlock_select_def Let_def obind_Ret_iff split: if_splits)
  then have "fees = foldl (\<lambda>s tx. s + tx_Fee tx) 0 txs \<and>
    (\<exists>St. ofold rebuild_tx txs (lc_State lc) = Ret St \<and> bal St = bal (lc_State lc1))"
    by (auto dest!: select_txs_selected simp: selected_def)
  then show "fees = foldl (\<lambda>s tx. s + tx_Fee tx) 0 txs"
    and "\<exists>St. ofold rebuild_tx txs (lc_State lc) = Ret St \<and> bal St = bal (lc_State lc1)"
    by blast+
qed

lemma commit_bal:
  assumes "MineBlock_commit E parent cur block fees lc = Ret lc'"
  shows "bal (lc_State lc') = (bal (lc_State lc))
    (lc_MinerAddress lc := bal (lc_State lc) (lc_MinerAddress lc) + (blk_Reward block + fees))"
proof -
  let ?r = "blk_Reward block + fees" and ?m = "lc_MinerAddress lc"
  have "lc_State lc' = (if ?r > 0 then
      (case lc_State lc ?m of
         None \<Rightarrow> (lc_State lc)(?m \<mapsto> \<lparr>acc_Balance = ?r, acc_Nonce = 0\<rparr>)
       | Some _ \<Rightarrow> update_account ?m (\<lambda>acc. acc\<lparr>acc_Balance := acc_Balance acc + ?r\<rparr>) (lc_State lc))
      else lc_State lc)"
    using assms
    by (auto simp: MineBlock_commit_def with_storage_def Let_def split: option.splits if_splits)
  then show ?thesis
  proof (cases "?r = 0")
    case False
    then have "?r > 0" by (simp add: word_gt_0)
    with \<open>lc_State lc' = _\<close> show ?thesis by (simp only: bal_credit_inline if_True)
  qed simp
qed

text \<open>The account state after a mined block is that block's rebuild.\<close>

lemma MineBlock_bal:
  assumes "MineBlock E now mined lc = Ret lc'" and "lc_MinerAddress lc \<noteq> ''SYSTEM_GENESIS''"
  shows "\<exists>block St. lc_Chain lc' = lc_Chain lc @ [block] \<and>
    RebuildState block (lc_State lc) = Ret St \<and> bal St = bal (lc_State lc')"
proof -
  from assms(1) obtain parent txs fees lc1 cur block lc2
    where sel: "MineBlock_select lc = Ret (parent, txs, fees, lc1)"
      and tmp: "MineBlock_template parent txs now lc1 = (cur, block, lc2)"
      and com: "MineBlock_commit E parent cur (mined_block (lc_Engine lc2) block mined) fees lc2
                = Ret lc'"
    by (rule MineBlock_RetE)
  note s = select_keeps [OF sel] and t = template_keeps [OF tmp] and c = commit_Ret [OF com]
  let ?b = "mined_block (lc_Engine lc2) block mined"
  have miner: "blk_Miner ?b = lc_MinerAddress lc" and "blk_Miner ?b \<noteq> []"
    using s(4,7) t(8) assms(2) by (auto simp: HasPrefix_def AddressPrefix_def)
  from select_bal [OF sel] obtain St where fees: "fees = foldl (\<lambda>s tx. s + tx_Fee tx) 0 txs"
    and St: "ofold rebuild_tx (elems (blk_Transfers ?b)) (lc_State lc) = Ret St"
      "bal St = bal (lc_State lc1)"
    using t(7) by auto
  from RebuildState_bal [OF St(1)] obtain Sx where "RebuildState ?b (lc_State lc) = Ret Sx"
    and "bal Sx = pay_miner ?b (bal St)" by blast
  moreover have "pay_miner ?b (bal St) = bal (lc_State lc')"
    using commit_bal [OF com] St(2) miner \<open>blk_Miner ?b \<noteq> []\<close> assms(2) t(3,4,7) s(4) fees
    by (simp add: pay_miner_def block_reward_def)
  ultimately show ?thesis using c(2) t(2) s(3) by auto
qed

lemma balances_agree_extend:
  assumes "balances_agree lc" and "lc_Chain lc' = lc_Chain lc @ [block]"
    and "RebuildState block (lc_State lc) = Ret St" and "bal St = bal (lc_State lc')"
  shows "balances_agree lc'"
proof -
  from assms(1) obtain Su where "rebuild_chain (lc_Chain lc) = Ret Su"
    and "bal (lc_State lc) = bal Su"
    by (auto simp: balances_agree_def)
  with RebuildState_cong [OF _ assms(3), of Su] assms(2,4) show ?thesis
    by (auto simp: balances_agree_def rebuild_chain_snoc)
qed

lemma MineBlock_balances_agree:
  assumes "balances_agree lc" and "MineBlock E now mined lc = Ret lc'"
    and "lc_MinerAddress lc \<noteq> ''SYSTEM_GENESIS''"
  shows "balances_agree lc'"
  using MineBlock_bal [OF assms(2,3)] assms(1) by (blast intro: balances_agree_extend)

lemma AppendBlockDirectly_balances_agree:
  assumes "balances_agree lc" and "AppendBlockDirectly E block lc = Ret (r, lc')"
  shows "balances_agree lc'"
proof (cases r)
  case None
  with assms(2) have "AppendBlockDirectly E block lc = Ret (None, lc')" by simp
  from AppendBlockDirectly_Ret [OF this] assms(1) show ?thesis
    by (blast intro: balances_agree_extend)
next
  case (Some e)
  with assms show ?thesis by (auto dest: AppendBlockDirectly_error)
qed

lemma RollbackBlock_Ret:
  assumes "RollbackBlock E lc = Ret (None, lc')"
  shows "1 < length (lc_Chain lc)" and "lc_Chain lc' = butlast (lc_Chain lc)"
    and "rebuild_chain (butlast (lc_Chain lc)) = Ret (lc_State lc')"
    and "lc_MinerAddress lc' = lc_MinerAddress lc"
  using assms
  by (auto simp: RollbackBlock_def Let_def Ledger_DeleteBlock_def obind_Ret_iff
      split: prod.splits option.splits if_splits)

lemma RollbackBlock_balances_agree:
  "RollbackBlock E lc = Ret (None, lc') \<Longrightarrow> balances_agree lc'"
  by (simp add: balances_agree_def RollbackBlock_Ret)

lemma AddToMempool_bal:
  assumes "AddToMempool E tx lc = Ret (r, lc')"
  shows "bal (lc_State lc') = bal (lc_State lc)" and "lc_Chain lc' = lc_Chain lc"
    and "lc_MinerAddress lc' = lc_MinerAddress lc"
proof -
  have "bal (update_account a (\<lambda>acc. if n \<noteq> acc_Nonce acc then acc\<lparr>acc_Nonce := n\<rparr> else acc) St)
      = bal St" for a n St
    by (auto simp: bal_def update_account_def fun_eq_iff split: option.splits)
  moreover have "bal (case St a of None \<Rightarrow> St(a \<mapsto> \<lparr>acc_Balance = 0, acc_Nonce = n\<rparr>) | Some _ \<Rightarrow> St)
      = bal St" for a n and St :: accounts
    by (auto simp: bal_def fun_eq_iff split: option.splits)
  ultimately show "bal (lc_State lc') = bal (lc_State lc)"
    using assms by (auto simp: AddToMempool_def Let_def obind_Ret_iff split: if_splits)
  show "lc_Chain lc' = lc_Chain lc" and "lc_MinerAddress lc' = lc_MinerAddress lc"
    using assms by (auto simp: AddToMempool_def Let_def obind_Ret_iff split: if_splits)
qed

section \<open>Coins\<close>

definition coins :: "accounts \<Rightarrow> nat" where
  "coins St = (\<Sum>a \<in> dom St. unat (bal St a))"

lemma coins_superset:
  assumes "finite A" and "dom St \<subseteq> A"
  shows "coins St = (\<Sum>a \<in> A. unat (bal St a))"
  unfolding coins_def
  using assms by (intro sum.mono_neutral_left) (auto simp: bal_def split: option.splits)

lemma sum_upd:
  fixes B :: balances
  assumes "finite A" and "a \<in> A"
  shows "(\<Sum>x \<in> A. unat ((B(a := v)) x)) + unat (B a) = (\<Sum>x \<in> A. unat (B x)) + unat v"
  using assms by (simp add: sum.remove [OF assms] add.commute add.left_commute)

definition cost_fits :: "Transfer \<Rightarrow> bool" where
  "cost_fits tx \<longleftrightarrow> unat (tx_Value tx) + unat (tx_Fee tx) < 2 ^ 64"

lemma pay_sum:
  assumes A: "finite A" "sender \<in> A" "tx_Recipient tx \<in> A"
    and fits: "cost_fits tx" and funds: "tx_Value tx + tx_Fee tx \<le> B sender"
    and small: "(\<Sum>x \<in> A. unat (B x)) < 2 ^ 64"
  shows "(\<Sum>x \<in> A. unat (pay tx sender B x)) + unat (tx_Fee tx) = (\<Sum>x \<in> A. unat (B x))"
proof -
  let ?cost = "tx_Value tx + tx_Fee tx" and ?r = "tx_Recipient tx"
  let ?B1 = "B(sender := B sender - ?cost)"
  have cost: "unat ?cost = unat (tx_Value tx) + unat (tx_Fee tx)"
    using fits by (intro unat_plus_no_wrap) (simp add: cost_fits_def)
  have one: "(\<Sum>x \<in> A. unat (?B1 x)) + unat ?cost = (\<Sum>x \<in> A. unat (B x))"
    using sum_upd [OF A(1,2), of B "B sender - ?cost"] funds
    by (simp add: unat_minus_le word_le_nat_alt)
  have "unat (?B1 ?r) \<le> (\<Sum>x \<in> A. unat (?B1 x))"
    by (rule member_le_sum [OF A(3)]) (simp_all add: A(1))
  then have "unat (?B1 ?r + tx_Value tx) = unat (?B1 ?r) + unat (tx_Value tx)"
    using one cost small by (intro unat_plus_no_wrap) simp
  then have "(\<Sum>x \<in> A. unat ((?B1(?r := ?B1 ?r + tx_Value tx)) x))
      = (\<Sum>x \<in> A. unat (?B1 x)) + unat (tx_Value tx)"
    using sum_upd [OF A(1,3), of ?B1 "?B1 ?r + tx_Value tx"] by linarith
  moreover have "pay tx sender B = ?B1(?r := ?B1 ?r + tx_Value tx)"
    using funds by (simp add: pay_def Let_def)
  ultimately show ?thesis using one cost by simp
qed

lemma pay_coins:
  assumes fin: "finite (dom St)" and fits: "cost_fits tx"
    and funds: "tx_Value tx + tx_Fee tx \<le> bal St sender"
    and small: "coins St < 2 ^ 64"
    and bal: "bal St' = pay tx sender (bal St)"
    and dom: "dom St' = insert (tx_Recipient tx) (insert sender (dom St))"
  shows "coins St' + unat (tx_Fee tx) = coins St"
proof -
  have fin': "finite (dom St')" using fin dom by simp
  have St: "coins St = (\<Sum>a \<in> dom St'. unat (bal St a))"
    using fin' dom by (intro coins_superset) auto
  have "sender \<in> dom St'" and "tx_Recipient tx \<in> dom St'" using dom by blast+
  from pay_sum [where B = "bal St", OF fin' this fits funds] small show ?thesis
    unfolding coins_def [of St'] bal St by simp
qed

text \<open>Selecting moves coins between accounts and into the fee total, and makes none.\<close>

lemma select_txs_coins:
  assumes "select_txs txs sel = Ret sel'" and "finite (dom (sel_State sel))"
    and "\<forall>tx \<in> set txs. cost_fits tx"
    and "coins (sel_State sel) + unat (sel_Fees sel) = c" and "c < 2 ^ 64"
  shows "finite (dom (sel_State sel')) \<and> coins (sel_State sel') + unat (sel_Fees sel') = c"
  using assms
proof (induction txs arbitrary: sel)
  case (Cons tx txs)
  from Cons.prems(1) show ?case
  proof (cases rule: select_txs_cases)
    case stop
    with Cons.prems show ?thesis by simp
  next
    case (skip sender)
    have "coins (ensure_account sender (sel_State sel)) = coins (sel_State sel)"
      using Cons.prems(2) by (subst coins_superset [of "insert sender (dom (sel_State sel))"])
        (auto simp: coins_def)
    with Cons.IH [OF skip(3)] Cons.prems show ?thesis by simp
  next
    case (take sender St n)
    have coins: "coins St + unat (tx_Fee tx) = coins (sel_State sel)"
      using Cons.prems take by (intro pay_coins) simp_all
    moreover have "unat (sel_Fees sel + tx_Fee tx) = unat (sel_Fees sel) + unat (tx_Fee tx)"
      using coins Cons.prems(4,5) by (intro unat_plus_no_wrap) simp
    ultimately show ?thesis using Cons.IH [OF take(5)] Cons.prems take(4) by simp
  qed
qed simp

lemma credit_coins:
  assumes "finite (dom St)" and "bal St' = (bal St)(a := bal St a + v)"
    and "dom St' \<subseteq> insert a (dom St)" and "coins St + unat v < 2 ^ 64"
  shows "coins St' = coins St + unat v"
proof -
  let ?A = "insert a (dom St)"
  have A: "finite ?A" "a \<in> ?A" using assms(1) by simp_all
  have St: "coins St = (\<Sum>x \<in> ?A. unat (bal St x))"
    by (rule coins_superset [OF A(1) subset_insertI])
  have "unat (bal St a) \<le> coins St"
    unfolding St by (rule member_le_sum [OF A(2)]) (simp_all add: assms(1))
  then have "unat (bal St a + v) = unat (bal St a) + unat v"
    using assms(4) by (intro unat_plus_no_wrap) simp
  with sum_upd [OF A, of "bal St" "bal St a + v"] show ?thesis
    unfolding St coins_superset [OF A(1) assms(3)] assms(2) by linarith
qed

lemma MineBlock_coins:
  assumes mine: "MineBlock E now mined lc = Ret lc'" and fin: "finite (dom (lc_State lc))"
    and fits: "\<forall>tx \<in> set (lc_Mempool lc). cost_fits tx"
    and small: "coins (lc_State lc) + unat (blk_Reward (last (lc_Chain lc'))) < 2 ^ 64"
  shows "coins (lc_State lc') = coins (lc_State lc) + unat (blk_Reward (last (lc_Chain lc')))"
proof -
  from mine obtain parent txs fees lc1 cur block lc2
    where sel: "MineBlock_select lc = Ret (parent, txs, fees, lc1)"
      and tmp: "MineBlock_template parent txs now lc1 = (cur, block, lc2)"
      and com: "MineBlock_commit E parent cur (mined_block (lc_Engine lc2) block mined) fees lc2
                = Ret lc'"
    by (rule MineBlock_RetE)
  let ?sel = "\<lparr>sel_State = lc_State lc, sel_Bytes = 512, sel_Fees = 0, sel_Valid = []\<rparr>"
    and ?b = "mined_block (lc_Engine lc2) block mined"
  have "(fees = 0 \<and> lc1 = lc) \<or> (\<exists>s. select_txs (lc_Mempool lc) ?sel = Ret s
      \<and> fees = sel_Fees s \<and> lc_State lc1 = sel_State s)"
    using sel by (auto simp: MineBlock_select_def Let_def obind_Ret_iff split: if_splits)
  moreover have "coins (lc_State lc) < 2 ^ 64" using small by simp
  ultimately have one: "finite (dom (lc_State lc1))" "coins (lc_State lc1) + unat fees = coins (lc_State lc)"
    using select_txs_coins [of "lc_Mempool lc" ?sel _ "coins (lc_State lc)"] fin fits by auto
  have r: "blk_Reward (last (lc_Chain lc')) = blk_Reward ?b"
    using commit_Ret(2) [OF com] by simp
  then have add: "unat (blk_Reward ?b + fees) = unat (blk_Reward ?b) + unat fees"
    using one(2) small by (intro unat_plus_no_wrap) simp
  have st: "lc_State lc2 = lc_State lc1" using template_keeps [OF tmp] by simp
  have "dom (lc_State lc') \<subseteq> insert (lc_MinerAddress lc2) (dom (lc_State lc2))"
    using com by (auto simp: MineBlock_commit_def with_storage_def Let_def domIff update_account_def
        split: option.splits if_splits)
  from credit_coins [OF _ commit_bal [OF com] this] st one add r small show ?thesis by simp
qed

end
