(* ===== verification/Ledger_Runs.thy ===== *)
theory Ledger_Runs
  imports Ledger_Balances
begin

text \<open>
  The ledger as a machine: a step is any of its operations, in any order, with any input. The shape of
  the chain holds in every state a run reaches. As long as no save or delete of the store fails
  (\<open>clean_step\<close>), so do the agreement of the balances with the chain and that of the store with the
  chain, so that a restart on it restores both.
\<close>

section \<open>Steps\<close>

text \<open>\<open>reload_mempool\<close> is the daemon's loop replacing the queue by the one on disk.\<close>

inductive ledger_step ::
  "('pub, 'priv, 'd) node_env \<Rightarrow> 'd LedgerCore \<Rightarrow> 'd LedgerCore \<Rightarrow> bool"
  for E where
  add: "AddToMempool E tx lc = Ret (r, lc') \<Longrightarrow> ledger_step E lc lc'"
| reload_mempool: "ledger_step E lc (lc\<lparr>lc_Mempool := mempool\<rparr>)"
| mine: "MineBlock E now mined lc = Ret lc' \<Longrightarrow> ledger_step E lc lc'"
| append: "AppendBlockDirectly E block lc = Ret (r, lc') \<Longrightarrow> ledger_step E lc lc'"
| rollback: "RollbackBlock E lc = Ret (r, lc') \<Longrightarrow> ledger_step E lc lc'"

lemma step_chain_ok:
  "ledger_step E lc lc' \<Longrightarrow> chain_ok (lc_Chain lc) \<Longrightarrow> chain_ok (lc_Chain lc')"
  by (cases rule: ledger_step.cases) (auto intro: chain_intro simp: AddToMempool_chain)

section \<open>Writes to the store\<close>

text \<open>The saving of the block a step appends, and the deletion of the one it removes, report no error. The
  code ignores the first, and a rollback that meets the second is left half done.\<close>

definition writes_succeed ::
  "('pub, 'priv, 'd) node_env \<Rightarrow> 'd LedgerCore \<Rightarrow> 'd LedgerCore \<Rightarrow> bool" where
  "writes_succeed E lc lc' \<longleftrightarrow>
     (\<forall>d. lc_Storage lc = Some d \<longrightarrow>
        (length (lc_Chain lc) < length (lc_Chain lc') \<longrightarrow>
           fst (SaveBlock (ne_ldb E) (blk_Index (last (lc_Chain lc')))
             (MarshalBlock (last (lc_Chain lc'))) d) = None) \<and>
        (length (lc_Chain lc') < length (lc_Chain lc) \<longrightarrow>
           fst (DeleteBlock (ne_ldb E) (blk_Index (last (lc_Chain lc))) d) = None))"

definition clean_step ::
  "('pub, 'priv, 'd) node_env \<Rightarrow> 'd LedgerCore \<Rightarrow> 'd LedgerCore \<Rightarrow> bool" where
  "clean_step E lc lc' \<longleftrightarrow> ledger_step E lc lc' \<and> writes_succeed E lc lc'"

text \<open>A store on which no write fails.\<close>

definition reliable :: "'d leveldb \<Rightarrow> bool" where
  "reliable K \<longleftrightarrow> (\<forall>d k v. ldb_Put K d k v \<noteq> None) \<and> (\<forall>d k. ldb_Delete K d k \<noteq> None)"

lemma reliable_SaveBlock: "reliable K \<Longrightarrow> fst (SaveBlock K i x d) = None"
  by (auto simp: reliable_def SaveBlock_def split: option.splits) (metis option.distinct(1))

lemma reliable_DeleteBlock: "reliable K \<Longrightarrow> fst (DeleteBlock K i d) = None"
  by (auto simp: reliable_def DeleteBlock_def split: option.splits) (metis option.distinct(1))+

lemma reliable_writes: "reliable (ne_ldb E) \<Longrightarrow> writes_succeed E lc lc'"
  by (simp add: writes_succeed_def reliable_SaveBlock reliable_DeleteBlock)

lemma failed_rollback:
  assumes "RollbackBlock E lc = Ret (Some e, lc')" and "writes_succeed E lc lc'"
  shows "lc' = lc"
proof (rule ccontr)
  assume "lc' \<noteq> lc"
  with assms(1) obtain d e' d' where "lc_Storage lc = Some d"
    and "DeleteBlock (ne_ldb E) (blk_Index (last (lc_Chain lc))) d = (Some e', d')"
    and "length (lc_Chain lc') < length (lc_Chain lc)"
    by (auto simp: RollbackBlock_def Ledger_DeleteBlock_def Let_def obind_Ret_iff
        split: if_splits prod.splits option.splits)
  with assms(2) show False by (auto simp: writes_succeed_def)
qed

section \<open>Balances along a run\<close>

lemma MineBlock_keeps_miner:
  assumes "MineBlock E now mined lc = Ret lc'"
  shows "lc_MinerAddress lc' = lc_MinerAddress lc"
proof -
  from assms obtain parent txs fees lc1 cur block lc2
    where sel: "MineBlock_select lc = Ret (parent, txs, fees, lc1)"
      and tmp: "MineBlock_template parent txs now lc1 = (cur, block, lc2)"
      and com: "MineBlock_commit E parent cur (mined_block (lc_Engine lc2) block mined) fees lc2
                = Ret lc'"
    by (rule MineBlock_RetE)
  from select_keeps(4) [OF sel] template_keeps(4) [OF tmp] commit_Ret(4) [OF com] show ?thesis
    by simp
qed

definition honest_state :: "'d LedgerCore \<Rightarrow> bool" where
  "honest_state lc \<longleftrightarrow> balances_agree lc \<and> lc_MinerAddress lc \<noteq> ''SYSTEM_GENESIS''"

lemma step_honest_state:
  assumes "clean_step E lc lc'" and "honest_state lc"
  shows "honest_state lc'"
proof -
  have step: "ledger_step E lc lc'" and ok: "writes_succeed E lc lc'"
    using assms(1) by (simp_all add: clean_step_def)
  from step show ?thesis
  proof (cases rule: ledger_step.cases)
    case (add tx r)
    with assms(2) AddToMempool_bal [OF add] show ?thesis
      by (simp add: honest_state_def balances_agree_def)
  next
    case (reload_mempool mempool)
    with assms(2) show ?thesis by (simp add: honest_state_def balances_agree_def)
  next
    case (mine now mined)
    with assms(2) show ?thesis
      by (auto simp: honest_state_def MineBlock_keeps_miner intro: MineBlock_balances_agree)
  next
    case (append block r)
    then have "lc_MinerAddress lc' = lc_MinerAddress lc"
      by (cases r) (auto dest: AppendBlockDirectly_error AppendBlockDirectly_Ret(5))
    with append assms(2) show ?thesis
      by (auto simp: honest_state_def intro: AppendBlockDirectly_balances_agree)
  next
    case (rollback r)
    show ?thesis
    proof (cases r)
      case None
      with rollback assms(2) show ?thesis
        by (auto simp: honest_state_def RollbackBlock_Ret(4) intro: RollbackBlock_balances_agree)
    next
      case (Some e)
      with rollback assms(2) ok show ?thesis by (auto dest: failed_rollback)
    qed
  qed
qed

section \<open>The store along a run\<close>

text \<open>Timestamps rise strictly in 64 bits, so a chain cannot outgrow its heights.\<close>

lemma chain_timestamps:
  assumes "linked bs" and "i < length bs"
  shows "sint (blk_Timestamp (bs ! 0)) + int i \<le> sint (blk_Timestamp (bs ! i))"
  using assms(2)
proof (induction i)
  case (Suc i)
  with linked_nth [OF assms(1)] have "follows (bs ! Suc i) (Some (bs ! i))" by simp
  then have "sint (blk_Timestamp (bs ! i)) < sint (blk_Timestamp (bs ! Suc i))"
    by (simp add: follows_def word_sless_alt)
  with Suc show ?case by simp
qed simp

lemma chain_length:
  assumes "chain_ok bs"
  shows "length bs \<le> 2 ^ 64"
proof -
  let ?i = "length bs - 1"
  have "bs \<noteq> []" using assms by (simp add: chain_ok_def)
  then have "sint (blk_Timestamp (bs ! 0)) + int ?i \<le> sint (blk_Timestamp (bs ! ?i))"
    using assms by (intro chain_timestamps) (simp_all add: chain_ok_def)
  moreover have "- (2 ^ 63) \<le> sint (blk_Timestamp (bs ! 0))"
    using sint_greater_eq [of "blk_Timestamp (bs ! 0)"] by simp
  moreover have "sint (blk_Timestamp (bs ! ?i)) < 2 ^ 63"
    using sint_less [of "blk_Timestamp (bs ! ?i)"] by simp
  ultimately have "int ?i < 2 ^ 64" by simp
  then show ?thesis by simp
qed

definition persisted :: "('pub, 'priv, 'd) node_env \<Rightarrow> 'd LedgerCore \<Rightarrow> bool" where
  "persisted E lc \<longleftrightarrow>
     (\<exists>d. lc_Storage lc = Some d \<and>
        holds_chain (GetBlock (ne_ldb E)) (GetLastIndex (ne_ldb E)) d
          (map MarshalBlock (lc_Chain lc)))"

text \<open>A block appended to a well-formed chain is saved at the height after the tip.\<close>

lemma persisted_append:
  assumes db: "level_db (ne_ldb E)" and per: "persisted E lc"
    and ok: "chain_ok (lc_Chain lc @ [block])"
    and st: "lc_Storage lc = Some d"
      "lc_Storage lc' = Some (snd (SaveBlock (ne_ldb E) (blk_Index block) (MarshalBlock block) d))"
      "lc_Chain lc' = lc_Chain lc @ [block]" and saved: "writes_succeed E lc lc'"
  shows "persisted E lc'"
proof -
  let ?n = "length (lc_Chain lc)"
  have n: "?n < 2 ^ 64" using chain_length [OF ok] by simp
  have "blk_Index block = of_nat ?n"
    using chain_index [OF ok, of ?n] by simp
  moreover have "SaveBlock (ne_ldb E) (of_nat ?n) (MarshalBlock block) d
      = (None, snd (SaveBlock (ne_ldb E) (of_nat ?n) (MarshalBlock block) d))"
    using saved st(1,3) \<open>blk_Index block = of_nat ?n\<close> by (auto simp: writes_succeed_def prod_eq_iff)
  moreover have "holds_chain (GetBlock (ne_ldb E)) (GetLastIndex (ne_ldb E)) d
      (map MarshalBlock (lc_Chain lc))"
    using per st(1) by (simp add: persisted_def)
  ultimately show ?thesis
    using index_store.holds_chain_save [OF level_db.database_contract [OF db], where xs = "map MarshalBlock (lc_Chain lc)"] n st(2,3)
    by (simp add: persisted_def)
qed

lemma MineBlock_storage:
  assumes "MineBlock E now mined lc = Ret lc'" and "lc_Storage lc = Some d"
  shows "lc_Storage lc' = Some (snd (SaveBlock (ne_ldb E) (blk_Index (last (lc_Chain lc')))
      (MarshalBlock (last (lc_Chain lc'))) d))"
    and "lc_Chain lc' = lc_Chain lc @ [last (lc_Chain lc')]"
proof -
  from assms(1) obtain parent txs fees lc1 cur block lc2
    where sel: "MineBlock_select lc = Ret (parent, txs, fees, lc1)"
      and tmp: "MineBlock_template parent txs now lc1 = (cur, block, lc2)"
      and com: "MineBlock_commit E parent cur (mined_block (lc_Engine lc2) block mined) fees lc2
                = Ret lc'"
    by (rule MineBlock_RetE)
  have "lc_Storage lc2 = Some d" "lc_Chain lc2 = lc_Chain lc"
    using select_keeps(3,5) [OF sel] template_keeps(2,5) [OF tmp] assms(2) by simp_all
  with com show "lc_Storage lc' = Some (snd (SaveBlock (ne_ldb E) (blk_Index (last (lc_Chain lc')))
      (MarshalBlock (last (lc_Chain lc'))) d))"
    and "lc_Chain lc' = lc_Chain lc @ [last (lc_Chain lc')]"
    by (auto simp: MineBlock_commit_def with_storage_def Let_def split: option.splits if_splits)
qed

lemma AppendBlockDirectly_storage:
  assumes "AppendBlockDirectly E block lc = Ret (None, lc')" and "lc_Storage lc = Some d"
  shows "lc_Storage lc' =
    Some (snd (SaveBlock (ne_ldb E) (blk_Index block) (MarshalBlock block) d))"
  using assms
  by (auto simp: AppendBlockDirectly_def Let_def obind_Ret_iff split: option.splits if_splits)

lemma RollbackBlock_storage:
  assumes "RollbackBlock E lc = Ret (None, lc')" and "lc_Storage lc = Some d"
  shows "\<exists>d'. DeleteBlock (ne_ldb E) (blk_Index (last (lc_Chain lc))) d = (None, d')
    \<and> lc_Storage lc' = Some d'"
  using assms
  by (auto simp: RollbackBlock_def Ledger_DeleteBlock_def Let_def obind_Ret_iff
      split: option.splits if_splits prod.splits)

definition stored_node :: "('pub, 'priv, 'd) node_env \<Rightarrow> 'd LedgerCore \<Rightarrow> bool" where
  "stored_node E lc \<longleftrightarrow> chain_ok (lc_Chain lc) \<and> persisted E lc"

lemma RollbackBlock_persisted:
  assumes db: "level_db (ne_ldb E)" and node: "stored_node E lc"
    and roll: "RollbackBlock E lc = Ret (None, lc')"
  shows "persisted E lc'"
proof -
  from node obtain d where d: "lc_Storage lc = Some d"
    and h: "holds_chain (GetBlock (ne_ldb E)) (GetLastIndex (ne_ldb E)) d
      (map MarshalBlock (lc_Chain lc))" and ok: "chain_ok (lc_Chain lc)"
    by (auto simp: stored_node_def persisted_def)
  let ?bs = "butlast (lc_Chain lc)"
  have bs: "lc_Chain lc = ?bs @ [last (lc_Chain lc)]"
    using ok by (simp add: chain_ok_def)
  then have n: "length ?bs < 2 ^ 64" using chain_length [OF ok] by (metis length_append_singleton Suc_le_eq)
  have "blk_Index (last (lc_Chain lc)) = of_nat (length ?bs)"
    using chain_index [OF ok, of "length ?bs"] bs by (metis length_append_singleton lessI nth_append_length)
  moreover from RollbackBlock_storage [OF roll d] obtain d'
    where "DeleteBlock (ne_ldb E) (blk_Index (last (lc_Chain lc))) d = (None, d')"
      and "lc_Storage lc' = Some d'" by blast
  moreover have "holds_chain (GetBlock (ne_ldb E)) (GetLastIndex (ne_ldb E)) d
      (map MarshalBlock ?bs @ [MarshalBlock (last (lc_Chain lc))])"
    using h by (subst (asm) bs) simp
  ultimately show ?thesis
    using index_store.holds_chain_remove [OF level_db.database_contract [OF db], where xs = "map MarshalBlock ?bs"] n
      RollbackBlock_Ret(2) [OF roll]
    by (simp add: persisted_def)
qed

lemma step_stored_node:
  assumes "clean_step E lc lc'" and db: "level_db (ne_ldb E)"
    and node: "stored_node E lc"
  shows "stored_node E lc'"
proof -
  have step: "ledger_step E lc lc'" and writes: "writes_succeed E lc lc'"
    using assms(1) by (simp_all add: clean_step_def)
  from node obtain d where d: "lc_Storage lc = Some d" and per: "persisted E lc"
    by (auto simp: stored_node_def persisted_def)
  have ok: "chain_ok (lc_Chain lc')"
    using step_chain_ok [OF step] node by (simp add: stored_node_def)
  from step have "persisted E lc'"
  proof (cases rule: ledger_step.cases)
    case (add tx r)
    then have "lc_Storage lc' = lc_Storage lc" and "lc_Chain lc' = lc_Chain lc"
      by (auto simp: AddToMempool_def Let_def obind_Ret_iff split: if_splits)
    with per show ?thesis by (simp add: persisted_def)
  next
    case (reload_mempool mempool)
    with per show ?thesis by (simp add: persisted_def)
  next
    case (mine now mined)
    from MineBlock_storage [OF mine d] ok show ?thesis
      by (metis persisted_append [OF db per _ d _ _ writes])
  next
    case (append block r)
    show ?thesis
    proof (cases r)
      case None
      with append have a: "AppendBlockDirectly E block lc = Ret (None, lc')" by simp
      from AppendBlockDirectly_Ret(2) [OF a] AppendBlockDirectly_storage [OF a d] ok show ?thesis
        by (metis persisted_append [OF db per _ d _ _ writes])
    next
      case (Some e)
      with append per show ?thesis by (auto dest: AppendBlockDirectly_error)
    qed
  next
    case (rollback r)
    show ?thesis
    proof (cases r)
      case None
      with rollback node db show ?thesis by (blast intro: RollbackBlock_persisted)
    next
      case (Some e)
      with rollback per writes show ?thesis by (auto dest: failed_rollback)
    qed
  qed
  with ok show ?thesis by (simp add: stored_node_def)
qed

text \<open>Above the tip the store holds no block.\<close>

definition stored_exactly :: "('pub, 'priv, 'd) node_env \<Rightarrow> 'd LedgerCore \<Rightarrow> bool" where
  "stored_exactly E lc \<longleftrightarrow> stored_node E lc \<and>
     (\<forall>d h. lc_Storage lc = Some d \<longrightarrow> length (lc_Chain lc) \<le> unat h \<longrightarrow> GetBlock (ne_ldb E) h d = None)"

lemma step_storage:
  assumes "clean_step E lc lc'" and "lc_Storage lc = Some d"
  shows "(lc_Chain lc' = lc_Chain lc \<and> lc_Storage lc' = Some d) \<or>
    (\<exists>b d'. lc_Chain lc' = lc_Chain lc @ [b] \<and> lc_Storage lc' = Some d' \<and>
       SaveBlock (ne_ldb E) (blk_Index b) (MarshalBlock b) d = (None, d')) \<or>
    (\<exists>d'. lc_Chain lc' = butlast (lc_Chain lc) \<and> lc_Storage lc' = Some d' \<and>
       DeleteBlock (ne_ldb E) (blk_Index (last (lc_Chain lc))) d = (None, d'))"
proof -
  have step: "ledger_step E lc lc'" and writes: "writes_succeed E lc lc'"
    using assms(1) by (simp_all add: clean_step_def)
  have saved: ?thesis if "lc_Chain lc' = lc_Chain lc @ [b]"
    and "lc_Storage lc' = Some (snd (SaveBlock (ne_ldb E) (blk_Index b) (MarshalBlock b) d))" for b
    using that writes assms(2) by (auto simp: writes_succeed_def prod_eq_iff)
  from step show ?thesis
  proof (cases rule: ledger_step.cases)
    case (add tx r)
    then show ?thesis
      using assms(2) by (auto simp: AddToMempool_def Let_def obind_Ret_iff split: if_splits)
  next
    case (reload_mempool mempool)
    with assms(2) show ?thesis by simp
  next
    case (mine now mined)
    from MineBlock_storage [OF mine assms(2)] show ?thesis by (intro saved)
  next
    case (append block r)
    show ?thesis
    proof (cases r)
      case None
      with append have a: "AppendBlockDirectly E block lc = Ret (None, lc')" by simp
      show ?thesis
        by (rule saved [OF AppendBlockDirectly_Ret(2) [OF a] AppendBlockDirectly_storage [OF a assms(2)]])
    next
      case (Some e)
      with append assms(2) show ?thesis by (auto dest: AppendBlockDirectly_error)
    qed
  next
    case (rollback r)
    show ?thesis
    proof (cases r)
      case None
      with rollback RollbackBlock_Ret(2) [of E lc lc'] RollbackBlock_storage [OF _ assms(2), of E lc']
      show ?thesis by auto
    next
      case (Some e)
      with rollback assms(2) writes show ?thesis by (auto dest: failed_rollback)
    qed
  qed
qed

lemma step_stored_exactly:
  assumes step: "clean_step E lc lc'" and db: "level_db (ne_ldb E)" and node: "stored_exactly E lc"
  shows "stored_exactly E lc'"
proof -
  note store = level_db.database_contract [OF db]
  have old: "stored_node E lc" using node by (simp add: stored_exactly_def)
  then obtain d where d: "lc_Storage lc = Some d" by (auto simp: stored_node_def persisted_def)
  have new: "stored_node E lc'" by (rule step_stored_node [OF step db old])
  then have ok: "chain_ok (lc_Chain lc')" by (simp add: stored_node_def)
  have none: "GetBlock (ne_ldb E) h d = None" if "length (lc_Chain lc) \<le> unat h" for h
    using node d that by (simp add: stored_exactly_def)
  have height: "unat (blk_Index (bs ! i)) = i" if "chain_ok bs" "i < length bs" for bs i
    using chain_index [OF that] chain_length [OF that(1)] that(2) by (simp add: unat_of_nat)
  from step_storage [OF step d] have "\<forall>d h. lc_Storage lc' = Some d \<longrightarrow>
      length (lc_Chain lc') \<le> unat h \<longrightarrow> GetBlock (ne_ldb E) h d = None"
  proof (elim disjE exE conjE)
    assume "lc_Chain lc' = lc_Chain lc" and "lc_Storage lc' = Some d"
    with none show ?thesis by simp
  next
    fix b d'
    assume b: "lc_Chain lc' = lc_Chain lc @ [b]" and d': "lc_Storage lc' = Some d'"
      and save: "SaveBlock (ne_ldb E) (blk_Index b) (MarshalBlock b) d = (None, d')"
    have "unat (blk_Index b) = length (lc_Chain lc)" using height [OF ok, of "length (lc_Chain lc)"] b by simp
    then show ?thesis using none d' b by (auto simp: index_store.load_save [OF store save])
  next
    fix d'
    assume bs: "lc_Chain lc' = butlast (lc_Chain lc)" and d': "lc_Storage lc' = Some d'"
      and del: "DeleteBlock (ne_ldb E) (blk_Index (last (lc_Chain lc))) d = (None, d')"
    have ok0: "chain_ok (lc_Chain lc)" using old by (simp add: stored_node_def)
    then have ne: "lc_Chain lc \<noteq> []" by (simp add: chain_ok_def)
    then have "unat (blk_Index (last (lc_Chain lc))) = length (lc_Chain lc) - 1"
      using height [OF ok0, of "length (lc_Chain lc) - 1"] by (simp add: last_conv_nth)
    moreover have "unat h = length (lc_Chain lc) - 1 \<or> length (lc_Chain lc) \<le> unat h"
      if "length (lc_Chain lc) - 1 \<le> unat h" for h :: u64 using that by linarith
    ultimately show ?thesis
      using none d' bs by (auto simp: index_store.load_remove [OF store del]) (metis word_unat_eq_iff)
  qed
  with new show ?thesis by (simp add: stored_exactly_def)
qed

section \<open>The ledger as a machine\<close>

text \<open>The chain holds its shape without conditions; the balances need steps whose writes do not
  fail, the stored chain also the laws of LevelDB.\<close>

interpretation chain_run: machine "ledger_step E" "\<lambda>lc. chain_ok (lc_Chain lc)" for E
  by unfold_locales (rule step_chain_ok)

interpretation balance_run: machine "clean_step E" honest_state for E
  by unfold_locales (rule step_honest_state)

interpretation store_run: machine "clean_step E" "\<lambda>lc. level_db (ne_ldb E) \<longrightarrow> stored_exactly E lc" for E
  by unfold_locales (blast intro: step_stored_exactly)

end
