(* ===== verification/Ledger_Restart.thy ===== *)
theory Ledger_Restart
  imports Ledger_Runs
begin

text \<open>
  Starting a node on a store that holds a chain, and what the ledger's queue and block
  packaging do: the restart restores the chain and the balances, the queue is kept by fee, a
  rollback undoes an append.
\<close>

section \<open>Loading a stored chain\<close>

text \<open>What comes back is the chain as its encodings stand for it; only texts differ.\<close>

definition stored_chain :: "LedgerBlock list \<Rightarrow> LedgerBlock list" where
  "stored_chain bs = map stored_block bs"

lemma stored_chain_valid: "\<forall>b \<in> set bs. valid_texts b \<Longrightarrow> stored_chain bs = bs"
  by (auto simp: stored_chain_def stored_block_same intro!: map_idI)

lemma stored_block_same_fields [simp]:
  "blk_Index (stored_block b) = blk_Index b" "blk_Timestamp (stored_block b) = blk_Timestamp b"
  "blk_Reward (stored_block b) = blk_Reward b" "blk_Hash (stored_block b) = blk_Hash b"
  "blk_PrevHash (stored_block b) = blk_PrevHash b" "blk_Bits (stored_block b) = blk_Bits b"
  "blk_MaxSupply (stored_block b) = blk_MaxSupply b"
  "blk_HalvingInterval (stored_block b) = blk_HalvingInterval b"
  by (simp_all add: stored_block_def)

lemma linked_stored: "linked (stored_chain bs) \<longleftrightarrow> linked bs"
  by (induction bs rule: linked.induct) (simp_all add: stored_chain_def follows_def)

lemma chain_ok_stored: "chain_ok (stored_chain bs) \<longleftrightarrow> chain_ok bs"
proof -
  have "issued (stored_chain bs) = issued bs"
    by (simp add: issued_def stored_chain_def comp_def)
  moreover have "bs \<noteq> [] \<Longrightarrow> blk_Index (hd (stored_chain bs)) = blk_Index (hd bs)"
    by (simp add: stored_chain_def hd_map)
  ultimately show ?thesis using linked_stored [of bs] by (auto simp: chain_ok_def stored_chain_def)
qed

lemma load_blocks_stored:
  assumes "\<forall>j < length bs. GetBlock (ne_ldb E) (i + of_nat j) d = Some (MarshalBlock (bs ! j))"
  shows "load_blocks E (length bs) i d lc =
    obind (ofold RebuildState (stored_chain bs) (lc_State lc)) (\<lambda>St.
      Ret (lc\<lparr>lc_Chain := lc_Chain lc @ stored_chain bs, lc_State := St\<rparr>))"
  unfolding stored_chain_def
  using assms
proof (induction bs arbitrary: i lc)
  case (Cons b bs)
  have "GetBlock (ne_ldb E) i d = Some (MarshalBlock b)"
    using Cons.prems [rule_format, of 0] by simp
  moreover have "GetBlock (ne_ldb E) (i + 1 + of_nat j) d = Some (MarshalBlock (bs ! j))"
    if "j < length bs" for j
    using Cons.prems [rule_format, of "Suc j"] that by (simp add: add.assoc)
  ultimately show ?case
    using Cons.IH [of "i + 1"]
    by (cases "RebuildState (stored_block b) (lc_State lc)") (simp_all add: UnmarshalBlock_Marshal)
qed simp

lemma checkpoints_past_genesis:
  "0 < i \<Longrightarrow> i + length bs \<le> 2 ^ 64 \<Longrightarrow> verify_checkpoints i bs = Ret ()"
proof (induction bs arbitrary: i)
  case (Cons b bs)
  have "(of_nat i :: u64) \<noteq> 0"
    using Cons.prems of_nat_u64_eq_iff [of i 0] by simp
  with Cons show ?case by (simp add: VerifyCheckpoint_def HardcodedCheckpoints_def)
qed simp

lemma verify_checkpoints_iff:
  assumes "length (b # bs) \<le> 2 ^ 64"
  shows "verify_checkpoints 0 (b # bs) =
    (if hex_encode (elems (blk_Hash b)) = ExpectedGenesisHash then Ret ()
     else Panic ''[FATAL CONSENSUS PANIC] checkpoint'')"
  using assms checkpoints_past_genesis [of 1 bs]
  by (simp add: VerifyCheckpoint_def HardcodedCheckpoints_def Let_def)

lemma integrity_of_chain:
  assumes "chain_ok (lc_Chain lc)"
  shows "VerifyConsensusIntegrity lc =
    (if hex_encode (elems (blk_Hash (hd (lc_Chain lc)))) = ExpectedGenesisHash then Ret ()
     else Panic ''[FATAL CONSENSUS PANIC] checkpoint'')"
proof -
  from assms obtain b bs where bs: "lc_Chain lc = b # bs"
    by (cases "lc_Chain lc") (simp_all add: chain_ok_def)
  have "\<not> GetTotalCirculatingSupply lc > MaxSupply"
    using assms unat_supply [of lc] by (simp add: chain_ok_def word_less_nat_alt)
  moreover have "length (b # bs) \<le> 2 ^ 64" using chain_length [OF assms] bs by simp
  ultimately show ?thesis
    using verify_checkpoints_iff [of b bs] by (simp add: VerifyConsensusIntegrity_def bs)
qed

lemma genesis_matches_stored: "genesis_matches b \<Longrightarrow> genesis_matches (stored_block b)"
proof -
  have "\<forall>c \<in> set pszTimestamp. (of_char c :: nat) < 0x80" by code_simp
  then show "genesis_matches b \<Longrightarrow> genesis_matches (stored_block b)"
    by (simp add: genesis_matches_def stored_block_def replace_invalid_ascii)
qed

text \<open>Loading a stored node: the checkpoint decides between the stored chain and a panic.\<close>

lemma LoadFromDisk_stored:
  assumes node: "stored_node E lc"
    and gen: "genesis_matches (hd (lc_Chain lc))"
    and lc0: "lc_Chain lc0 = []" "lc_State lc0 = Map.empty" "lc_Storage lc0 = lc_Storage lc"
  shows "LoadFromDisk E mined lc0 =
    obind (rebuild_chain (stored_chain (lc_Chain lc))) (\<lambda>St.
      if hex_encode (elems (blk_Hash (hd (lc_Chain lc)))) = ExpectedGenesisHash
      then Ret (True, lc0\<lparr>lc_Chain := stored_chain (lc_Chain lc), lc_State := St\<rparr>)
      else Panic ''[FATAL CONSENSUS PANIC] checkpoint'')"
proof -
  let ?bs = "lc_Chain lc" and ?cs = "stored_chain (lc_Chain lc)"
    
    and ?lc1 = "\<lambda>St. lc0\<lparr>lc_Chain := stored_chain (lc_Chain lc), lc_State := St\<rparr>"
  from node obtain d where ok: "chain_ok ?bs" and d: "lc_Storage lc = Some d"
    and h: "holds_chain (GetBlock (ne_ldb E)) (GetLastIndex (ne_ldb E)) d (map MarshalBlock ?bs)"
    by (auto simp: stored_node_def persisted_def)
  have ne: "?bs \<noteq> []" using ok by (simp add: chain_ok_def)
  have last: "GetLastIndex (ne_ldb E) d = Some (of_nat (length ?bs - Suc 0))"
    using h ne by (simp add: holds_chain_def)
  have len: "Suc (unat (of_nat (length ?bs - Suc 0) :: u64)) = length ?bs"
    using chain_length [OF ok] ne by (simp add: unat_of_nat)
  have hd: "hd ?cs = stored_block (hd ?bs)" and cs: "?cs \<noteq> []"
    using ne by (simp_all add: stored_chain_def hd_map)
  have "load_blocks E (length ?bs) 0 d lc0 = obind (ofold RebuildState ?cs (lc_State lc0))
      (\<lambda>St. Ret (lc0\<lparr>lc_Chain := lc_Chain lc0 @ ?cs, lc_State := St\<rparr>))"
    using h by (intro load_blocks_stored) (simp add: holds_chain_def)
  then have load: "load_blocks E (length ?bs) 0 d lc0 = obind (rebuild_chain ?cs) (\<lambda>St. Ret (?lc1 St))"
    using lc0 by (simp add: rebuild_chain_def)
  have "VerifyConsensusIntegrity (?lc1 St) =
    (if hex_encode (elems (blk_Hash (hd ?bs))) = ExpectedGenesisHash then Ret ()
     else Panic ''[FATAL CONSENSUS PANIC] checkpoint'')" for St
    using integrity_of_chain [of "?lc1 St"] ok by (simp add: chain_ok_stored hd)
  moreover have "genesis_matches (hd ?cs)" unfolding hd by (rule genesis_matches_stored [OF gen])
  ultimately show ?thesis
    using cs
    by (cases "rebuild_chain ?cs")
       (simp_all add: LoadFromDisk_def with_storage_def lc0 d last len load del: load_blocks.simps)
qed

lemma InitializeLedger_stored:
  assumes "stored_node E lc"
    and "genesis_matches (hd (lc_Chain lc))" and "lc_Storage lc = Some d"
  shows "InitializeLedger E (\<lambda>_. Some d) mined path difficulty miner =
    obind (rebuild_chain (stored_chain (lc_Chain lc))) (\<lambda>St.
      if hex_encode (elems (blk_Hash (hd (lc_Chain lc)))) = ExpectedGenesisHash
      then Ret \<lparr>lc_Chain = stored_chain (lc_Chain lc), lc_State = St, lc_Mempool = [],
        lc_Engine = NewConsensusEngine (if difficulty = 0 then 1 else difficulty),
        lc_MinerAddress = miner, lc_Storage = Some d\<rparr>
      else Panic ''[FATAL CONSENSUS PANIC] checkpoint'')"
  using LoadFromDisk_stored [OF assms(1,2)] assms(3)
  by (cases "rebuild_chain (stored_chain (lc_Chain lc))") (simp_all add: InitializeLedger_def NewDatabase_def DefaultConsensus_def Let_def)

section \<open>Starting on an empty store\<close>

lemma InitializeLedger_empty:
  assumes "GetLastIndex (ne_ldb E) d = None"
  shows "InitializeLedger E (\<lambda>_. Some d) mined path difficulty miner =
    SpawnGenesis E mined
      \<lparr>lc_Chain = [], lc_State = Map.empty, lc_Mempool = [],
       lc_Engine = NewConsensusEngine (if difficulty = 0 then 1 else difficulty),
       lc_MinerAddress = miner, lc_Storage = Some d\<rparr>"
  using assms
  by (simp add: InitializeLedger_def NewDatabase_def LoadFromDisk_def with_storage_def Let_def
      DefaultConsensus_def)

lemma genesis_block_matches:
  "genesis_matches ((Mine_prepare engine (genesis_template engine))
     \<lparr>blk_Nonce := n, blk_Hash := h, blk_Reward := node_CalculateBlockReward 0\<rparr>)"
  by (simp add: genesis_matches_def genesis_template_def Mine_prepare_def Let_def
      node_CalculateBlockReward_def CalculateBlockReward_def genesisBits_def
      MaxSupply_def CoinUnit_def HalvingInterval_def)

lemma SpawnGenesis_stored:
  assumes db: "level_db (ne_ldb E)" and saved: "fst (SaveBlock (ne_ldb E) 0 (MarshalBlock (hd (lc_Chain lc'))) d) = None"
    and "SpawnGenesis E mined lc = Ret lc'" and "lc_Chain lc = []" and "lc_Storage lc = Some d"
  shows "stored_node E lc'"
proof -
  have ok: "chain_ok (lc_Chain lc')" using assms(3,4) by (rule SpawnGenesis_chain_ok)
  let ?g = "(Mine_prepare (lc_Engine lc) (genesis_template (lc_Engine lc)))
         \<lparr>blk_Nonce := fst mined, blk_Hash := Some (snd mined),
          blk_Reward := node_CalculateBlockReward 0\<rparr>"
  have c: "lc_Chain lc' = [?g]" using SpawnGenesis_Ret(1) [OF assms(3)] assms(4) by simp
  have "lc_Storage lc' = Some (snd (SaveBlock (ne_ldb E) 0 (MarshalBlock ?g) d))"
    using assms(3,5) by (auto simp: SpawnGenesis_def with_storage_def Let_def)
  moreover have "SaveBlock (ne_ldb E) 0 (MarshalBlock ?g) d
      = (None, snd (SaveBlock (ne_ldb E) 0 (MarshalBlock ?g) d))"
    using saved by (simp add: c prod_eq_iff)
  ultimately have "persisted E lc'"
    using index_store.load_save [OF level_db.database_contract [OF db]]
      index_store.tip_save [OF level_db.database_contract [OF db]]
    by (auto simp: persisted_def c holds_chain_def)
  with ok show ?thesis by (simp add: stored_node_def)
qed

section \<open>The queue\<close>

text \<open>What \<open>sort.Slice\<close> documents: a permutation with no later element strictly before an
  earlier one under the order given, here higher fee first.\<close>

definition by_fee :: "Transfer list \<Rightarrow> bool" where
  "by_fee txs \<longleftrightarrow> sorted_wrt (\<lambda>s t. tx_Fee t \<le> tx_Fee s) txs"

definition sort_slice :: "(Transfer list \<Rightarrow> Transfer list) \<Rightarrow> bool" where
  "sort_slice f \<longleftrightarrow> (\<forall>txs. mset (f txs) = mset txs \<and> by_fee (f txs))"

lemma AddToMempool_queue:
  assumes "sort_slice (ne_sort E)" and "AddToMempool E tx lc = Ret (True, lc')"
  shows "mset (lc_Mempool lc') = add_mset tx (mset (lc_Mempool lc)) \<and> by_fee (lc_Mempool lc')"
  using assms
  by (auto simp: AddToMempool_def Let_def obind_Ret_iff sort_slice_def split: if_splits)

lemma AddToMempool_rejects:
  assumes "AddToMempool E tx lc = Ret (False, lc')"
  shows "lc' = lc"
  using assms by (auto simp: AddToMempool_def Let_def obind_Ret_iff split: if_splits)

lemma by_fee_highest:
  assumes "by_fee (tx # txs)" and "t \<in> set (tx # txs)"
  shows "tx_Fee t \<le> tx_Fee tx"
  using assms by (auto simp: by_fee_def)

section \<open>Rollback undoes an append\<close>

lemma rollback_append:
  assumes app: "AppendBlockDirectly E block lc = Ret (None, lc1)"
    and agree: "balances_agree lc" and ne: "lc_Chain lc \<noteq> []"
    and roll: "RollbackBlock E lc1 = Ret (None, lc2)"
  shows "lc_Chain lc2 = lc_Chain lc" and "bal (lc_State lc2) = bal (lc_State lc)"
proof -
  show "lc_Chain lc2 = lc_Chain lc"
    using RollbackBlock_Ret(2) [OF roll] AppendBlockDirectly_Ret(2) [OF app] by simp
  then have "rebuild_chain (lc_Chain lc) = Ret (lc_State lc2)"
    using RollbackBlock_Ret(2,3) [OF roll] by simp
  with agree show "bal (lc_State lc2) = bal (lc_State lc)" by (simp add: balances_agree_def)
qed

lemma rollback_mempool:
  assumes "RollbackBlock E lc = Ret (None, lc')"
  shows "lc_Mempool lc' = rev (elems (blk_Transfers (last (lc_Chain lc)))) @ lc_Mempool lc"
proof -
  have push: "foldl (\<lambda>mp tx. [tx] @ mp) mp txs = rev txs @ mp" for mp and txs :: "Transfer list"
    by (induction txs arbitrary: mp) simp_all
  show ?thesis
    using assms unfolding RollbackBlock_def push
    by (auto simp: Let_def Ledger_DeleteBlock_def obind_Ret_iff
        split: prod.splits option.splits if_splits)
qed

end
