(* ===== verification/Net_Types.thy ===== *)
theory Net_Types
  imports Prelude "HOL-Library.AList"
begin

text \<open>
  The data the peer-to-peer components share (\<open>internal/p2p\<close>): nodes, capabilities, protocols,
  connection flags and connections. \<open>types.go\<close> declares stubs of some of them that other files
  of the package declare again with their fields; the records here have the fields \<open>dial.go\<close>,
  \<open>peer.go\<close> and \<open>p2p.go\<close> use. The expiring heap is only a stub in the repository, so it is a
  record of calls, with what the scheduler relies on as a predicate (\<open>history_laws\<close>), which the stub
  satisfies. Times are integers.
\<close>

unbundle bit_operations_syntax

section \<open>Nodes, capabilities and protocols\<close>

type_synonym node_id = bytes

record Node =
  nd_ID :: node_id
  nd_IP :: "char slice"
  nd_TCPPort :: int

record Cap =
  cap_Name :: string
  cap_Version :: u64

record Protocol =
  pr_Name :: string
  pr_Version :: u64
  pr_Length :: u64

section \<open>Connection flags\<close>

type_synonym connFlag = u32

definition dynDialedConn :: connFlag where "dynDialedConn = 1"
definition staticDialedConn :: connFlag where "staticDialedConn = 2"
definition inboundConn :: connFlag where "inboundConn = 4"
definition trustedConn :: connFlag where "trustedConn = 8"

lemmas connFlag_defs = dynDialedConn_def staticDialedConn_def inboundConn_def trustedConn_def

definition connFlag_String :: "connFlag \<Rightarrow> string" where
  "connFlag_String f =
     (let s = (if f AND trustedConn \<noteq> 0 then ''-trusted'' else [])
            @ (if f AND dynDialedConn \<noteq> 0 then ''-dyndial'' else [])
            @ (if f AND staticDialedConn \<noteq> 0 then ''-staticdial'' else [])
            @ (if f AND inboundConn \<noteq> 0 then ''-inbound'' else [])
      in if s \<noteq> [] then tl s else s)"

record conn =
  cn_node :: Node
  cn_flags :: connFlag
  cn_caps :: "Cap list"
  cn_name :: string

definition conn_is :: "conn \<Rightarrow> connFlag \<Rightarrow> bool" where
  "conn_is c f \<longleftrightarrow> cn_flags c AND f \<noteq> 0"

text \<open>The compare-and-swap loop of \<open>set\<close> is one atomic update.\<close>

definition conn_set :: "connFlag \<Rightarrow> bool \<Rightarrow> conn \<Rightarrow> conn" where
  "conn_set f val c =
     c\<lparr>cn_flags := (if val then cn_flags c OR f else cn_flags c AND NOT f)\<rparr>"

text \<open>Setting the trusted flag reads back and leaves the other flags as they were.\<close>

lemma conn_set_trusted [simp]:
  "conn_is (conn_set trustedConn val c) trustedConn \<longleftrightarrow> val"
  "conn_is (conn_set trustedConn val c) inboundConn \<longleftrightarrow> conn_is c inboundConn"
  "conn_is (conn_set trustedConn val c) dynDialedConn \<longleftrightarrow> conn_is c dynDialedConn"
  "conn_is (conn_set trustedConn val c) staticDialedConn \<longleftrightarrow> conn_is c staticDialedConn"
  "cn_node (conn_set trustedConn val c) = cn_node c"
  "cn_caps (conn_set trustedConn val c) = cn_caps c"
  by (simp_all add: conn_is_def conn_set_def connFlag_defs bit.conj_disj_distrib2 and.assoc)

text \<open>A connection the node dialed itself.\<close>

definition dialed :: "conn \<Rightarrow> bool" where
  "dialed c \<longleftrightarrow> conn_is c dynDialedConn \<or> conn_is c staticDialedConn"

section \<open>The expiring heap\<close>

record 'h exp_heap =
  hp_add :: "string \<Rightarrow> int \<Rightarrow> 'h \<Rightarrow> 'h"
  hp_contains :: "string \<Rightarrow> 'h \<Rightarrow> bool"
  hp_expire :: "int \<Rightarrow> 'h \<Rightarrow> string list \<times> 'h"

text \<open>The heap is a multiset of keys with expiry times: \<open>add\<close> adds one, \<open>contains\<close> looks for a
  key, and \<open>expire\<close> removes the entries whose time is before now, naming their keys.\<close>

definition expiring :: "'h exp_heap \<Rightarrow> ('h \<Rightarrow> (string \<times> int) multiset) \<Rightarrow> bool" where
  "expiring H entries \<longleftrightarrow>
     (\<forall>k t h. entries (hp_add H k t h) = add_mset (k, t) (entries h)) \<and>
     (\<forall>k h. hp_contains H k h \<longleftrightarrow> k \<in> fst ` set_mset (entries h)) \<and>
     (\<forall>now h. entries (snd (hp_expire H now h)) = {#e \<in># entries h. now \<le> snd e#} \<and>
        set (fst (hp_expire H now h)) = fst ` {e \<in> set_mset (entries h). snd e < now})"

definition list_heap :: "(string \<times> int) list exp_heap" where
  "list_heap =
     \<lparr>hp_add = (\<lambda>k t h. (k, t) # h),
      hp_contains = (\<lambda>k h. k \<in> fst ` set h),
      hp_expire = (\<lambda>now h. (map fst (filter (\<lambda>e. snd e < now) h), filter (\<lambda>e. now \<le> snd e) h))\<rparr>"

lemma list_heap_expiring: "expiring list_heap mset"
  by (simp add: expiring_def list_heap_def)

text \<open>What the scheduler relies on: adding a key changes what is said of no other, and a key that was in
  the heap and is gone after \<open>expire\<close> has been named. The heap of the repository, a stub that holds
  nothing, keeps these laws too.\<close>

definition history_laws :: "'h exp_heap \<Rightarrow> bool" where
  "history_laws H \<longleftrightarrow>
     (\<forall>k j t h. k \<noteq> j \<longrightarrow> hp_contains H k (hp_add H j t h) = hp_contains H k h) \<and>
     (\<forall>k now h. hp_contains H k (snd (hp_expire H now h)) \<longrightarrow> hp_contains H k h) \<and>
     (\<forall>k now h. hp_contains H k h \<longrightarrow> k \<notin> set (fst (hp_expire H now h)) \<longrightarrow>
        hp_contains H k (snd (hp_expire H now h)))"

lemma history_lawsD:
  assumes "history_laws H"
  shows "k \<noteq> j \<Longrightarrow> hp_contains H k (hp_add H j t h) = hp_contains H k h"
    and "hp_contains H k (snd (hp_expire H now h)) \<Longrightarrow> hp_contains H k h"
    and "hp_contains H k h \<Longrightarrow> k \<notin> set (fst (hp_expire H now h)) \<Longrightarrow> hp_contains H k (snd (hp_expire H now h))"
  using assms unfolding history_laws_def by blast+

definition stub_expHeap :: "unit exp_heap" where
  "stub_expHeap = \<lparr>hp_add = (\<lambda>s t h. h), hp_contains = (\<lambda>s h. False), hp_expire = (\<lambda>now h. ([], h))\<rparr>"

lemma stub_history_laws: "history_laws stub_expHeap"
  by (simp add: history_laws_def stub_expHeap_def)

lemma expiring_contains_add:
  "expiring H entries \<Longrightarrow> hp_contains H k (hp_add H j t h) \<longleftrightarrow> k = j \<or> hp_contains H k h"
  by (simp add: expiring_def)

lemma expiring_contains_expire:
  assumes "expiring H entries"
  shows "hp_contains H k (snd (hp_expire H now h)) \<Longrightarrow> hp_contains H k h"
    and "hp_contains H k h \<Longrightarrow> k \<notin> set (fst (hp_expire H now h)) \<Longrightarrow>
      hp_contains H k (snd (hp_expire H now h))"
proof -
  have has: "hp_contains H k g \<longleftrightarrow> (\<exists>t. (k, t) \<in># entries g)" for g
  proof -
    have "hp_contains H k g \<longleftrightarrow> k \<in> fst ` set_mset (entries g)"
      using assms by (simp add: expiring_def)
    then show ?thesis by (simp add: image_iff) (metis fst_conv prod.collapse)
  qed
  have left: "entries (snd (hp_expire H now h)) = {#e \<in># entries h. now \<le> snd e#}"
    and named: "set (fst (hp_expire H now h)) = fst ` {e \<in> set_mset (entries h). snd e < now}"
    using assms by (simp_all add: expiring_def)
  show "hp_contains H k (snd (hp_expire H now h)) \<Longrightarrow> hp_contains H k h"
    unfolding has left by auto
  show "hp_contains H k h \<Longrightarrow> k \<notin> set (fst (hp_expire H now h)) \<Longrightarrow>
      hp_contains H k (snd (hp_expire H now h))"
    unfolding has left named by (force simp: image_iff)
qed

lemma expiring_history_laws:
  assumes "expiring H entries"
  shows "history_laws H"
  unfolding history_laws_def
proof (intro conjI allI impI)
  fix k j :: string and t h assume "k \<noteq> j"
  then show "hp_contains H k (hp_add H j t h) = hp_contains H k h" by (simp add: expiring_contains_add [OF assms])
qed (fact expiring_contains_expire [OF assms])+

lemmas list_heap_laws = expiring_history_laws [OF list_heap_expiring]

end
