(* ===== verification/Dialer.thy ===== *)
theory Dialer
  imports Net_Types
begin

text \<open>
  \<open>internal/p2p/dial.go\<close>: the dial scheduler. Tasks are shared by pointer between the static
  set, the pool and the running dials, so they live in a store (\<open>ds_tasks\<close>, a list) and the
  other fields hold their positions. A turn of the event loop is \<open>loop_turn\<close>: it starts static
  dials into the free slots, then handles one event. The random source is the argument
  \<open>rnd\<close> (\<open>Intn\<close> of a pool is \<open>rnd\<close> modulo its length), the clock and the resolver are
  arguments, and so is the expiring heap. Dialing itself (\<open>tcpDialer\<close>, \<open>setupFunc\<close>) is
  outside: a dial in flight ends with a \<open>Done\<close> event.
\<close>

section \<open>State\<close>

definition second :: int where "second = 1000000000"
definition inboundThrottleTime :: int where "inboundThrottleTime = 30 * second"
definition dialHistoryExpiration :: int where
  "dialHistoryExpiration = inboundThrottleTime + 5 * second"
definition dialStatsLogInterval :: int where "dialStatsLogInterval = 10 * second"
definition initialResolveDelay :: int where "initialResolveDelay = 60 * second"
definition maxResolveDelay :: int where "maxResolveDelay = 3600 * second"
definition defaultMaxPendingPeers :: int where "defaultMaxPendingPeers = 50"

datatype dial_error =
    ErrSelf | ErrAlreadyDialing | ErrAlreadyConnected | ErrRecentlyDialed | ErrNoPort

record dialTask =
  dt_staticPoolIndex :: int
  dt_flags :: connFlag
  dt_dest :: Node
  dt_lastResolved :: "int option"
  dt_resolveDelay :: int

record dialConfig =
  dc_self :: node_id
  dc_maxDialPeers :: int
  dc_maxActiveDials :: int

record 'h dialScheduler =
  ds_config :: dialConfig
  ds_tasks :: "dialTask list"
  ds_dialing :: "(node_id \<times> nat) list"
  ds_peers :: "node_id set"
  ds_dialPeers :: int
  ds_static :: "(node_id \<times> nat) list"
  ds_staticPool :: "nat list"
  ds_history :: 'h
  ds_lastStatsLog :: int
  ds_doneSinceLastLog :: int

definition withDefaults :: "dialConfig \<Rightarrow> dialConfig" where
  "withDefaults cfg =
     (if dc_maxActiveDials cfg = 0
      then cfg\<lparr>dc_maxActiveDials := defaultMaxPendingPeers\<rparr> else cfg)"

definition newDialScheduler :: "dialConfig \<Rightarrow> 'h \<Rightarrow> int \<Rightarrow> 'h dialScheduler" where
  "newDialScheduler config history now =
     \<lparr>ds_config = withDefaults config, ds_tasks = [], ds_dialing = [], ds_peers = {},
      ds_dialPeers = 0, ds_static = [], ds_staticPool = [], ds_history = history,
      ds_lastStatsLog = now, ds_doneSinceLastLog = 0\<rparr>"

definition newDialTask :: "Node \<Rightarrow> connFlag \<Rightarrow> dialTask" where
  "newDialTask dest flags =
     \<lparr>dt_staticPoolIndex = -1, dt_flags = flags, dt_dest = dest, dt_lastResolved = None,
      dt_resolveDelay = 0\<rparr>"

definition task_index :: "'h dialScheduler \<Rightarrow> nat \<Rightarrow> int" where
  "task_index d r = dt_staticPoolIndex (ds_tasks d ! r)"

definition task_dest :: "'h dialScheduler \<Rightarrow> nat \<Rightarrow> Node" where
  "task_dest d r = dt_dest (ds_tasks d ! r)"

definition set_index :: "nat \<Rightarrow> int \<Rightarrow> 'h dialScheduler \<Rightarrow> 'h dialScheduler" where
  "set_index r i d =
     d\<lparr>ds_tasks := (ds_tasks d)[r := (ds_tasks d ! r)\<lparr>dt_staticPoolIndex := i\<rparr>]\<rparr>"

section \<open>Operations\<close>

definition freeDialSlots :: "'h dialScheduler \<Rightarrow> int" where
  "freeDialSlots d =
     (let slots = (dc_maxDialPeers (ds_config d) - ds_dialPeers d) * 2 in
      (if slots > dc_maxActiveDials (ds_config d) then dc_maxActiveDials (ds_config d) else slots)
        - int (length (ds_dialing d)))"

definition checkDial :: "'h exp_heap \<Rightarrow> 'h dialScheduler \<Rightarrow> Node \<Rightarrow> dial_error option" where
  "checkDial H d n =
     (if nd_ID n = dc_self (ds_config d) then Some ErrSelf
      else if nd_TCPPort n = 0 then Some ErrNoPort
      else if map_of (ds_dialing d) (nd_ID n) \<noteq> None then Some ErrAlreadyDialing
      else if nd_ID n \<in> ds_peers d then Some ErrAlreadyConnected
      else if hp_contains H (nd_ID n) (ds_history d) then Some ErrRecentlyDialed
      else None)"

definition addToStaticPool :: "nat \<Rightarrow> 'h dialScheduler \<Rightarrow> 'h dialScheduler outcome" where
  "addToStaticPool r d =
     (if task_index d r \<ge> 0 then Panic ''attempt to add task to staticPool twice''
      else
        let d1 = d\<lparr>ds_staticPool := ds_staticPool d @ [r]\<rparr>
        in Ret (set_index r (int (length (ds_staticPool d1)) - 1) d1))"

definition removeFromStaticPool :: "int \<Rightarrow> 'h dialScheduler \<Rightarrow> 'h dialScheduler outcome" where
  "removeFromStaticPool idx d =
     (if idx < 0 \<or> int (length (ds_staticPool d)) \<le> idx then Panic ''index out of range''
      else
        let i = nat idx;
            task = ds_staticPool d ! i;
            end = length (ds_staticPool d) - 1;
            pool = (ds_staticPool d)[i := ds_staticPool d ! end];
            d1 = set_index (pool ! i) idx (d\<lparr>ds_staticPool := pool\<rparr>);
            d2 = d1\<lparr>ds_staticPool := take end (ds_staticPool d1)\<rparr>
        in Ret (set_index task (-1) d2))"

definition updateStaticPool ::
  "'h exp_heap \<Rightarrow> node_id \<Rightarrow> 'h dialScheduler \<Rightarrow> 'h dialScheduler outcome" where
  "updateStaticPool H nid d =
     (case map_of (ds_static d) nid of
        None \<Rightarrow> Ret d
      | Some task \<Rightarrow>
          if task_index d task < 0 \<and> checkDial H d (task_dest d task) = None
          then addToStaticPool task d else Ret d)"

definition startDial :: "'h exp_heap \<Rightarrow> int \<Rightarrow> nat \<Rightarrow> 'h dialScheduler \<Rightarrow> 'h dialScheduler" where
  "startDial H now task d =
     (let node = task_dest d task in
      d\<lparr>ds_history := hp_add H (nd_ID node) (now + dialHistoryExpiration) (ds_history d),
        ds_dialing := AList.update (nd_ID node) task (ds_dialing d)\<rparr>)"

text \<open>The loop of \<open>startStaticDials\<close>; the last argument counts what is left of \<open>n\<close>.\<close>

fun static_dials ::
  "'h exp_heap \<Rightarrow> (nat \<Rightarrow> nat) \<Rightarrow> int \<Rightarrow> nat \<Rightarrow> nat \<Rightarrow> 'h dialScheduler
     \<Rightarrow> (nat \<times> 'h dialScheduler) outcome" where
  "static_dials H rnd now started 0 d = Ret (started, d)"
| "static_dials H rnd now started (Suc k) d =
     (if ds_staticPool d = [] then Ret (started, d)
      else
        let idx = rnd started mod length (ds_staticPool d);
            task = ds_staticPool d ! idx
        in obind (removeFromStaticPool (int idx) (startDial H now task d))
             (static_dials H rnd now (Suc started) k))"

definition startStaticDials ::
  "'h exp_heap \<Rightarrow> (nat \<Rightarrow> nat) \<Rightarrow> int \<Rightarrow> int \<Rightarrow> 'h dialScheduler
     \<Rightarrow> (nat \<times> 'h dialScheduler) outcome" where
  "startStaticDials H rnd now n d = static_dials H rnd now 0 (nat n) d"

definition logStats :: "int \<Rightarrow> 'h dialScheduler \<Rightarrow> 'h dialScheduler" where
  "logStats now d =
     (if now - ds_lastStatsLog d < dialStatsLogInterval then d
      else d\<lparr>ds_doneSinceLastLog := 0, ds_lastStatsLog := now\<rparr>)"

text \<open>\<open>expireHistory\<close>: the expiry callback copies the key into a node nid, which it came from.\<close>

definition expireHistory ::
  "'h exp_heap \<Rightarrow> int \<Rightarrow> 'h dialScheduler \<Rightarrow> 'h dialScheduler outcome" where
  "expireHistory H now d =
     (let (keys, history) = hp_expire H now (ds_history d)
      in ofold (updateStaticPool H) keys (d\<lparr>ds_history := history\<rparr>))"

datatype dial_event =
    Done nat
  | PeerAdded conn
  | PeerRemoved conn
  | AddStatic Node
  | RemoveStatic Node
  | HistoryTimer

definition dial_handle ::
  "'h exp_heap \<Rightarrow> int \<Rightarrow> dial_event \<Rightarrow> 'h dialScheduler \<Rightarrow> 'h dialScheduler outcome" where
  "dial_handle H now ev d =
     (case ev of
        Done task \<Rightarrow>
          let nid = nd_ID (task_dest d task) in
          obind (updateStaticPool H nid (d\<lparr>ds_dialing := AList.delete nid (ds_dialing d)\<rparr>)) (\<lambda>d1.
            Ret (d1\<lparr>ds_doneSinceLastLog := ds_doneSinceLastLog d1 + 1\<rparr>))
      | PeerAdded c \<Rightarrow>
          let d1 = (if conn_is c dynDialedConn \<or> conn_is c staticDialedConn
                    then d\<lparr>ds_dialPeers := ds_dialPeers d + 1\<rparr> else d);
              nid = nd_ID (cn_node c);
              d2 = d1\<lparr>ds_peers := insert nid (ds_peers d1)\<rparr>
          in (case map_of (ds_static d2) nid of
                None \<Rightarrow> Ret d2
              | Some task \<Rightarrow> if task_index d2 task \<ge> 0
                             then removeFromStaticPool (task_index d2 task) d2 else Ret d2)
      | PeerRemoved c \<Rightarrow>
          let d1 = (if conn_is c dynDialedConn \<or> conn_is c staticDialedConn
                    then d\<lparr>ds_dialPeers := ds_dialPeers d - 1\<rparr> else d)
          in updateStaticPool H (nd_ID (cn_node c))
               (d1\<lparr>ds_peers := ds_peers d1 - {nd_ID (cn_node c)}\<rparr>)
      | AddStatic node \<Rightarrow>
          let nid = nd_ID node in
          if map_of (ds_static d) nid \<noteq> None then Ret d
          else
            let task = length (ds_tasks d);
                d1 = d\<lparr>ds_tasks := ds_tasks d @ [newDialTask node staticDialedConn],
                       ds_static := AList.update nid task (ds_static d)\<rparr>
            in if checkDial H d1 node = None then addToStaticPool task d1 else Ret d1
      | RemoveStatic node \<Rightarrow>
          let nid = nd_ID node in
          (case map_of (ds_static d) nid of
             None \<Rightarrow> Ret d
           | Some task \<Rightarrow>
               let d1 = d\<lparr>ds_static := AList.delete nid (ds_static d)\<rparr>
               in if task_index d1 task \<ge> 0
                  then removeFromStaticPool (task_index d1 task) d1 else Ret d1)
      | HistoryTimer \<Rightarrow> expireHistory H now d)"

definition loop_turn ::
  "'h exp_heap \<Rightarrow> (nat \<Rightarrow> nat) \<Rightarrow> int \<Rightarrow> dial_event \<Rightarrow> 'h dialScheduler \<Rightarrow> 'h dialScheduler outcome"
where
  "loop_turn H rnd now ev d =
     obind (startStaticDials H rnd now (freeDialSlots d) d) (\<lambda>(started, d1).
       dial_handle H now ev (logStats now d1))"

section \<open>A dial task\<close>

definition needResolve :: "dialTask \<Rightarrow> bool" where
  "needResolve t \<longleftrightarrow> dt_flags t AND staticDialedConn \<noteq> 0 \<and> nd_IP (dt_dest t) = None"

text \<open>\<open>resolve\<close>: \<open>None\<close> for the resolver is Go's nil; the result says whether to go on.\<close>

definition resolve ::
  "(Node \<Rightarrow> Node option) option \<Rightarrow> int \<Rightarrow> dialTask \<Rightarrow> bool \<times> dialTask" where
  "resolve resolver now t =
     (case resolver of
        None \<Rightarrow> (False, t)
      | Some f \<Rightarrow>
          let t1 = (if dt_resolveDelay t = 0
                    then t\<lparr>dt_resolveDelay := initialResolveDelay\<rparr> else t)
          in if (case dt_lastResolved t1 of None \<Rightarrow> False
                 | Some t0 \<Rightarrow> now - t0 < dt_resolveDelay t1) then (False, t1)
             else
               let t2 = t1\<lparr>dt_lastResolved := Some now\<rparr> in
               (case f (dt_dest t) of
                  None \<Rightarrow> (False, t2\<lparr>dt_resolveDelay :=
                     (if dt_resolveDelay t2 * 2 > maxResolveDelay then maxResolveDelay
                      else dt_resolveDelay t2 * 2)\<rparr>)
                | Some resolved \<Rightarrow>
                    (True, t2\<lparr>dt_resolveDelay := initialResolveDelay, dt_dest := resolved\<rparr>)))"

text \<open>\<open>run\<close>: the node the task dials, if it gets that far, and the task afterwards.\<close>

definition task_run ::
  "(Node \<Rightarrow> Node option) option \<Rightarrow> int \<Rightarrow> dialTask \<Rightarrow> Node option \<times> dialTask" where
  "task_run resolver now t =
     (if needResolve t then
        (case resolve resolver now t of
           (False, t1) \<Rightarrow> (None, t1)
         | (True, t1) \<Rightarrow> (Some (dt_dest t1), t1))
      else (Some (dt_dest t), t))"

definition run_task ::
  "(Node \<Rightarrow> Node option) option \<Rightarrow> int \<Rightarrow> nat \<Rightarrow> 'h dialScheduler \<Rightarrow> 'h dialScheduler" where
  "run_task resolver now r d =
     d\<lparr>ds_tasks := (ds_tasks d)[r := snd (task_run resolver now (ds_tasks d ! r))]\<rparr>"

section \<open>Runs\<close>

text \<open>A turn of the loop, or a task in flight resolving its node. Only tasks in flight are done.\<close>

inductive dial_step ::
  "'h exp_heap \<Rightarrow> (Node \<Rightarrow> Node option) option \<Rightarrow> 'h dialScheduler \<Rightarrow> 'h dialScheduler \<Rightarrow> bool"
  for H resolver where
  turn: "loop_turn H rnd now ev d = Ret d' \<Longrightarrow>
     (\<And>task. ev = Done task \<Longrightarrow> (nd_ID (task_dest d task), task) \<in> set (ds_dialing d)) \<Longrightarrow>
     dial_step H resolver d d'"
| resolving: "task \<in> snd ` set (ds_dialing d) \<Longrightarrow>
     dial_step H resolver d (run_task resolver now task d)"

end
