(* ===== verification/Peer.thy ===== *)
theory Peer
  imports Net_Types
begin

text \<open>
  \<open>internal/p2p/peer.go\<close>: the protocols a peer runs over one connection. Matching the remote
  capabilities gives every protocol a range of message codes; outgoing messages are moved into
  it, incoming ones are routed by it. The channels of the code are the arguments: where it
  selects between a channel and \<open>closed\<close>, a flag says which one fired. \<open>Cap.Cmp\<close>, the RLP
  decoder and \<open>discReasonForError\<close> are not in the repository and are parameters.
\<close>

definition baseProtocolVersion :: u64 where "baseProtocolVersion = 5"
definition baseProtocolLength :: u64 where "baseProtocolLength = 16"
definition handshakeMsg :: u64 where "handshakeMsg = 0"
definition discMsg :: u64 where "discMsg = 1"
definition pingMsg :: u64 where "pingMsg = 2"
definition pongMsg :: u64 where "pongMsg = 3"

datatype DiscReason =
    DiscRequested | DiscNetworkError | DiscTooManyPeers | DiscUselessPeer | DiscAlreadyConnected
  | DiscUnexpectedIdentity | DiscSelf | DiscQuitting | DiscOther nat

datatype peer_error =
    Disc DiscReason
  | InvalidMsgCode u64
  | MsgNotHandled
  | MsgCodeOutOfRange u64
  | ShuttingDown
  | EOF
  | ProtocolReturned
  | IoError string

record Msg =
  msg_Code :: u64
  msg_Payload :: bytes

record protoRW =
  rw_proto :: Protocol
  rw_offset :: u64

record Peer =
  pe_rw :: conn
  pe_running :: "(string \<times> protoRW) list"

section \<open>Matching protocols\<close>

definition matches :: "Cap \<Rightarrow> Protocol \<Rightarrow> bool" where
  "matches cap proto \<longleftrightarrow> pr_Name proto = cap_Name cap \<and> pr_Version proto = cap_Version cap"

definition countMatchingProtocols :: "Protocol list \<Rightarrow> Cap list \<Rightarrow> nat" where
  "countMatchingProtocols protocols caps =
     foldl (\<lambda>n cap. foldl (\<lambda>n proto. if matches cap proto then n + 1 else n) n protocols) 0 caps"

fun match_caps ::
  "Protocol list \<Rightarrow> Cap list \<Rightarrow> u64 \<Rightarrow> (string \<times> protoRW) list \<Rightarrow> (string \<times> protoRW) list" where
  "match_caps protocols [] offset result = result"
| "match_caps protocols (cap # caps) offset result =
     (case find (matches cap) protocols of
        None \<Rightarrow> match_caps protocols caps offset result
      | Some proto \<Rightarrow>
          let offset1 = (case map_of result (cap_Name cap) of
                           None \<Rightarrow> offset
                         | Some old \<Rightarrow> offset - pr_Length (rw_proto old))
          in match_caps protocols caps (offset1 + pr_Length proto)
               (AList.update (cap_Name cap) \<lparr>rw_proto = proto, rw_offset = offset1\<rparr> result))"

definition matchProtocols ::
  "(Cap list \<Rightarrow> Cap list) \<Rightarrow> Protocol list \<Rightarrow> Cap list \<Rightarrow> (string \<times> protoRW) list" where
  "matchProtocols sortf protocols caps = match_caps protocols (sortf caps) baseProtocolLength []"

text \<open>Sorting the capabilities is in place: the connection keeps the sorted list.\<close>

definition newPeer :: "(Cap list \<Rightarrow> Cap list) \<Rightarrow> conn \<Rightarrow> Protocol list \<Rightarrow> Peer" where
  "newPeer sortf c protocols =
     \<lparr>pe_rw = c\<lparr>cn_caps := sortf (cn_caps c)\<rparr>,
      pe_running = matchProtocols sortf protocols (cn_caps c)\<rparr>"

definition Peer_ID :: "Peer \<Rightarrow> node_id" where "Peer_ID p = nd_ID (cn_node (pe_rw p))"
definition Peer_Node :: "Peer \<Rightarrow> Node" where "Peer_Node p = cn_node (pe_rw p)"
definition Peer_Inbound :: "Peer \<Rightarrow> bool" where "Peer_Inbound p = conn_is (pe_rw p) inboundConn"
definition Peer_Fullname :: "Peer \<Rightarrow> string" where "Peer_Fullname p = cn_name (pe_rw p)"
definition Peer_Caps :: "Peer \<Rightarrow> Cap list" where "Peer_Caps p = cn_caps (pe_rw p)"

definition Peer_Name :: "Peer \<Rightarrow> string" where
  "Peer_Name p = (let s = cn_name (pe_rw p) in if length s > 20 then take 20 s @ ''...'' else s)"

definition RunningCap :: "Peer \<Rightarrow> string \<Rightarrow> u64 list \<Rightarrow> bool" where
  "RunningCap p protocol versions =
     (case map_of (pe_running p) protocol of
        None \<Rightarrow> False
      | Some proto \<Rightarrow> pr_Version (rw_proto proto) \<in> set versions)"

section \<open>Messages\<close>

text \<open>The loop over the map of running protocols returns the first one whose range holds the
  code; Go's map order is any order, here the list's.\<close>

definition in_range :: "u64 \<Rightarrow> protoRW \<Rightarrow> bool" where
  "in_range code rw \<longleftrightarrow> rw_offset rw \<le> code \<and> code < rw_offset rw + pr_Length (rw_proto rw)"

definition getProto :: "(string \<times> protoRW) list \<Rightarrow> u64 \<Rightarrow> peer_error + protoRW" where
  "getProto running code =
     (case find (\<lambda>(_, rw). in_range code rw) running of
        None \<Rightarrow> Inl (InvalidMsgCode code)
      | Some (_, rw) \<Rightarrow> Inr rw)"

text \<open>\<open>WriteMsg\<close>: what is written to the connection, and the result; \<open>write\<close> is the
  connection's own \<open>WriteMsg\<close>.\<close>

definition WriteMsg ::
  "(Msg \<Rightarrow> peer_error option) \<Rightarrow> bool \<Rightarrow> protoRW \<Rightarrow> Msg \<Rightarrow> peer_error option \<times> Msg option" where
  "WriteMsg write closed rw msg =
     (if msg_Code msg \<ge> pr_Length (rw_proto rw) then (Some MsgNotHandled, None)
      else
        let msg1 = msg\<lparr>msg_Code := msg_Code msg + rw_offset rw\<rparr>
        in if closed then (Some ShuttingDown, None) else (write msg1, Some msg1))"

definition ReadMsg :: "bool \<Rightarrow> protoRW \<Rightarrow> Msg \<Rightarrow> peer_error + Msg" where
  "ReadMsg closed rw msg =
     (if closed then Inl EOF else Inr (msg\<lparr>msg_Code := msg_Code msg - rw_offset rw\<rparr>))"

datatype handled =
    PingQueued
  | HandleError peer_error
  | Discarded
  | Delivered protoRW Msg
  | ClosedOnPing

definition Peer_handle ::
  "(bytes \<Rightarrow> DiscReason) \<Rightarrow> (Msg \<Rightarrow> peer_error option) \<Rightarrow> bool \<Rightarrow> Peer \<Rightarrow> Msg \<Rightarrow> handled" where
  "Peer_handle decode discard closed p msg =
     (if msg_Code msg = pingMsg then (if closed then ClosedOnPing else PingQueued)
      else if msg_Code msg = discMsg then HandleError (Disc (decode (msg_Payload msg)))
      else if msg_Code msg < baseProtocolLength then
        (case discard msg of Some e \<Rightarrow> HandleError e | None \<Rightarrow> Discarded)
      else
        (case getProto (pe_running p) (msg_Code msg) of
           Inl _ \<Rightarrow> HandleError (MsgCodeOutOfRange (msg_Code msg))
         | Inr proto \<Rightarrow> if closed then HandleError EOF else Delivered proto msg))"

text \<open>The read loop over what the connection yields: what is delivered to protocols, and the
  error that ends it (\<open>None\<close> while it still waits).\<close>

fun readLoop ::
  "(bytes \<Rightarrow> DiscReason) \<Rightarrow> (Msg \<Rightarrow> peer_error option) \<Rightarrow> bool \<Rightarrow> Peer \<Rightarrow> (peer_error + Msg) list
     \<Rightarrow> (protoRW \<times> Msg) list \<times> peer_error option" where
  "readLoop decode discard closed p [] = ([], None)"
| "readLoop decode discard closed p (Inl err # msgs) = ([], Some err)"
| "readLoop decode discard closed p (Inr msg # msgs) =
     (case Peer_handle decode discard closed p msg of
        HandleError err \<Rightarrow> ([], Some err)
      | Delivered proto m \<Rightarrow>
          (case readLoop decode discard closed p msgs of (out, e) \<Rightarrow> ((proto, m) # out, e))
      | _ \<Rightarrow> readLoop decode discard closed p msgs)"

text \<open>The ping loop: a timer tick sends a ping (and a failed send ends it), a received ping is
  answered with a pong whose result is ignored. The events and whether the send worked.\<close>

datatype ping_event = PingTimer "peer_error option" | PingRecv | PingClosed

fun pingLoop :: "ping_event list \<Rightarrow> u64 list \<times> peer_error option" where
  "pingLoop [] = ([], None)"
| "pingLoop (PingTimer (Some err) # evs) = ([pingMsg], Some err)"
| "pingLoop (PingTimer None # evs) = (case pingLoop evs of (out, e) \<Rightarrow> (pingMsg # out, e))"
| "pingLoop (PingRecv # evs) = (case pingLoop evs of (out, e) \<Rightarrow> (pongMsg # out, e))"
| "pingLoop (PingClosed # evs) = ([], None)"

text \<open>The main loop of \<open>run\<close>: what it receives, in order, until a reason to disconnect.\<close>

datatype peer_event =
    WriteErr "peer_error option"
  | ReadErr peer_error
  | ProtoErr peer_error
  | DiscReq DiscReason

fun Peer_run ::
  "(peer_error \<Rightarrow> DiscReason) \<Rightarrow> peer_event list \<Rightarrow> (bool \<times> peer_error \<times> DiscReason) option" where
  "Peer_run discReasonForError [] = None"
| "Peer_run discReasonForError (WriteErr None # evs) = Peer_run discReasonForError evs"
| "Peer_run discReasonForError (WriteErr (Some err) # evs) = Some (False, err, DiscNetworkError)"
| "Peer_run discReasonForError (ReadErr err # evs) =
     (case err of Disc r \<Rightarrow> Some (True, err, r) | _ \<Rightarrow> Some (False, err, DiscNetworkError))"
| "Peer_run discReasonForError (ProtoErr err # evs) = Some (False, err, discReasonForError err)"
| "Peer_run discReasonForError (DiscReq r # evs) = Some (False, Disc r, discReasonForError (Disc r))"

text \<open>The goroutine \<open>startProtocols\<close> starts for a protocol reports this to \<open>protoErr\<close>.\<close>

definition protocol_result :: "peer_error option \<Rightarrow> peer_error" where
  "protocol_result err = (case err of None \<Rightarrow> ProtocolReturned | Some e \<Rightarrow> e)"

section \<open>Code ranges\<close>

text \<open>The ranges handed out lie one after the other from \<open>o0\<close>.\<close>

fun laid_out :: "u64 \<Rightarrow> (string \<times> protoRW) list \<Rightarrow> bool" where
  "laid_out o0 [] \<longleftrightarrow> True"
| "laid_out o0 ((_, rw) # rws) \<longleftrightarrow> rw_offset rw = o0 \<and> laid_out (o0 + pr_Length (rw_proto rw)) rws"

definition codes_end :: "u64 \<Rightarrow> (string \<times> protoRW) list \<Rightarrow> u64" where
  "codes_end o0 rws = o0 + (\<Sum>e\<leftarrow>rws. pr_Length (rw_proto (snd e)))"

lemma codes_end_simps [simp]:
  "codes_end o0 [] = o0"
  "codes_end o0 (e # rws) = codes_end (o0 + pr_Length (rw_proto (snd e))) rws"
  by (simp_all add: codes_end_def add.assoc)

lemma codes_end_append: "codes_end o0 (xs @ ys) = codes_end (codes_end o0 xs) ys"
  by (simp add: codes_end_def add.assoc)

lemma laid_out_append: "laid_out o0 (xs @ ys) \<longleftrightarrow> laid_out o0 xs \<and> laid_out (codes_end o0 xs) ys"
proof (induction xs arbitrary: o0)
  case (Cons e xs)
  then show ?case by (cases e) simp
qed simp

text \<open>Sorted capabilities: one name's come together, versions rising.\<close>

fun grouped :: "Cap list \<Rightarrow> bool" where
  "grouped [] \<longleftrightarrow> True"
| "grouped (c # cs) \<longleftrightarrow>
     cap_Name c \<notin> cap_Name ` set (dropWhile (\<lambda>d. cap_Name d = cap_Name c) cs) \<and> grouped cs"

definition caps_sort :: "(Cap list \<Rightarrow> Cap list) \<Rightarrow> bool" where
  "caps_sort sortf \<longleftrightarrow>
     (\<forall>caps. mset (sortf caps) = mset caps \<and> grouped (sortf caps) \<and>
        sorted_wrt (\<lambda>a b. cap_Name a = cap_Name b \<longrightarrow> cap_Version a \<le> cap_Version b) (sortf caps))"

text \<open>The state of the matching loop: everything but the last entry is of a name that does not
  come again, so a replaced entry is always the last one.\<close>

definition closed_names :: "(string \<times> protoRW) list \<Rightarrow> Cap list \<Rightarrow> bool" where
  "closed_names result caps \<longleftrightarrow>
     distinct (map fst result) \<and>
     (\<forall>n \<in> fst ` set (butlast result). n \<notin> cap_Name ` set caps) \<and>
     (result \<noteq> [] \<longrightarrow> caps \<noteq> [] \<longrightarrow> cap_Name (hd caps) \<noteq> fst (last result) \<longrightarrow>
        fst (last result) \<notin> cap_Name ` set caps)"

lemma update_last:
  assumes "k \<notin> fst ` set xs"
  shows "AList.update k v (xs @ [(k, w)]) = xs @ [(k, v)]"
  using assms by (induction xs) auto

lemma update_absent: "k \<notin> fst ` set xs \<Longrightarrow> AList.update k v xs = xs @ [(k, v)]"
  by (induction xs) auto

lemma set_butlast_last: "xs \<noteq> [] \<Longrightarrow> set xs = insert (last xs) (set (butlast xs))"
  by (induction xs) auto

text \<open>Once a capability is behind, its name comes again only if the next one has it.\<close>

lemma grouped_next:
  assumes "grouped (c # cs)" and "cs \<noteq> []" and "cap_Name (hd cs) \<noteq> cap_Name c"
  shows "cap_Name c \<notin> cap_Name ` set cs"
  using assms by (cases cs) auto

lemma closed_names_skip:
  assumes "closed_names result (c # cs)" and "grouped (c # cs)"
  shows "closed_names result cs"
  using assms grouped_next [OF assms(2)] by (fastforce simp: closed_names_def)

text \<open>A name that is in the result is its last entry's.\<close>

lemma closed_names_present:
  assumes "closed_names result (c # cs)" and "map_of result (cap_Name c) = Some old"
  obtains xs where "result = xs @ [(cap_Name c, old)]" and "cap_Name c \<notin> fst ` set xs"
proof -
  have "(cap_Name c, old) \<in> set result" using assms(2) by (rule map_of_SomeD)
  then have ne: "result \<noteq> []" by auto
  then have split: "result = butlast result @ [last result]" by simp
  have "cap_Name c \<notin> fst ` set (butlast result)" using assms(1) by (auto simp: closed_names_def)
  moreover from this have "(cap_Name c, old) \<notin> set (butlast result)" by force
  then have "last result = (cap_Name c, old)"
    using \<open>(cap_Name c, old) \<in> set result\<close> set_butlast_last [OF ne] by auto
  ultimately show thesis using split that by metis
qed

lemma match_caps_ok:
  assumes "grouped caps" and "closed_names result caps" and "laid_out o0 result"
    and "offset = codes_end o0 result"
  shows "laid_out o0 (match_caps protocols caps offset result) \<and>
    distinct (map fst (match_caps protocols caps offset result))"
  using assms
proof (induction caps arbitrary: offset result)
  case Nil
  then show ?case by (simp add: closed_names_def)
next
  case (Cons c caps)
  have g: "grouped caps" using Cons.prems(1) by simp
  show ?case
  proof (cases "find (matches c) protocols")
    case None
    with Cons.IH [OF g closed_names_skip [OF Cons.prems(2,1)] Cons.prems(3,4)] show ?thesis by simp
  next
    case (Some proto)
    show ?thesis
    proof (cases "map_of result (cap_Name c)")
      case None
      let ?r = "result @ [(cap_Name c, \<lparr>rw_proto = proto, rw_offset = offset\<rparr>)]"
      have fresh: "cap_Name c \<notin> fst ` set result" using None by (simp add: map_of_eq_None_iff)
      have old: "n \<notin> cap_Name ` set caps" if "n \<in> fst ` set result" for n
      proof (cases "result = []")
        case False
        have "n \<in> fst ` set (butlast result) \<or> n = fst (last result)"
          using that False by (auto simp: set_butlast_last)
        then have "n \<notin> cap_Name ` set (c # caps)"
        proof
          assume "n \<in> fst ` set (butlast result)"
          then show ?thesis using Cons.prems(2) unfolding closed_names_def by blast
        next
          assume n: "n = fst (last result)"
          have "cap_Name (hd (c # caps)) \<noteq> fst (last result)" using fresh False by auto
          then show ?thesis using Cons.prems(2) False unfolding closed_names_def n by blast
        qed
        then show ?thesis by simp
      qed (use that in simp)
      have "closed_names ?r caps"
        unfolding closed_names_def
      proof (intro conjI impI)
        show "distinct (map fst ?r)" using Cons.prems(2) fresh by (simp add: closed_names_def)
        show "\<forall>n \<in> fst ` set (butlast ?r). n \<notin> cap_Name ` set caps" using old by simp
        show "fst (last ?r) \<notin> cap_Name ` set caps" if "caps \<noteq> []" "cap_Name (hd caps) \<noteq> fst (last ?r)"
          using grouped_next [OF Cons.prems(1)] that by simp
      qed
      moreover have "laid_out o0 ?r"
        using Cons.prems(3,4) by (simp add: laid_out_append)
      moreover have "offset + pr_Length proto = codes_end o0 ?r"
        using Cons.prems(4) by (simp add: codes_end_append)
      ultimately show ?thesis
        using Cons.IH [OF g] None Some update_absent [OF fresh] by (simp add: Let_def)
    next
      case (Some old)
      from closed_names_present [OF Cons.prems(2) Some] obtain xs
        where xs: "result = xs @ [(cap_Name c, old)]" "cap_Name c \<notin> fst ` set xs" .
      let ?o = "offset - pr_Length (rw_proto old)"
      let ?r = "xs @ [(cap_Name c, \<lparr>rw_proto = proto, rw_offset = ?o\<rparr>)]"
      have o: "?o = codes_end o0 xs" using Cons.prems(4) by (simp add: xs(1) codes_end_append)
      have "closed_names ?r caps"
        using Cons.prems(2) xs grouped_next [OF Cons.prems(1)] by (auto simp: closed_names_def)
      moreover have "laid_out o0 ?r"
        using Cons.prems(3) o by (simp add: xs(1) laid_out_append)
      moreover have "?o + pr_Length proto = codes_end o0 ?r"
        using o by (simp add: codes_end_append)
      ultimately show ?thesis
        using Cons.IH [OF g] Some \<open>find (matches c) protocols = Some proto\<close> update_last [OF xs(2)]
        by (simp add: Let_def xs(1))
    qed
  qed
qed

lemma matchProtocols_laid_out:
  assumes "caps_sort sortf"
  shows "laid_out baseProtocolLength (matchProtocols sortf protocols caps)"
    and "distinct (map fst (matchProtocols sortf protocols caps))"
  using assms match_caps_ok [of "sortf caps" "[]" baseProtocolLength baseProtocolLength protocols]
  by (simp_all add: matchProtocols_def caps_sort_def closed_names_def)

section \<open>Routing\<close>

text \<open>The ranges as numbers, when they do not wrap.\<close>

lemma laid_out_bounds:
  assumes "laid_out o0 rws" and "unat o0 + (\<Sum>e\<leftarrow>rws. unat (pr_Length (rw_proto (snd e)))) < 2 ^ 64"
    and "i < length rws"
  shows "unat (rw_offset (snd (rws ! i)))
    = unat o0 + (\<Sum>e\<leftarrow>take i rws. unat (pr_Length (rw_proto (snd e))))"
  using assms
proof (induction rws arbitrary: o0 i)
  case (Cons e rws)
  show ?case
  proof (cases i)
    case 0
    with Cons.prems(1) show ?thesis by (cases e) simp
  next
    case (Suc j)
    have "unat (o0 + pr_Length (rw_proto (snd e))) = unat o0 + unat (pr_Length (rw_proto (snd e)))"
      using Cons.prems(2) by (intro unat_plus_no_wrap) simp
    with Cons.IH [of "o0 + pr_Length (rw_proto (snd e))" j] Cons.prems Suc show ?thesis
      by (cases e) simp
  qed
qed simp

lemma in_range_iff:
  assumes "unat (rw_offset rw) + unat (pr_Length (rw_proto rw)) < 2 ^ 64"
  shows "in_range code rw \<longleftrightarrow> unat (rw_offset rw) \<le> unat code \<and>
    unat code < unat (rw_offset rw) + unat (pr_Length (rw_proto rw))"
  using assms by (simp add: in_range_def word_le_nat_alt word_less_nat_alt unat_plus_no_wrap)

lemma range_within:
  assumes "laid_out o0 rws" and "unat o0 + (\<Sum>e\<leftarrow>rws. unat (pr_Length (rw_proto (snd e)))) < 2 ^ 64"
    and "i < length rws"
  shows "unat (rw_offset (snd (rws ! i))) + unat (pr_Length (rw_proto (snd (rws ! i))))
    = unat o0 + (\<Sum>e\<leftarrow>take (Suc i) rws. unat (pr_Length (rw_proto (snd e))))"
  using laid_out_bounds [OF assms] assms(3) by (simp add: take_Suc_conv_app_nth)

lemma sum_take_mono: "i \<le> j \<Longrightarrow> (\<Sum>e\<leftarrow>take i xs. f e) \<le> (\<Sum>e\<leftarrow>take j xs. f e)"
  for f :: "'a \<Rightarrow> nat"
proof -
  assume "i \<le> j"
  then have "take j xs = take i xs @ take (j - i) (drop i xs)" by (metis le_add_diff_inverse take_add)
  then show ?thesis by simp
qed

text \<open>Two ranges do not share a code.\<close>

lemma ranges_disjoint:
  assumes lay: "laid_out o0 rws"
    and small: "unat o0 + (\<Sum>e\<leftarrow>rws. unat (pr_Length (rw_proto (snd e)))) < 2 ^ 64"
    and ij: "i < length rws" "j < length rws"
    and code: "in_range code (snd (rws ! i))" "in_range code (snd (rws ! j))"
  shows "i = j"
proof -
  let ?L = "\<lambda>k. \<Sum>e\<leftarrow>take k rws. unat (pr_Length (rw_proto (snd e)))"
  have "?L k \<le> (\<Sum>e\<leftarrow>rws. unat (pr_Length (rw_proto (snd e))))" for k
    using sum_take_mono [where i = k and j = "max k (length rws)" and xs = rws] by simp
  then have bound: "unat o0 + ?L k < 2 ^ 64" for k using small by (meson add_left_mono le_less_trans)
  have range: "unat o0 + ?L k \<le> unat code \<and> unat code < unat o0 + ?L (Suc k)"
    if "k < length rws" "in_range code (snd (rws ! k))" for k
    using that(2) in_range_iff [of "snd (rws ! k)" code] laid_out_bounds [OF lay small that(1)]
      range_within [OF lay small that(1)] bound [of "Suc k"] by simp
  have mono: "a \<le> b \<Longrightarrow> ?L a \<le> ?L b" for a b by (rule sum_take_mono)
  note r = range [OF ij(1) code(1)] range [OF ij(2) code(2)]
  show ?thesis
  proof (rule ccontr)
    assume "i \<noteq> j"
    then have "Suc i \<le> j \<or> Suc j \<le> i" by linarith
    then show False using mono [of "Suc i" j] mono [of "Suc j" i] r by linarith
  qed
qed

end
