(* ===== verification/P2P_Server.thy ===== *)
theory P2P_Server
  imports Dialer Peer "HOL-Library.Signed_Division"
begin

text \<open>
  \<open>internal/p2p/p2p.go\<close>: the server. Its main loop is \<open>run_handle\<close>, one event at a time, over
  the peers, the count of inbound peers and the trusted ids; what it tells the dial scheduler
  is part of the result, and so is the verdict it sends back to a connection being set up.
  Setting a connection up, starting and stopping, accepting and the throttle are definitions
  of their own; handshakes, listeners, discovery and the clock are their arguments. Metrics,
  logging, event feeds, NAT mapping and discovery are left out. A Go \<open>int\<close> is an \<open>int\<close>.
\<close>

definition defaultDialRatio :: int where "defaultDialRatio = 3"

record P2PConfig =
  pc_MaxPeers :: int
  pc_MaxPendingPeers :: int
  pc_DialRatio :: int
  pc_NoDial :: bool
  pc_ListenAddr :: string
  pc_HasPrivateKey :: bool
  pc_StaticNodes :: "Node list"
  pc_TrustedNodes :: "Node list"
  pc_Protocols :: "Protocol list"

text \<open>Division truncates towards zero.\<close>

definition maxDialedConns :: "P2PConfig \<Rightarrow> int" where
  "maxDialedConns srv =
     (if pc_NoDial srv \<or> pc_MaxPeers srv = 0 then 0
      else
        let limit = (if pc_DialRatio srv = 0 then pc_MaxPeers srv sdiv defaultDialRatio
                     else pc_MaxPeers srv sdiv pc_DialRatio srv)
        in if limit = 0 then 1 else limit)"

definition maxInboundConns :: "P2PConfig \<Rightarrow> int" where
  "maxInboundConns srv = pc_MaxPeers srv - maxDialedConns srv"

definition dial_config :: "P2PConfig \<Rightarrow> node_id \<Rightarrow> dialConfig" where
  "dial_config srv self =
     \<lparr>dc_self = self, dc_maxDialPeers = maxDialedConns srv,
      dc_maxActiveDials = pc_MaxPendingPeers srv\<rparr>"

section \<open>The main loop\<close>

record run_state =
  rs_peers :: "(node_id \<times> conn) list"
  rs_inboundCount :: int
  rs_trusted :: "node_id set"

definition run_init :: "P2PConfig \<Rightarrow> run_state" where
  "run_init srv =
     \<lparr>rs_peers = [], rs_inboundCount = 0, rs_trusted = set (map nd_ID (pc_TrustedNodes srv))\<rparr>"

definition postHandshakeChecks ::
  "P2PConfig \<Rightarrow> node_id \<Rightarrow> (node_id \<times> conn) list \<Rightarrow> int \<Rightarrow> conn \<Rightarrow> DiscReason option" where
  "postHandshakeChecks srv self peers inboundCount c =
     (if \<not> conn_is c trustedConn \<and> int (length peers) \<ge> pc_MaxPeers srv then Some DiscTooManyPeers
      else if \<not> conn_is c trustedConn \<and> conn_is c inboundConn \<and> inboundCount \<ge> maxInboundConns srv
      then Some DiscTooManyPeers
      else if map_of peers (nd_ID (cn_node c)) \<noteq> None then Some DiscAlreadyConnected
      else if nd_ID (cn_node c) = self then Some DiscSelf
      else None)"

definition addPeerChecks ::
  "P2PConfig \<Rightarrow> node_id \<Rightarrow> (node_id \<times> conn) list \<Rightarrow> int \<Rightarrow> conn \<Rightarrow> DiscReason option" where
  "addPeerChecks srv self peers inboundCount c =
     (if pc_Protocols srv \<noteq> [] \<and> countMatchingProtocols (pc_Protocols srv) (cn_caps c) = 0
      then Some DiscUselessPeer
      else postHandshakeChecks srv self peers inboundCount c)"

datatype run_event =
    AddTrusted Node
  | RemoveTrusted Node
  | PeerCountOp
  | PostHandshake conn
  | AddPeer conn
  | DelPeer conn

text \<open>What a turn sends back: nothing, a count, or the verdict with the connection as the turn
  left it.\<close>

datatype run_reply = NoReply | Count nat | Verdict "DiscReason option" conn

definition set_trusted :: "node_id \<Rightarrow> bool \<Rightarrow> (node_id \<times> conn) list \<Rightarrow> (node_id \<times> conn) list" where
  "set_trusted nid val peers =
     map (\<lambda>(i, c). if i = nid then (i, conn_set trustedConn val c) else (i, c)) peers"

text \<open>\<open>delpeer\<close> carries the peer whose connection has ended.\<close>

definition run_handle ::
  "P2PConfig \<Rightarrow> node_id \<Rightarrow> run_event \<Rightarrow> run_state \<Rightarrow> run_reply \<times> dial_event list \<times> run_state" where
  "run_handle srv self ev st =
     (case ev of
        AddTrusted n \<Rightarrow>
          (NoReply, [], st\<lparr>rs_trusted := insert (nd_ID n) (rs_trusted st),
                           rs_peers := set_trusted (nd_ID n) True (rs_peers st)\<rparr>)
      | RemoveTrusted n \<Rightarrow>
          (NoReply, [], st\<lparr>rs_trusted := rs_trusted st - {nd_ID n},
                           rs_peers := set_trusted (nd_ID n) False (rs_peers st)\<rparr>)
      | PeerCountOp \<Rightarrow> (Count (length (rs_peers st)), [], st)
      | PostHandshake c \<Rightarrow>
          let c1 = (if nd_ID (cn_node c) \<in> rs_trusted st then conn_set trustedConn True c else c)
          in (Verdict (postHandshakeChecks srv self (rs_peers st) (rs_inboundCount st) c1) c1, [], st)
      | AddPeer c \<Rightarrow>
          let err = addPeerChecks srv self (rs_peers st) (rs_inboundCount st) c in
          if err = None then
            (Verdict err c, [PeerAdded c],
             st\<lparr>rs_peers := AList.update (nd_ID (cn_node c)) c (rs_peers st),
                rs_inboundCount := (if conn_is c inboundConn then rs_inboundCount st + 1
                                    else rs_inboundCount st)\<rparr>)
          else (Verdict err c, [], st)
      | DelPeer c \<Rightarrow>
          (NoReply, [PeerRemoved c],
           st\<lparr>rs_peers := AList.delete (nd_ID (cn_node c)) (rs_peers st),
              rs_inboundCount := (if conn_is c inboundConn then rs_inboundCount st - 1
                                  else rs_inboundCount st)\<rparr>))"

text \<open>After the loop: every peer is told to quit, and the server waits until each has reported.\<close>

fun drain_peers :: "(node_id \<times> conn) list \<Rightarrow> node_id list \<Rightarrow> (node_id \<times> conn) list" where
  "drain_peers peers [] = peers"
| "drain_peers peers (nid # drops) =
     (if peers = [] then peers else drain_peers (AList.delete nid peers) drops)"

section \<open>Inbound connections\<close>

datatype inbound_error = NotInNetRestrict | TooManyAttempts

text \<open>\<open>contains\<close> is the net restriction when there is one; \<open>None\<close> for the address is an invalid
  one.\<close>

definition checkInboundConn ::
  "'h exp_heap \<Rightarrow> (string \<Rightarrow> bool) option \<Rightarrow> (string \<Rightarrow> bool) \<Rightarrow> int \<Rightarrow> string option \<Rightarrow> 'h
     \<Rightarrow> inbound_error option \<times> 'h" where
  "checkInboundConn H netRestrict isLAN now remoteIP history =
     (case remoteIP of
        None \<Rightarrow> (None, history)
      | Some ip \<Rightarrow>
          if (case netRestrict of None \<Rightarrow> False | Some contains \<Rightarrow> \<not> contains ip)
          then (Some NotInNetRestrict, history)
          else
            let history1 = snd (hp_expire H now history) in
            if \<not> isLAN ip \<and> hp_contains H ip history1 then (Some TooManyAttempts, history1)
            else (None, hp_add H ip (now + inboundThrottleTime) history1))"

text \<open>The accept loop holds one slot per connection being set up: the free slots, those in use,
  and whether it still accepts.\<close>

record 'h listener =
  li_free :: int
  li_busy :: int
  li_history :: 'h
  li_open :: bool

definition listen_init :: "P2PConfig \<Rightarrow> 'h \<Rightarrow> 'h listener" where
  "listen_init srv history =
     \<lparr>li_free = (if pc_MaxPendingPeers srv > 0 then pc_MaxPendingPeers srv
                 else defaultMaxPendingPeers),
      li_busy = 0, li_history = history, li_open = True\<rparr>"

datatype listen_event = Accept "string option" int | AcceptError | SetupDone

definition listen_handle ::
  "'h exp_heap \<Rightarrow> (string \<Rightarrow> bool) option \<Rightarrow> (string \<Rightarrow> bool) \<Rightarrow> listen_event \<Rightarrow> 'h listener
     \<Rightarrow> 'h listener option" where
  "listen_handle H netRestrict isLAN ev l =
     (case ev of
        Accept remoteIP now \<Rightarrow>
          if li_open l \<and> li_free l > 0 then
            (case checkInboundConn H netRestrict isLAN now remoteIP (li_history l) of
               (Some err, history) \<Rightarrow> Some (l\<lparr>li_history := history\<rparr>)
             | (None, history) \<Rightarrow>
                 Some (l\<lparr>li_free := li_free l - 1, li_busy := li_busy l + 1, li_history := history\<rparr>))
          else None
      | AcceptError \<Rightarrow> if li_open l \<and> li_free l > 0 then Some (l\<lparr>li_open := False\<rparr>) else None
      | SetupDone \<Rightarrow>
          if li_busy l > 0 then Some (l\<lparr>li_free := li_free l + 1, li_busy := li_busy l - 1\<rparr>)
          else None)"

section \<open>Setting a connection up\<close>

datatype setup_error =
    ServerStopped
  | EncHandshakeError string
  | ProtoHandshakeError string
  | Refused DiscReason
  | UnexpectedIdentity

record protoHandshake =
  ph_Name :: string
  ph_Caps :: "Cap list"
  ph_ID :: bytes

text \<open>The two checkpoints are calls into the main loop: an error of the stopped server or of the
  loop's verdict, with the connection as the loop left it. \<open>nodeFromConn\<close> makes the node of an
  inbound connection from the key the handshake found.\<close>

definition setupConn ::
  "bool \<Rightarrow> (bytes \<Rightarrow> node_id) \<Rightarrow> (bytes \<Rightarrow> Node) \<Rightarrow> (Node \<Rightarrow> bytes option)
     \<Rightarrow> string + bytes \<Rightarrow> (conn \<Rightarrow> setup_error option \<times> conn) \<Rightarrow> string + protoHandshake
     \<Rightarrow> (conn \<Rightarrow> setup_error option \<times> conn) \<Rightarrow> connFlag \<Rightarrow> Node option \<Rightarrow> setup_error option" where
  "setupConn running keccak nodeFromConn pubkey enc postHandshake proto addPeer flags dialDest =
     (if \<not> running then Some ServerStopped
      else if (case dialDest of None \<Rightarrow> False | Some n \<Rightarrow> pubkey n = None)
      then Some (EncHandshakeError ''dial destination doesn't have a Dilithium public key'')
      else
        case enc of
          Inl err \<Rightarrow> Some (EncHandshakeError err)
        | Inr remotePubkey \<Rightarrow>
            let c = \<lparr>cn_node = (case dialDest of Some n \<Rightarrow> n | None \<Rightarrow> nodeFromConn remotePubkey),
                     cn_flags = flags, cn_caps = [], cn_name = []\<rparr>
            in case postHandshake c of
                 (Some err, _) \<Rightarrow> Some err
               | (None, c1) \<Rightarrow>
                   (case proto of
                      Inl err \<Rightarrow> Some (ProtoHandshakeError err)
                    | Inr phs \<Rightarrow>
                        if keccak (ph_ID phs) \<noteq> nd_ID (cn_node c1) then Some UnexpectedIdentity
                        else fst (addPeer (c1\<lparr>cn_caps := ph_Caps phs, cn_name := ph_Name phs\<rparr>))))"

text \<open>A checkpoint against the main loop in state \<open>st\<close>.\<close>

definition checkpoint ::
  "P2PConfig \<Rightarrow> node_id \<Rightarrow> run_state \<Rightarrow> (conn \<Rightarrow> run_event) \<Rightarrow> bool \<Rightarrow> conn \<Rightarrow> setup_error option \<times> conn"
where
  "checkpoint srv self st stage quit c =
     (if quit then (Some ServerStopped, c)
      else case fst (run_handle srv self (stage c) st) of
             Verdict v c1 \<Rightarrow> (map_option Refused v, c1)
           | _ \<Rightarrow> (None, c))"

section \<open>Starting and stopping\<close>

record P2PServer =
  sv_config :: P2PConfig
  sv_running :: bool
  sv_listening :: bool
  sv_quit :: bool

datatype start_error = AlreadyRunning | NoPrivateKey | LocalNodeError | ListenError | DiscoveryError

text \<open>\<open>localnode\<close>, \<open>listen\<close> and \<open>discovery\<close> are whether those steps work.\<close>

definition Start :: "bool \<Rightarrow> bool \<Rightarrow> bool \<Rightarrow> P2PServer \<Rightarrow> start_error option \<times> P2PServer" where
  "Start localnode listen discovery srv =
     (if sv_running srv then (Some AlreadyRunning, srv)
      else
        let srv1 = srv\<lparr>sv_running := True\<rparr> in
        if \<not> pc_HasPrivateKey (sv_config srv1) then (Some NoPrivateKey, srv1)
        else
          let srv2 = srv1\<lparr>sv_quit := False\<rparr> in
          if \<not> localnode then (Some LocalNodeError, srv2)
          else if pc_ListenAddr (sv_config srv2) \<noteq> [] \<and> \<not> listen then (Some ListenError, srv2)
          else
            let srv3 = (if pc_ListenAddr (sv_config srv2) \<noteq> []
                        then srv2\<lparr>sv_listening := True\<rparr> else srv2)
            in if \<not> discovery then (Some DiscoveryError, srv3) else (None, srv3))"

definition Stop :: "P2PServer \<Rightarrow> P2PServer" where
  "Stop srv =
     (if \<not> sv_running srv then srv
      else srv\<lparr>sv_running := False, sv_listening := False, sv_quit := True\<rparr>)"

text \<open>\<open>Peers\<close>, \<open>PeerCount\<close>: what the operation sees when the loop runs it, and what the call
  returns when the server quits instead.\<close>

definition PeerCount :: "bool \<Rightarrow> run_state \<Rightarrow> nat" where
  "PeerCount quit st = (if quit then 0 else length (rs_peers st))"

definition Peers :: "bool \<Rightarrow> run_state \<Rightarrow> conn list" where
  "Peers quit st = (if quit then [] else map snd (rs_peers st))"

text \<open>\<open>RemovePeer\<close>: the static node goes from the dialer, and the peer is told to disconnect when
  there is one (then the call waits for its drop).\<close>

definition RemovePeer :: "bool \<Rightarrow> Node \<Rightarrow> run_state \<Rightarrow> dial_event list \<times> conn option" where
  "RemovePeer quit node st =
     (if quit then ([], None) else ([RemoveStatic node], map_of (rs_peers st) (nd_ID node)))"

definition setupDialScheduler :: "P2PConfig \<Rightarrow> node_id \<Rightarrow> 'h \<Rightarrow> int \<Rightarrow> 'h dialScheduler \<times> dial_event list" where
  "setupDialScheduler srv self history now =
     (newDialScheduler (dial_config srv self) history now, map AddStatic (pc_StaticNodes srv))"

end

