(* ===== verification/P2P_Start.thy ===== *)
theory P2P_Start
  imports P2P_Server
begin

text \<open>
  What \<open>Start\<close> of \<open>internal/p2p/p2p.go\<close> does step by step, with the stubs of \<open>internal/p2p/types.go\<close> it
  reaches: \<open>RootLogger\<close> returns nil, \<open>setupPortMapping\<close> makes no channel, \<open>OpenNodeDB\<close> and the two
  discovery listeners always succeed. A step goes on, waits for ever (a send on a nil channel) or
  crashes (a call on a nil interface). \<open>Start\<close> of \<open>P2P_Server\<close> is the same function with the outcome of
  its steps as arguments.
\<close>

section \<open>Configuration and environment\<close>

record StartConfig = P2PConfig +
  pc_NoDiscovery :: bool
  pc_DiscAddr :: string
  pc_HasLogger :: bool

text \<open>An address a socket is bound to: its text, its port, and for TCP and UDP whether it is a
  loopback or private one.\<close>

record bound_addr =
  ba_text :: string
  ba_port :: int
  ba_local :: "bool option"

text \<open>\<open>listenFunc\<close>, and \<open>ResolveUDPAddr\<close> with \<open>ListenUDP\<close>: \<open>None\<close> when they fail.\<close>

record start_env =
  se_listen :: "string \<Rightarrow> bound_addr option"
  se_udp :: "string \<Rightarrow> bound_addr option"

datatype 'a progress = Went 'a | Waits | Crashes string

definition with_logger :: "StartConfig \<Rightarrow> 'a progress \<Rightarrow> 'a progress" where
  "with_logger cfg k = (if pc_HasLogger cfg then k else Crashes ''nil pointer dereference'')"

text \<open>The announcement of a public address goes to a channel that was never made.\<close>

definition announce :: "bool option \<Rightarrow> 'a progress \<Rightarrow> 'a progress" where
  "announce is_local k = (if is_local = Some False then Waits else k)"

section \<open>The steps\<close>

definition setupLocalNode :: "Protocol list \<Rightarrow> Cap list" where
  "setupLocalNode protocols = map (\<lambda>p. \<lparr>cap_Name = [], cap_Version = 0\<rparr>) protocols"

definition setupListening :: "start_env \<Rightarrow> StartConfig \<Rightarrow> (start_error option \<times> StartConfig) progress" where
  "setupListening env cfg =
     (case se_listen env (pc_ListenAddr cfg) of
        None \<Rightarrow> Went (Some ListenError, cfg)
      | Some a \<Rightarrow> announce (ba_local a) (Went (None, cfg\<lparr>pc_ListenAddr := ba_text a\<rparr>)))"

definition setupUDPListening :: "start_env \<Rightarrow> StartConfig \<Rightarrow> start_error option progress" where
  "setupUDPListening env cfg =
     (let listenAddr = (if pc_DiscAddr cfg \<noteq> [] then pc_DiscAddr cfg else pc_ListenAddr cfg) in
      case se_udp env listenAddr of
        None \<Rightarrow> Went (Some DiscoveryError)
      | Some a \<Rightarrow> with_logger cfg (announce (ba_local a) (Went None)))"

definition setupDiscovery :: "start_env \<Rightarrow> StartConfig \<Rightarrow> start_error option progress" where
  "setupDiscovery env cfg = (if pc_NoDiscovery cfg then Went None else setupUDPListening env cfg)"

text \<open>Up to the start of the main loop, whose first act is a message to the log.\<close>

definition start_up :: "start_env \<Rightarrow> bool \<Rightarrow> StartConfig \<Rightarrow> (start_error option \<times> StartConfig) progress" where
  "start_up env running cfg =
     (if running then Went (Some AlreadyRunning, cfg)
      else if pc_NoDial cfg \<and> pc_ListenAddr cfg = [] \<and> \<not> pc_HasLogger cfg
      then Crashes ''nil pointer dereference''
      else if \<not> pc_HasPrivateKey cfg then Went (Some NoPrivateKey, cfg)
      else
        case (if pc_ListenAddr cfg \<noteq> [] then setupListening env cfg else Went (None, cfg)) of
          Waits \<Rightarrow> Waits
        | Crashes s \<Rightarrow> Crashes s
        | Went (Some err, cfg1) \<Rightarrow> Went (Some err, cfg1)
        | Went (None, cfg1) \<Rightarrow>
            (case setupDiscovery env cfg1 of
               Waits \<Rightarrow> Waits
             | Crashes s \<Rightarrow> Crashes s
             | Went (Some err) \<Rightarrow> Went (Some err, cfg1)
             | Went None \<Rightarrow> with_logger cfg1 (Went (None, cfg1))))"

text \<open>What has to hold for a server to come up.\<close>

lemma start_up_iff:
  "(\<exists>cfg'. start_up env running cfg = Went (None, cfg')) \<longleftrightarrow>
     \<not> running \<and> pc_HasPrivateKey cfg \<and> pc_HasLogger cfg \<and>
     (pc_ListenAddr cfg \<noteq> [] \<longrightarrow>
        (\<exists>a. se_listen env (pc_ListenAddr cfg) = Some a \<and> ba_local a \<noteq> Some False)) \<and>
     (\<not> pc_NoDiscovery cfg \<longrightarrow>
        (\<exists>a. ba_local a \<noteq> Some False \<and>
          se_udp env (if pc_DiscAddr cfg \<noteq> [] then pc_DiscAddr cfg
                      else if pc_ListenAddr cfg \<noteq> [] then ba_text (the (se_listen env (pc_ListenAddr cfg)))
                      else []) = Some a))"
  by (auto simp: start_up_def setupListening_def setupDiscovery_def setupUDPListening_def with_logger_def
      announce_def Let_def split: option.splits progress.splits if_splits)

section \<open>Setting connections up\<close>

text \<open>\<open>SetupConn\<close>: the error, whether it is counted as a dial error, and whether the connection is
  closed.\<close>

definition SetupConn :: "connFlag \<Rightarrow> setup_error option \<Rightarrow> setup_error option \<times> bool \<times> bool" where
  "SetupConn flags err = (err, err \<noteq> None \<and> flags AND inboundConn = 0, err \<noteq> None)"

text \<open>\<open>ReadFromUDPAddrPort\<close> on a buffer: a closed channel is an error (\<open>None\<close>), a packet is cut to the
  buffer and overwrites its beginning.\<close>

definition ReadFromUDPAddrPort :: "bytes \<Rightarrow> (bytes \<times> 'a) option \<Rightarrow> (nat \<times> 'a) option \<times> bytes" where
  "ReadFromUDPAddrPort b packet =
     (case packet of
        None \<Rightarrow> (None, b)
      | Some (dat, addr) \<Rightarrow>
          let l = (if length dat > length b then length b else length dat)
          in (Some (l, addr), take l dat @ drop l b))"

lemma ReadFromUDP_buffer:
  assumes "ReadFromUDPAddrPort b packet = (r, b')"
  shows "length b' = length b \<and> (case r of None \<Rightarrow> b' = b | Some (l, _) \<Rightarrow> take l b' = take l (fst (the packet)))"
  using assms by (auto simp: ReadFromUDPAddrPort_def Let_def split: option.splits prod.splits if_splits)

section \<open>The accept loop\<close>

text \<open>Every slot is free or in use, whatever happens; \<open>listen_run\<close> is a sequence of events the loop can
  take.\<close>

fun listen_run ::
  "'h exp_heap \<Rightarrow> (string \<Rightarrow> bool) option \<Rightarrow> (string \<Rightarrow> bool) \<Rightarrow> listen_event list \<Rightarrow> 'h listener
     \<Rightarrow> 'h listener option" where
  "listen_run H netRestrict isLAN [] l = Some l"
| "listen_run H netRestrict isLAN (ev # evs) l =
     (case listen_handle H netRestrict isLAN ev l of
        None \<Rightarrow> None
      | Some l1 \<Rightarrow> listen_run H netRestrict isLAN evs l1)"

definition slots_ok :: "int \<Rightarrow> 'h listener \<Rightarrow> bool" where
  "slots_ok n l \<longleftrightarrow> li_free l + li_busy l = n \<and> 0 \<le> li_free l \<and> 0 \<le> li_busy l"

lemma listen_handle_slots:
  "listen_handle H netRestrict isLAN ev l = Some l1 \<Longrightarrow> slots_ok n l \<Longrightarrow> slots_ok n l1"
  by (auto simp: listen_handle_def slots_ok_def split: listen_event.splits if_splits prod.splits option.splits)

lemma listen_run_slots:
  "listen_run H netRestrict isLAN evs l = Some l1 \<Longrightarrow> slots_ok n l \<Longrightarrow> slots_ok n l1"
  by (induction evs arbitrary: l) (auto split: option.splits dest: listen_handle_slots)

lemma listen_init_slots: "slots_ok (li_free (listen_init srv history)) (listen_init srv history)"
  by (auto simp: slots_ok_def listen_init_def defaultMaxPendingPeers_def)

text \<open>After an accept error, of whatever kind, nothing is accepted any more.\<close>

lemma listen_run_stops:
  "listen_run H netRestrict isLAN evs l = Some l1 \<Longrightarrow> \<not> li_open l \<Longrightarrow>
   \<not> li_open l1 \<and> li_history l1 = li_history l \<and> li_busy l1 \<le> li_busy l"
proof (induction evs arbitrary: l)
  case (Cons ev evs)
  from Cons.prems obtain l2 where l2: "listen_handle H netRestrict isLAN ev l = Some l2"
    "listen_run H netRestrict isLAN evs l2 = Some l1" by (auto split: option.splits)
  then have "\<not> li_open l2 \<and> li_history l2 = li_history l \<and> li_busy l2 \<le> li_busy l"
    using Cons.prems(2) by (auto simp: listen_handle_def split: listen_event.splits if_splits)
  with Cons.IH [OF l2(2)] show ?case by auto
qed simp

text \<open>The slots in use drain: each set-up that ends frees one.\<close>

lemma setups_drain:
  "slots_ok n l \<Longrightarrow>
   \<exists>l1. listen_run H netRestrict isLAN (replicate (nat (li_busy l)) SetupDone) l = Some l1 \<and>
     li_busy l1 = 0 \<and> li_free l1 = n \<and> li_open l1 = li_open l"
proof (induction "nat (li_busy l)" arbitrary: l)
  case 0
  then show ?case by (simp add: slots_ok_def)
next
  case (Suc k)
  let ?l = "l\<lparr>li_free := li_free l + 1, li_busy := li_busy l - 1\<rparr>"
  from Suc.hyps(2) have busy: "li_busy l > 0" by simp
  then have one: "listen_handle H netRestrict isLAN SetupDone l = Some ?l" by (simp add: listen_handle_def)
  have k: "nat (li_busy l) = Suc (nat (li_busy ?l))" using busy by simp
  have "slots_ok n ?l" using Suc.prems busy by (simp add: slots_ok_def)
  from Suc.hyps(1) [OF _ this] Suc.hyps(2) k show ?case by (simp add: one)
qed

end
