(* ===== verification/Bootstrap.thy ===== *)
theory Bootstrap
  imports P2P_Network P2P_Start
begin

text \<open>
  How a node finds its first peers: \<open>internal/p2p/seeds.go\<close> for the plain network server, and
  \<open>internal/sync.go\<close> for the peer-to-peer server of the daemon, with the node constructor it
  reaches in \<open>internal/p2p/types.go\<close>. The resolution of names is a parameter.
\<close>

section \<open>Seeds\<close>

definition DefaultHardcodedSeeds :: "string list" where
  "DefaultHardcodedSeeds =
     [''seed1.xcosh.org:19333'', ''seed2.xcosh.org:19333'', ''fallback.xcosh.network:19333'',
      ''127.0.0.1:19333'']"

definition DnsSeedDomains :: "string list" where
  "DnsSeedDomains = [''seed.xcosh.io'', ''dnsseed.xcosh.org'']"

text \<open>The addresses \<open>AutoDiscoverAndConnect\<close> starts a connection to, each in a goroutine of its own.\<close>

definition discover_targets :: "(string \<Rightarrow> string list option) \<Rightarrow> string \<Rightarrow> string list" where
  "discover_targets lookupIP customConnect =
     (if customConnect \<noteq> [] then [customConnect]
      else DefaultHardcodedSeeds
        @ concat (map (\<lambda>domain. case lookupIP domain of
                                   None \<Rightarrow> []
                                 | Some ips \<Rightarrow> map (\<lambda>ip. ip @ '':19333'') ips) DnsSeedDomains))"

text \<open>The attempts in the order in which they happen, each with its time and what the dial gives; a
  failed one is only reported.\<close>

fun connect_all ::
  "(addresses option \<Rightarrow> bytes) \<Rightarrow> path option \<Rightarrow> (string \<times> int \<times> nat option) list
     \<Rightarrow> NetServer \<times> disk \<Rightarrow> (NetServer \<times> disk) outcome" where
  "connect_all encode home [] sd = Ret sd"
| "connect_all encode home ((target, now, dial) # attempts) sd =
     obind (ConnectToPeer encode home now dial target sd) (\<lambda>(_, sd1).
       connect_all encode home attempts sd1)"

section \<open>The sync engine\<close>

text \<open>\<open>Node\<close> is an empty struct: the constructor keeps nothing of its arguments, and every node has
  the zero identity, no address and port 0.\<close>

definition stub_node :: Node where
  "stub_node = \<lparr>nd_ID = replicate 32 (CHR 0x00), nd_IP = Some [], nd_TCPPort = 0\<rparr>"

definition NewNodeV4 :: "bytes option \<Rightarrow> char slice \<Rightarrow> int \<Rightarrow> int \<Rightarrow> Node" where
  "NewNodeV4 pubkey ip udpPort tcpPort = stub_node"

definition sync_private_key :: bytes where
  "sync_private_key = map (\<lambda>i. char_of (i mod 256)) [0..<4016]"

definition NewSyncEngine :: "string \<Rightarrow> StartConfig" where
  "NewSyncEngine listenPort =
     \<lparr>pc_MaxPeers = 50, pc_MaxPendingPeers = 0, pc_DialRatio = 0, pc_NoDial = False,
      pc_ListenAddr = listenPort, pc_HasPrivateKey = True, pc_StaticNodes = [], pc_TrustedNodes = [],
      pc_Protocols = [], pc_NoDiscovery = False, pc_DiscAddr = [], pc_HasLogger = False\<rparr>"

text \<open>\<open>ConnectToPeer\<close>: whether an error is returned, and what reaches the dial scheduler.\<close>

definition SyncEngine_ConnectToPeer ::
  "(string \<Rightarrow> (bytes \<times> int) option) \<Rightarrow> string \<Rightarrow> bool \<times> dial_event list" where
  "SyncEngine_ConnectToPeer resolveTCPAddr peerAddr =
     (case resolveTCPAddr peerAddr of
        None \<Rightarrow> (True, [])
      | Some (ip, port) \<Rightarrow> (False, [AddStatic (NewNodeV4 None (Some ip) port port)]))"

lemma stub_node_not_dialed: "checkDial H d stub_node \<noteq> None"
  by (simp add: checkDial_def stub_node_def)

lemma add_stub_node:
  "\<exists>d'. dial_handle H now (AddStatic stub_node) d = Ret d' \<and>
     ds_staticPool d' = ds_staticPool d \<and> ds_dialing d' = ds_dialing d \<and> ds_peers d' = ds_peers d"
  by (auto simp: dial_handle_def Let_def stub_node_not_dialed)

end
