(* ===== verification/Mining_Threads.thy ===== *)
theory Mining_Threads
  imports Ledger_Runs
begin

text \<open>
  Several goroutines mine on one ledger: the daemon's loop, the live worker, and every \<open>generate\<close>
  request. \<open>MineBlock\<close> holds the lock while it selects and while it commits, and gives it up in
  between, so a machine whose steps are those parts, with the jobs in flight as a multiset, has
  all their interleavings. The engine's target difficulty is shared without a lock: what a job
  reads back of it may be what another job has just written, so it is any number here.
  \<open>mining_step\<close> adds what goes wrong when a handler's panic is recovered: a job can be given up, and
  a selection can break off.
\<close>

section \<open>Jobs and steps\<close>

datatype mining_job =
    Selected LedgerBlock "Transfer list" u64
  | Assembled LedgerBlock u64 LedgerBlock u64
  | Mined LedgerBlock u64 LedgerBlock u64

inductive threads_step ::
  "('pub, 'priv, 'd) node_env \<Rightarrow> 'd LedgerCore \<times> mining_job multiset
     \<Rightarrow> 'd LedgerCore \<times> mining_job multiset \<Rightarrow> bool"
  for E where
  begin_block: "MineBlock_select lc = Ret (parent, txs, fees, lc1)
     \<Longrightarrow> threads_step E (lc, J) (lc1, add_mset (Selected parent txs fees) J)"
| assemble: "MineBlock_template parent txs now lc = (cur, block, lc1)
     \<Longrightarrow> threads_step E (lc, add_mset (Selected parent txs fees) J)
          (lc1, add_mset (Assembled parent cur (block\<lparr>blk_Difficulty := diff\<rparr>) fees) J)"
| search: "threads_step E (lc, add_mset (Assembled parent cur block fees) J)
     (lc, add_mset (Mined parent cur (mined_block (lc_Engine lc) block mined) fees) J)"
| commit: "MineBlock_commit E parent cur block fees lc = Ret lc1
     \<Longrightarrow> threads_step E (lc, add_mset (Mined parent cur block fees) J) (lc1, J)"
| queue: "AddToMempool E tx lc = Ret (r, lc1) \<Longrightarrow> threads_step E (lc, J) (lc1, J)"
| reload: "threads_step E (lc, J) (lc\<lparr>lc_Mempool := mempool\<rparr>, J)"

fun job_fees :: "mining_job \<Rightarrow> u64" where
  "job_fees (Selected parent txs fees) = fees"
| "job_fees (Assembled parent cur block fees) = fees"
| "job_fees (Mined parent cur block fees) = fees"

fun job_parent :: "mining_job \<Rightarrow> LedgerBlock" where
  "job_parent (Selected parent txs fees) = parent"
| "job_parent (Assembled parent cur block fees) = parent"
| "job_parent (Mined parent cur block fees) = parent"

section \<open>One thread alone\<close>

text \<open>A call of \<open>MineBlock\<close> that nothing interrupts is four steps.\<close>

lemma MineBlock_threads:
  assumes "MineBlock E now mined lc = Ret lc'"
  shows "(threads_step E)\<^sup>*\<^sup>* (lc, J) (lc', J)"
proof -
  from assms obtain parent txs fees lc1 cur block lc2
    where sel: "MineBlock_select lc = Ret (parent, txs, fees, lc1)"
      and tmp: "MineBlock_template parent txs now lc1 = (cur, block, lc2)"
      and com: "MineBlock_commit E parent cur (mined_block (lc_Engine lc2) block mined) fees lc2
                = Ret lc'"
    by (rule MineBlock_RetE)
  let ?b = "mined_block (lc_Engine lc2) block mined"
  let ?b' = "block\<lparr>blk_Difficulty := blk_Difficulty block\<rparr>"
  have "threads_step E (lc, J) (lc1, add_mset (Selected parent txs fees) J)"
    using sel by (rule threads_step.begin_block)
  moreover have "threads_step E (lc1, add_mset (Selected parent txs fees) J)
      (lc2, add_mset (Assembled parent cur ?b' fees) J)"
    using tmp by (rule threads_step.assemble)
  moreover have "threads_step E (lc2, add_mset (Assembled parent cur ?b' fees) J)
      (lc2, add_mset (Mined parent cur ?b fees) J)"
    using threads_step.search [of E lc2 parent cur block fees J mined] by simp
  moreover have "threads_step E (lc2, add_mset (Mined parent cur ?b fees) J) (lc', J)"
    using com by (rule threads_step.commit)
  ultimately show ?thesis by (meson converse_rtranclp_into_rtranclp rtranclp.rtrancl_refl)
qed

section \<open>Coins under interleaving\<close>

text \<open>In the 64-bit arithmetic of the code.\<close>

definition held :: "accounts \<Rightarrow> u64" where
  "held St = (\<Sum>a \<in> dom St. bal St a)"

definition in_flight :: "mining_job multiset \<Rightarrow> u64" where
  "in_flight J = (\<Sum>j \<in># J. job_fees j)"

definition rewards :: "LedgerBlock list \<Rightarrow> u64" where
  "rewards bs = (\<Sum>b \<leftarrow> bs. blk_Reward b)"

lemma held_superset:
  assumes "finite A" and "dom St \<subseteq> A"
  shows "held St = (\<Sum>a \<in> A. bal St a)"
  unfolding held_def
  using assms by (intro sum.mono_neutral_left) (auto simp: bal_def split: option.splits)

lemma held_upd:
  assumes "finite (dom St)" and "finite (dom St')" and "bal St' = (bal St)(a := v)"
  shows "held St' = held St - bal St a + v"
proof -
  let ?A = "insert a (dom St \<union> dom St')"
  have A: "finite ?A" "a \<in> ?A" using assms(1,2) by simp_all
  have "held St = (\<Sum>x \<in> ?A. bal St x)" "held St' = (\<Sum>x \<in> ?A. bal St' x)"
    using A(1) by (intro held_superset; auto)+
  then show ?thesis
    unfolding assms(3) using sum.remove [OF A, of "bal St"] sum.remove [OF A, of "(bal St)(a := v)"] by simp
qed

lemma held_same: "finite (dom St) \<Longrightarrow> finite (dom St') \<Longrightarrow> bal St' = bal St \<Longrightarrow> held St' = held St"
  using held_upd [of St St' undefined "bal St undefined"] by simp

lemma held_pay:
  assumes "finite (dom St)" and "finite (dom St')" and "bal St' = pay tx sender (bal St)"
    and "tx_Value tx + tx_Fee tx \<le> bal St sender"
  shows "held St' + tx_Fee tx = held St"
proof -
  let ?A = "insert sender (insert (tx_Recipient tx) (dom St \<union> dom St'))"
  let ?B1 = "(bal St)(sender := bal St sender - (tx_Value tx + tx_Fee tx))"
  let ?r = "tx_Recipient tx"
  have A: "finite ?A" "sender \<in> ?A" "?r \<in> ?A" using assms(1,2) by simp_all
  have s: "held St = (\<Sum>x \<in> ?A. bal St x)" "held St' = (\<Sum>x \<in> ?A. bal St' x)"
    using A(1) by (intro held_superset; auto)+
  have B: "bal St' = ?B1(?r := ?B1 ?r + tx_Value tx)" using assms(3,4) by (simp add: pay_def Let_def)
  have one: "(\<Sum>x \<in> ?A. ?B1 x) = (\<Sum>x \<in> ?A. bal St x) - (tx_Value tx + tx_Fee tx)"
    using sum.remove [OF A(1,2), of "bal St"] sum.remove [OF A(1,2), of ?B1] by simp
  have "(\<Sum>x \<in> ?A. (?B1(?r := ?B1 ?r + tx_Value tx)) x) = (\<Sum>x \<in> ?A. ?B1 x) + tx_Value tx"
    using sum.remove [OF A(1,3), of ?B1] sum.remove [OF A(1,3), of "?B1(?r := ?B1 ?r + tx_Value tx)"] by simp
  then show ?thesis unfolding s B one by simp
qed

lemma select_txs_held:
  assumes "select_txs txs sel = Ret sel'" and "finite (dom (sel_State sel))"
  shows "finite (dom (sel_State sel')) \<and>
    held (sel_State sel') + sel_Fees sel' = held (sel_State sel) + sel_Fees sel"
  using assms
proof (induction txs arbitrary: sel)
  case (Cons tx txs)
  from Cons.prems(1) show ?case
  proof (cases rule: select_txs_cases)
    case stop
    with Cons.prems show ?thesis by simp
  next
    case (skip sender)
    have "held (ensure_account sender (sel_State sel)) = held (sel_State sel)"
      using Cons.prems(2) by (intro held_same) simp_all
    with Cons.IH [OF skip(3)] Cons.prems show ?thesis by simp
  next
    case (take sender St n)
    have "held St + tx_Fee tx = held (sel_State sel)"
      using Cons.prems take by (intro held_pay) simp_all
    with Cons.IH [OF take(5)] Cons.prems take(4) show ?thesis by (simp add: algebra_simps)
  qed
qed simp

lemma MineBlock_select_held:
  assumes "MineBlock_select lc = Ret (parent, txs, fees, lc1)" and "finite (dom (lc_State lc))"
  shows "finite (dom (lc_State lc1)) \<and> held (lc_State lc1) + fees = held (lc_State lc)"
proof -
  let ?sel = "\<lparr>sel_State = lc_State lc, sel_Bytes = 512, sel_Fees = 0, sel_Valid = []\<rparr>"
  have "(fees = 0 \<and> lc1 = lc) \<or> (\<exists>s. select_txs (lc_Mempool lc) ?sel = Ret s
      \<and> fees = sel_Fees s \<and> lc_State lc1 = sel_State s)"
    using assms(1) by (auto simp: MineBlock_select_def Let_def obind_Ret_iff split: if_splits)
  then show ?thesis using select_txs_held [of "lc_Mempool lc" ?sel] assms(2) by auto
qed

lemma MineBlock_commit_held:
  assumes com: "MineBlock_commit E parent cur block fees lc = Ret lc1" and fin: "finite (dom (lc_State lc))"
  shows "finite (dom (lc_State lc1)) \<and>
    held (lc_State lc1) = held (lc_State lc) + (blk_Reward block + fees)"
proof -
  have "dom (lc_State lc1) \<subseteq> insert (lc_MinerAddress lc) (dom (lc_State lc))"
    using com by (auto simp: MineBlock_commit_def with_storage_def Let_def domIff update_account_def
        split: option.splits if_splits)
  then have fin1: "finite (dom (lc_State lc1))" using fin by (simp add: finite_subset)
  with held_upd [OF fin fin1 commit_bal [OF com]] show ?thesis by (simp add: algebra_simps)
qed

lemma AddToMempool_dom:
  assumes "AddToMempool E tx lc = Ret (r, lc1)" and "finite (dom (lc_State lc))"
  shows "finite (dom (lc_State lc1))"
proof -
  have "finite (dom (update_account a f St)) = finite (dom St)" for a f and St :: accounts
    by (simp add: update_account_def split: option.split)
  then show ?thesis
    using assms by (auto simp: AddToMempool_def Let_def obind_Ret_iff split: if_splits option.splits)
qed

definition coins_inv :: "u64 \<Rightarrow> 'd LedgerCore \<times> mining_job multiset \<Rightarrow> bool" where
  "coins_inv w s \<longleftrightarrow>
     finite (dom (lc_State (fst s))) \<and>
     held (lc_State (fst s)) + in_flight (snd s) = w + rewards (lc_Chain (fst s))"

lemma threads_coins_inv:
  assumes "threads_step E s t" and "coins_inv w s"
  shows "coins_inv w t"
  using assms(1)
proof (cases rule: threads_step.cases)
  case (begin_block lc parent txs fees lc1 J)
  with assms(2) MineBlock_select_held [OF begin_block(3)] select_keeps(3) [OF begin_block(3)]
  show ?thesis by (auto simp: coins_inv_def in_flight_def simp flip: add.assoc)
next
  case (assemble parent txs now lc cur block lc1 fees J diff)
  with assms(2) template_keeps [OF assemble(3)] show ?thesis by (simp add: coins_inv_def in_flight_def)
next
  case (search lc parent cur block fees J mined)
  with assms(2) show ?thesis by (simp add: coins_inv_def in_flight_def)
next
  case (commit parent cur block fees lc lc1 J)
  with assms(2) MineBlock_commit_held [OF commit(3)] commit_Ret(2) [OF commit(3)] show ?thesis
    by (auto simp: coins_inv_def in_flight_def rewards_def algebra_simps)
next
  case (queue tx lc r lc1 J)
  then have "held (lc_State lc1) = held (lc_State lc)" if "finite (dom (lc_State lc))"
    using held_same [OF that AddToMempool_dom [OF queue(3) that]] AddToMempool_bal [OF queue(3)] by simp
  with queue assms(2) AddToMempool_dom [OF queue(3)] AddToMempool_bal(2) [OF queue(3)] show ?thesis
    by (simp add: coins_inv_def)
next
  case (reload lc J mempool)
  with assms(2) show ?thesis by (simp add: coins_inv_def)
qed

lemma threads_dom:
  assumes "threads_step E s t" and "finite (dom (lc_State (fst s)))"
  shows "finite (dom (lc_State (fst t)))"
proof -
  have "coins_inv (held (lc_State (fst s)) + in_flight (snd s) - rewards (lc_Chain (fst s))) s"
    using assms(2) by (simp add: coins_inv_def)
  from threads_coins_inv [OF assms(1) this] show ?thesis by (simp add: coins_inv_def)
qed

interpretation threads_coins: machine "threads_step E" "coins_inv w" for E w
  by unfold_locales (rule threads_coins_inv)

section \<open>Coins as numbers\<close>

text \<open>As numbers nothing is lost or made either, as long as the cost of no queued transfer wraps and
  what there is fits in 64 bits.\<close>

definition costs_fit :: "'d LedgerCore \<Rightarrow> bool" where
  "costs_fit lc \<longleftrightarrow> (\<forall>tx \<in> set (lc_Mempool lc). cost_fits tx)"

definition fees_out :: "mining_job multiset \<Rightarrow> nat" where
  "fees_out J = (\<Sum>j \<in># J. unat (job_fees j))"

definition funds :: "'d LedgerCore \<times> mining_job multiset \<Rightarrow> nat" where
  "funds s = coins (lc_State (fst s)) + fees_out (snd s)"

definition fresh_selection :: "accounts \<Rightarrow> selection" where
  "fresh_selection St = \<lparr>sel_State = St, sel_Bytes = 512, sel_Fees = 0, sel_Valid = []\<rparr>"

lemma fresh_selection_sel [simp]: "sel_State (fresh_selection St) = St" "sel_Fees (fresh_selection St) = 0"
  by (simp_all add: fresh_selection_def)

lemma fees_out_simps [simp]: "fees_out {#} = 0" "fees_out (add_mset j J) = unat (job_fees j) + fees_out J"
  by (simp_all add: fees_out_def)

lemma MineBlock_select_coins:
  assumes "MineBlock_select lc = Ret (parent, txs, fees, lc1)" and "finite (dom (lc_State lc))"
    and "costs_fit lc" and "coins (lc_State lc) < 2 ^ 64"
  shows "finite (dom (lc_State lc1)) \<and> coins (lc_State lc1) + unat fees = coins (lc_State lc)"
proof -
  have "(fees = 0 \<and> lc1 = lc) \<or> (\<exists>s. select_txs (lc_Mempool lc) (fresh_selection (lc_State lc)) = Ret s
      \<and> fees = sel_Fees s \<and> lc_State lc1 = sel_State s)"
    using assms(1) by (auto simp: MineBlock_select_def fresh_selection_def Let_def obind_Ret_iff split: if_splits)
  then show ?thesis
    using select_txs_coins [of "lc_Mempool lc" "fresh_selection (lc_State lc)" _ "coins (lc_State lc)"] assms(2-4)
    by (auto simp: costs_fit_def)
qed

lemma MineBlock_commit_coins:
  assumes com: "MineBlock_commit E parent cur block fees lc = Ret lc1" and fin: "finite (dom (lc_State lc))"
    and small: "coins (lc_State lc) + unat fees + unat (blk_Reward block) < 2 ^ 64"
  shows "finite (dom (lc_State lc1)) \<and>
    coins (lc_State lc1) = coins (lc_State lc) + unat fees + unat (blk_Reward block)"
proof -
  have dom: "dom (lc_State lc1) \<subseteq> insert (lc_MinerAddress lc) (dom (lc_State lc))"
    using com by (auto simp: MineBlock_commit_def with_storage_def Let_def domIff update_account_def
        split: option.splits if_splits)
  have "unat (blk_Reward block + fees) = unat (blk_Reward block) + unat fees"
    using small by (intro unat_plus_no_wrap) simp
  with credit_coins [OF fin commit_bal [OF com] dom] small
  have "coins (lc_State lc1) = coins (lc_State lc) + unat fees + unat (blk_Reward block)" by simp
  moreover have "finite (dom (lc_State lc1))" using dom fin by (simp add: finite_subset)
  ultimately show ?thesis by blast
qed

text \<open>What a step adds to the accounts and the fees in flight is what it adds to the rewards of the chain.\<close>

lemma threads_funds:
  assumes "threads_step E s t" and "costs_fit (fst s)" and "finite (dom (lc_State (fst s)))"
    and "funds s + issued (lc_Chain (fst t)) < 2 ^ 64 + issued (lc_Chain (fst s))"
  shows "finite (dom (lc_State (fst t))) \<and>
    funds t + issued (lc_Chain (fst s)) = funds s + issued (lc_Chain (fst t))"
  using assms(1)
proof (cases rule: threads_step.cases)
  case (begin_block lc parent txs fees lc1 J)
  with assms(2-4) MineBlock_select_coins [OF begin_block(3)] select_keeps(3) [OF begin_block(3)]
  show ?thesis by (auto simp: funds_def)
next
  case (assemble parent txs now lc cur block lc1 fees J diff)
  with assms(3) template_keeps [OF assemble(3)] show ?thesis by (simp add: funds_def)
next
  case (search lc parent cur block fees J mined)
  with assms(3) show ?thesis by (simp add: funds_def)
next
  case (commit parent cur block fees lc lc1 J)
  with assms(3,4) MineBlock_commit_coins [OF commit(3)] commit_Ret(2) [OF commit(3)] show ?thesis
    by (auto simp: funds_def)
next
  case (queue tx lc r lc1 J)
  then have fin: "finite (dom (lc_State lc1))" using AddToMempool_dom [OF queue(3)] assms(3) by simp
  have "coins (lc_State lc1) = (\<Sum>a \<in> dom (lc_State lc) \<union> dom (lc_State lc1). unat (bal (lc_State lc1) a))"
    and "coins (lc_State lc) = (\<Sum>a \<in> dom (lc_State lc) \<union> dom (lc_State lc1). unat (bal (lc_State lc) a))"
    using fin assms(3) queue(1) by (intro coins_superset; simp)+
  then have "coins (lc_State lc1) = coins (lc_State lc)" using AddToMempool_bal [OF queue(3)] by simp
  with queue fin AddToMempool_bal(2) [OF queue(3)] show ?thesis by (simp add: funds_def)
next
  case (reload lc J mempool)
  with assms(3) show ?thesis by (simp add: funds_def)
qed

text \<open>The chain only grows.\<close>

lemma threads_step_grow:
  "threads_step E s t \<Longrightarrow> \<exists>bs. lc_Chain (fst t) = lc_Chain (fst s) @ bs"
  by (cases rule: threads_step.cases)
    (auto simp: select_keeps(3) template_keeps(2) commit_Ret(2) AddToMempool_bal(2))

lemma issued_append [simp]: "issued (bs @ cs) = issued bs + issued cs"
  by (simp add: issued_def)

definition funds_inv :: "nat \<Rightarrow> LedgerBlock list \<Rightarrow> 'd LedgerCore \<times> mining_job multiset \<Rightarrow> bool" where
  "funds_inv c chain s \<longleftrightarrow> finite (dom (lc_State (fst s))) \<and>
     (\<exists>bs. lc_Chain (fst s) = chain @ bs \<and> (c + issued bs < 2 ^ 64 \<longrightarrow> funds s = c + issued bs))"

lemma threads_funds_inv:
  assumes "threads_step E s t \<and> costs_fit (fst s)" and "funds_inv c chain s"
  shows "funds_inv c chain t"
proof -
  from assms(2) obtain bs where bs: "lc_Chain (fst s) = chain @ bs"
    and f: "c + issued bs < 2 ^ 64 \<longrightarrow> funds s = c + issued bs" and fin: "finite (dom (lc_State (fst s)))"
    by (auto simp: funds_inv_def)
  obtain cs where cs: "lc_Chain (fst t) = lc_Chain (fst s) @ cs" using threads_step_grow assms(1) by blast
  have "finite (dom (lc_State (fst t)))" using threads_dom [of E s t] assms(1) fin by blast
  moreover have "funds t = c + issued (bs @ cs)" if "c + issued (bs @ cs) < 2 ^ 64"
    using threads_funds [of E s t] assms(1) fin f that bs cs by simp
  ultimately show ?thesis using bs cs by (auto simp: funds_inv_def)
qed

interpretation threads_funds: machine "\<lambda>s t. threads_step E s t \<and> costs_fit (fst s)" "funds_inv c chain"
  for E c chain
  by unfold_locales (rule threads_funds_inv)

section \<open>What can go wrong\<close>

text \<open>How far a selection comes before it panics.\<close>

fun select_reached :: "Transfer list \<Rightarrow> selection \<Rightarrow> selection" where
  "select_reached [] sel = sel"
| "select_reached (tx # txs) sel =
     (case select_txs [tx] sel of Panic s \<Rightarrow> sel | Ret sel1 \<Rightarrow> select_reached txs sel1)"

lemma select_reached_coins:
  assumes "finite (dom (sel_State sel))" and "\<forall>tx \<in> set txs. cost_fits tx"
    and "coins (sel_State sel) + unat (sel_Fees sel) = c" and "c < 2 ^ 64"
  shows "finite (dom (sel_State (select_reached txs sel))) \<and>
    coins (sel_State (select_reached txs sel)) + unat (sel_Fees (select_reached txs sel)) = c"
  using assms
proof (induction txs arbitrary: sel)
  case (Cons tx txs)
  show ?case
  proof (cases "select_txs [tx] sel")
    case (Ret sel1)
    have "finite (dom (sel_State sel1)) \<and> coins (sel_State sel1) + unat (sel_Fees sel1) = c"
      using Cons.prems by (intro select_txs_coins [OF Ret]) simp_all
    with Cons Ret show ?thesis by simp
  qed (use Cons.prems in simp)
qed simp

lemma select_reached_dom:
  "finite (dom (sel_State sel)) \<Longrightarrow> finite (dom (sel_State (select_reached txs sel)))"
proof (induction txs arbitrary: sel)
  case (Cons tx txs)
  show ?case
  proof (cases "select_txs [tx] sel")
    case (Ret sel1)
    with Cons select_txs_held [OF Ret] show ?thesis by simp
  qed (use Cons.prems in simp)
qed simp

text \<open>A recovered panic abandons the job, with the fees it holds; in the middle of a selection it leaves
  the accounts as far as they were changed.\<close>

inductive mining_step ::
  "('pub, 'priv, 'd) node_env \<Rightarrow> 'd LedgerCore \<times> mining_job multiset
     \<Rightarrow> 'd LedgerCore \<times> mining_job multiset \<Rightarrow> bool"
  for E where
  goes_on: "threads_step E s t \<Longrightarrow> mining_step E s t"
| gives_up: "mining_step E (lc, add_mset j J) (lc, J)"
| breaks_off: "mining_step E (lc, J)
     (lc\<lparr>lc_State := sel_State (select_reached (lc_Mempool lc) (fresh_selection (lc_State lc)))\<rparr>, J)"

definition funds_within :: "nat \<Rightarrow> LedgerBlock list \<Rightarrow> 'd LedgerCore \<times> mining_job multiset \<Rightarrow> bool" where
  "funds_within c chain s \<longleftrightarrow> finite (dom (lc_State (fst s))) \<and>
     (\<exists>bs. lc_Chain (fst s) = chain @ bs \<and> (c + issued bs < 2 ^ 64 \<longrightarrow> funds s \<le> c + issued bs))"

lemma mining_funds_within:
  assumes "mining_step E s t \<and> costs_fit (fst s)" and "funds_within c chain s"
  shows "funds_within c chain t"
proof -
  from assms(2) obtain bs where fin: "finite (dom (lc_State (fst s)))" and bs: "lc_Chain (fst s) = chain @ bs"
    and f: "c + issued bs < 2 ^ 64 \<Longrightarrow> funds s \<le> c + issued bs"
    by (auto simp: funds_within_def)
  from assms(1) have "mining_step E s t" by simp
  then show ?thesis
  proof cases
    case goes_on
    obtain cs where cs: "lc_Chain (fst t) = lc_Chain (fst s) @ cs" using threads_step_grow goes_on by blast
    have "funds t \<le> c + issued (bs @ cs)" if "c + issued (bs @ cs) < 2 ^ 64"
      using threads_funds [OF goes_on conjunct2 [OF assms(1)] fin] f that bs cs by simp
    then show ?thesis using threads_dom [OF goes_on fin] bs cs by (auto simp: funds_within_def)
  next
    case (gives_up lc j J)
    with fin bs f show ?thesis by (auto simp: funds_within_def funds_def)
  next
    case (breaks_off lc J)
    have "coins (lc_State (fst t)) \<le> coins (lc_State lc)" if "coins (lc_State lc) < 2 ^ 64"
      using select_reached_coins [of "fresh_selection (lc_State lc)" "lc_Mempool lc" "coins (lc_State lc)"]
        breaks_off fin assms(1) that by (simp add: costs_fit_def)
    with breaks_off fin bs f show ?thesis
      by (auto simp: funds_within_def funds_def intro!: select_reached_dom)
  qed
qed

interpretation mining_funds: machine "\<lambda>s t. mining_step E s t \<and> costs_fit (fst s)" "funds_within c chain"
  for E c chain
  by unfold_locales (rule mining_funds_within)

section \<open>The shape that is left\<close>

text \<open>Blocks no longer follow the one before them, but the validator has accepted each after an earlier
  one.\<close>

definition accepted_after :: "LedgerBlock \<Rightarrow> LedgerBlock \<Rightarrow> bool" where
  "accepted_after parent b \<longleftrightarrow> (\<exists>supply. ValidateBlockConsensus b (Some parent) supply = None)"

definition rooted :: "LedgerBlock list \<Rightarrow> bool" where
  "rooted bs \<longleftrightarrow> bs \<noteq> [] \<and> (\<forall>i < length bs. 0 < i \<longrightarrow> (\<exists>j < i. accepted_after (bs ! j) (bs ! i)))"

lemma rooted_append:
  assumes "rooted bs" and "parent \<in> set bs" and "accepted_after parent b"
  shows "rooted (bs @ [b])"
proof -
  obtain j where "j < length bs" "bs ! j = parent" using assms(2) by (auto simp: in_set_conv_nth)
  with assms(1,3) show ?thesis by (auto simp: rooted_def nth_append less_Suc_eq) (metis order.strict_trans)
qed

definition rooted_inv :: "LedgerBlock list \<Rightarrow> 'd LedgerCore \<times> mining_job multiset \<Rightarrow> bool" where
  "rooted_inv chain s \<longleftrightarrow> (\<exists>bs. lc_Chain (fst s) = chain @ bs) \<and>
     rooted (lc_Chain (fst s)) \<and> (\<forall>j \<in># snd s. job_parent j \<in> set (lc_Chain (fst s)))"

lemma threads_rooted_inv:
  assumes "threads_step E s t" and "rooted_inv chain s"
  shows "rooted_inv chain t"
proof -
  have "\<exists>bs. lc_Chain (fst t) = chain @ bs"
    using threads_step_grow [OF assms(1)] assms(2) by (auto simp: rooted_inv_def)
  moreover from assms(1) have "rooted (lc_Chain (fst t)) \<and> (\<forall>j \<in># snd t. job_parent j \<in> set (lc_Chain (fst t)))"
  proof (cases rule: threads_step.cases)
    case (begin_block lc parent txs fees lc1 J)
    with assms(2) select_keeps(1-3) [OF begin_block(3)] show ?thesis by (auto simp: rooted_inv_def)
  next
    case (assemble parent txs now lc cur block lc1 fees J diff)
    with assms(2) template_keeps(2) [OF assemble(3)] show ?thesis by (auto simp: rooted_inv_def)
  next
    case (search lc parent cur block fees J mined)
    with assms(2) show ?thesis by (auto simp: rooted_inv_def)
  next
    case (commit parent cur block fees lc lc1 J)
    have "accepted_after parent block" using commit_Ret(1) [OF commit(3)] by (auto simp: accepted_after_def)
    with commit assms(2) commit_Ret(2) [OF commit(3)] show ?thesis
      by (auto simp: rooted_inv_def intro: rooted_append)
  next
    case (queue tx lc r lc1 J)
    with assms(2) AddToMempool_bal(2) [OF queue(3)] show ?thesis by (auto simp: rooted_inv_def)
  next
    case (reload lc J mempool)
    with assms(2) show ?thesis by (auto simp: rooted_inv_def)
  qed
  ultimately show ?thesis by (simp add: rooted_inv_def)
qed

lemma mining_rooted_inv:
  assumes "mining_step E s t" and "rooted_inv chain s"
  shows "rooted_inv chain t"
  using assms(1)
proof cases
  case goes_on
  then show ?thesis using assms(2) by (rule threads_rooted_inv)
qed (use assms(2) in \<open>auto simp: rooted_inv_def\<close>)

interpretation mining_chain: machine "mining_step E" "rooted_inv chain" for E chain
  by unfold_locales (rule mining_rooted_inv)

end
