(* ===== verification/Daemon_Runs.thy ===== *)
theory Daemon_Runs
  imports Commands Ledger_Restart Bootstrap Mining_Threads
begin

text \<open>
  The daemon as a machine over its ledger and the disk it shares with the command line. Its goroutines
  run at once: the loop that mines, a handler for every request that mines (with any header and
  body), the exporter, and other processes, which may write what they like to the disk (the store is
  locked by the process that has it open). The lock of the ledger is taken where the code takes it, a
  handler that panics is recovered, and what is left of it stays. Seen from the ledger the machine
  implements that of \<open>Mining_Threads\<close>.
\<close>

section \<open>Start-up\<close>

text \<open>What comes of \<open>RunNodeDaemonWithSync\<close>: the ledger and the RPC server are up before the sync engine
  starts, and the daemon's loops begin only after it has. Once they do, the peer to connect to,
  if there is one, goes to the engine.\<close>

datatype 'd daemon_fate =
    DaemonReturned start_error
  | DaemonHangs
  | DaemonCrashed string
  | DaemonRuns Config "'d LedgerCore" disk "string option"

definition daemon_main ::
  "('pub, 'priv, 'd) cli_env \<Rightarrow> start_env \<Rightarrow> bytes \<Rightarrow> i64 \<Rightarrow> string \<Rightarrow> string \<Rightarrow> disk \<Rightarrow> 'd daemon_fate outcome"
where
  "daemon_main C env rnd now port connectPeer d =
     obind (daemon_start C rnd now port d) (\<lambda>(serverPort, rpcPort, cfg, lc, d1).
       Ret (case start_up env False (NewSyncEngine serverPort) of
              Went (Some err, _) \<Rightarrow> DaemonReturned err
            | Waits \<Rightarrow> DaemonHangs
            | Crashes s \<Rightarrow> DaemonCrashed s
            | Went (None, _) \<Rightarrow>
                DaemonRuns cfg lc d1 (if connectPeer \<noteq> [] then Some connectPeer else None)))"

section \<open>The running daemon\<close>

text \<open>Its goroutines are the miner's loop (\<open>Idle\<close>, \<open>Loaded\<close> with the queue it has read, \<open>Saving\<close>) and a
  handler for each \<open>generate\<close> request (\<open>Rounds\<close>, with the blocks left to mine). Both call \<open>MineBlock\<close>,
  which is \<open>Called\<close> until it has selected and then holds a job; a request knows how many rounds follow
  this one. What the other requests do is one step, as only the disk sees it.\<close>

datatype caller = Miner | Request nat

datatype goroutine =
    Idle
  | Loaded "Transfer option list"
  | Saving
  | Rounds nat
  | Called caller
  | Mining caller mining_job

fun returned :: "caller \<Rightarrow> goroutine" where
  "returned Miner = Saving"
| "returned (Request k) = Rounds k"

text \<open>\<open>dm_Wedged\<close>: the lock is held by a goroutine that is gone.\<close>

record 'd daemon =
  dm_Ledger :: "'d LedgerCore"
  dm_Disk :: disk
  dm_Threads :: "goroutine multiset"
  dm_Wedged :: bool

definition daemon_up :: "'d LedgerCore \<Rightarrow> disk \<Rightarrow> 'd daemon" where
  "daemon_up lc d = \<lparr>dm_Ledger = lc, dm_Disk = d, dm_Threads = {#Idle#}, dm_Wedged = False\<rparr>"

abbreviation daemon_node :: "('pub, 'priv, 'd) cli_env \<Rightarrow> ('pub, 'priv, 'd) node_env" where
  "daemon_node C \<equiv> re_node (ce_rpc C)"

text \<open>A request that starts to mine, and one that does not.\<close>

definition starts_mining ::
  "(float64 \<Rightarrow> i64) \<Rightarrow> Config option \<Rightarrow> string option \<Rightarrow> string \<Rightarrow> bytes \<Rightarrow> nat option" where
  "starts_mining conv cfg header httpMethod body =
     (if authorized cfg header \<and> httpMethod = ''POST'' then
        (case UnmarshalRequest conv body of
           None \<Rightarrow> None
         | Some req \<Rightarrow>
             if rq_Method req = ''generate'' then Some (nat (generate_count (rq_Params req))) else None)
      else None)"

definition miner_prefix_ok :: "'d LedgerCore \<Rightarrow> bool" where
  "miner_prefix_ok lc \<longleftrightarrow>
     lc_MinerAddress lc = ''SYSTEM_GENESIS'' \<or> HasPrefix (lc_MinerAddress lc) (cp_AddressPrefix DefaultConsensus)"

text \<open>A panic of the miner's loop ends the process, so it is no step. \<open>net/http\<close> recovers one in a handler:
  the goroutine is gone and the daemon goes on. If it happens in a selection the lock stays held, as
  nothing defers its release; a panic at the address prefix or at the validation comes outside the lock.
  A nil transfer that the miner's loop has put into the queue is one a handler may come upon first. The
  chain of a daemon that has started is not empty and its store is open, so nothing else panics under
  the lock.\<close>

inductive daemon_step ::
  "(float64 \<Rightarrow> i64) \<Rightarrow> ('pub, 'priv, 'd) cli_env \<Rightarrow> Config option \<Rightarrow> 'd daemon \<Rightarrow> 'd daemon \<Rightarrow> bool"
  for conv C cfg where
  loads: "dm_Threads s = add_mset Idle T \<Longrightarrow> q = elems (LoadMempoolFromDisk (ce_home C) (dm_Disk s)) \<Longrightarrow> q \<noteq> [] \<Longrightarrow>
     daemon_step conv C cfg s (s\<lparr>dm_Threads := add_mset (Loaded q) T\<rparr>)"
| takes_over: "\<not> dm_Wedged s \<Longrightarrow> dm_Threads s = add_mset (Loaded (map Some txs)) T \<Longrightarrow>
     daemon_step conv C cfg s (s\<lparr>dm_Ledger := (dm_Ledger s)\<lparr>lc_Mempool := txs\<rparr>, dm_Threads := add_mset (Called Miner) T\<rparr>)"
| request: "starts_mining conv cfg header httpMethod body = Some n \<Longrightarrow>
     daemon_step conv C cfg s (s\<lparr>dm_Threads := add_mset (Rounds n) (dm_Threads s)\<rparr>)"
| calls: "dm_Threads s = add_mset (Rounds (Suc k)) T \<Longrightarrow>
     daemon_step conv C cfg s (s\<lparr>dm_Threads := add_mset (Called (Request k)) T\<rparr>)"
| selects: "\<not> dm_Wedged s \<Longrightarrow> dm_Threads s = add_mset (Called w) T \<Longrightarrow>
     MineBlock_select (dm_Ledger s) = Ret (parent, txs, fees, lc) \<Longrightarrow>
     daemon_step conv C cfg s
       (s\<lparr>dm_Ledger := lc, dm_Threads := add_mset (Mining w (Selected parent txs fees)) T\<rparr>)"
| assembles: "dm_Threads s = add_mset (Mining w (Selected parent txs fees)) T \<Longrightarrow>
     MineBlock_template parent txs now (dm_Ledger s) = (cur, block, lc) \<Longrightarrow>
     daemon_step conv C cfg s (s\<lparr>dm_Ledger := lc,
       dm_Threads := add_mset (Mining w (Assembled parent cur (block\<lparr>blk_Difficulty := diff\<rparr>) fees)) T\<rparr>)"
| searches: "dm_Threads s = add_mset (Mining w (Assembled parent cur block fees)) T \<Longrightarrow>
     daemon_step conv C cfg s (s\<lparr>dm_Threads :=
       add_mset (Mining w (Mined parent cur (mined_block (lc_Engine (dm_Ledger s)) block mined) fees)) T\<rparr>)"
| commits: "\<not> dm_Wedged s \<Longrightarrow> dm_Threads s = add_mset (Mining w (Mined parent cur block fees)) T \<Longrightarrow>
     MineBlock_commit (daemon_node C) parent cur block fees (dm_Ledger s) = Ret lc \<Longrightarrow>
     daemon_step conv C cfg s (s\<lparr>dm_Ledger := lc, dm_Threads := add_mset (returned w) T\<rparr>)"
| miner_saves: "dm_Threads s = add_mset Saving T \<Longrightarrow>
     daemon_step conv C cfg s
       (s\<lparr>dm_Disk := SaveMempoolToDisk (ce_home C) (Some []) (dm_Disk s), dm_Threads := add_mset Idle T\<rparr>)"
| request_ends: "dm_Threads s = add_mset (Rounds 0) T \<Longrightarrow>
     daemon_step conv C cfg s
       (s\<lparr>dm_Disk := SaveMempoolToDisk (ce_home C) (Some []) (dm_Disk s), dm_Threads := T\<rparr>)"
| refused: "\<not> miner_prefix_ok (dm_Ledger s) \<Longrightarrow> dm_Threads s = add_mset (Called (Request k)) T \<Longrightarrow>
     daemon_step conv C cfg s (s\<lparr>dm_Threads := T\<rparr>)"
| wedges: "\<not> dm_Wedged s \<Longrightarrow> miner_prefix_ok (dm_Ledger s) \<Longrightarrow> dm_Threads s = add_mset (Called (Request k)) T \<Longrightarrow>
     MineBlock_select (dm_Ledger s) = Panic msg \<Longrightarrow>
     daemon_step conv C cfg s
       (s\<lparr>dm_Ledger := (dm_Ledger s)\<lparr>lc_State := sel_State (select_reached (lc_Mempool (dm_Ledger s))
            (fresh_selection (lc_State (dm_Ledger s))))\<rparr>, dm_Threads := T, dm_Wedged := True\<rparr>)"
| wedges_at_nil: "\<not> dm_Wedged s \<Longrightarrow> miner_prefix_ok (dm_Ledger s) \<Longrightarrow>
     dm_Threads s = add_mset (Loaded (map Some txs @ None # q)) (add_mset (Called (Request k)) T) \<Longrightarrow>
     daemon_step conv C cfg s
       (s\<lparr>dm_Ledger := (dm_Ledger s)\<lparr>lc_Mempool := txs,
            lc_State := sel_State (select_reached txs (fresh_selection (lc_State (dm_Ledger s))))\<rparr>,
          dm_Threads := add_mset (Called Miner) T, dm_Wedged := True\<rparr>)"
| fails: "dm_Threads s = add_mset (Mining (Request k) (Mined parent cur block fees)) T \<Longrightarrow>
     ValidateBlockConsensus block (Some parent) cur = Some err \<Longrightarrow>
     daemon_step conv C cfg s (s\<lparr>dm_Threads := T\<rparr>)"
| other_request: "starts_mining conv cfg header httpMethod body = None \<Longrightarrow>
     rpc_serve conv ((ce_rpc C)\<lparr>re_now := now\<rparr>) cfg header httpMethod body (dm_Ledger s, dm_Disk s)
       = Ret (reply, (lc, d), stop) \<Longrightarrow>
     daemon_step conv C cfg s (s\<lparr>dm_Ledger := lc, dm_Disk := d\<rparr>)"
| exports: "daemon_step conv C cfg s (s\<lparr>dm_Disk := daemon_export C port updated (dm_Disk s)\<rparr>)"
| other_process: "daemon_step conv C cfg s (s\<lparr>dm_Disk := d\<rparr>)"

section \<open>What the daemon implements\<close>

text \<open>Seen from the ledger the goroutines are the jobs they hold.\<close>

fun job_of :: "goroutine \<Rightarrow> mining_job multiset" where
  "job_of (Mining w j) = {#j#}"
| "job_of _ = {#}"

definition jobs :: "goroutine multiset \<Rightarrow> mining_job multiset" where
  "jobs T = (\<Sum>t \<in># T. job_of t)"

lemma jobs_add [simp]: "jobs (add_mset t T) = job_of t + jobs T" "jobs {#} = {#}"
  by (simp_all add: jobs_def)

lemma job_of_returned [simp]: "job_of (returned w) = {#}"
  by (cases w) simp_all

definition mining_view :: "'d daemon \<Rightarrow> 'd LedgerCore \<times> mining_job multiset" where
  "mining_view s = (dm_Ledger s, jobs (dm_Threads s))"

lemma rpc_dispatch_ledger:
  assumes "rpc_dispatch R method params nd = Ret (r, e, nd', stop)" and "method \<noteq> ''generate''"
  shows "fst nd' = fst nd"
  using assms by (auto simp: rpc_dispatch_def Let_def obind_Ret_iff split: if_splits)

lemma other_request_ledger:
  assumes "rpc_serve conv R cfg header httpMethod body nd = Ret (reply, nd', stop)"
    and "starts_mining conv cfg header httpMethod body = None"
  shows "fst nd' = fst nd"
  using assms
  by (auto simp: rpc_serve_def rpc_handle_def starts_mining_def obind_Ret_iff
      dest: rpc_dispatch_ledger split: if_splits option.splits)

text \<open>Every queue that is in the node's hands has costs that fit in 64 bits.\<close>

definition queues_fit :: "'d daemon \<Rightarrow> bool" where
  "queues_fit s \<longleftrightarrow> costs_fit (dm_Ledger s) \<and>
     (\<forall>q tx. Loaded q \<in># dm_Threads s \<longrightarrow> Some tx \<in> set q \<longrightarrow> cost_fits tx)"

lemma daemon_simulates:
  assumes "daemon_step conv C cfg s t"
  shows "(mining_step (daemon_node C))\<^sup>*\<^sup>* (mining_view s) (mining_view t) \<and>
    (queues_fit s \<longrightarrow>
      (\<lambda>u v. mining_step (daemon_node C) u v \<and> costs_fit (fst u))\<^sup>*\<^sup>* (mining_view s) (mining_view t))"
  (is "?run (mining_step _) \<and> (_ \<longrightarrow> ?run ?fitting)")
proof -
  have skip: ?thesis if "mining_view t = mining_view s" using that by simp
  have one: ?thesis if "mining_step (daemon_node C) (mining_view s) (mining_view t)"
    using that by (auto simp: mining_view_def queues_fit_def)
  note step = mining_step.goes_on [of "daemon_node C"]
  from assms show ?thesis
  proof cases
    case (takes_over txs T)
    then show ?thesis using step [OF threads_step.reload] by (intro one) (simp add: mining_view_def)
  next
    case (selects w T parent txs fees lc)
    then show ?thesis using step [OF threads_step.begin_block] by (intro one) (simp add: mining_view_def)
  next
    case (assembles w parent txs fees T now cur block lc diff)
    then show ?thesis using step [OF threads_step.assemble] by (intro one) (simp add: mining_view_def)
  next
    case (searches w parent cur block fees T mined)
    then show ?thesis using step [OF threads_step.search] by (intro one) (simp add: mining_view_def)
  next
    case (commits w parent cur block fees T lc)
    then show ?thesis using step [OF threads_step.commit] by (intro one) (simp add: mining_view_def)
  next
    case (wedges k T msg)
    then show ?thesis using mining_step.breaks_off by (intro one) (simp add: mining_view_def)
  next
    case (wedges_at_nil txs q k T)
    define mid where "mid = ((dm_Ledger s)\<lparr>lc_Mempool := txs\<rparr>, jobs (dm_Threads s))"
    have to: "mining_step (daemon_node C) (mining_view s) mid"
      unfolding mining_view_def mid_def by (rule step [OF threads_step.reload])
    have from_mid: "mining_step (daemon_node C) mid (mining_view t)"
      using wedges_at_nil mining_step.breaks_off [of "daemon_node C" "fst mid" "snd mid"]
      by (simp add: mining_view_def mid_def)
    have "costs_fit (fst mid)" "costs_fit (fst (mining_view s))" if "queues_fit s"
      using that wedges_at_nil(4) by (auto simp: queues_fit_def costs_fit_def mining_view_def mid_def)
    with to from_mid have "?run ?fitting" if "queues_fit s"
      using that by (intro rtranclp.rtrancl_into_rtrancl [OF r_into_rtranclp, of ?fitting _ mid]) simp_all
    moreover have "?run (mining_step (daemon_node C))"
      using to from_mid by (rule rtranclp.rtrancl_into_rtrancl [OF r_into_rtranclp])
    ultimately show ?thesis by blast
  next
    case (fails k parent cur block fees T err)
    then show ?thesis using mining_step.gives_up by (intro one) (simp add: mining_view_def)
  next
    case (other_request header httpMethod body now reply lc d stop)
    then show ?thesis using other_request_ledger by (intro skip) (fastforce simp: mining_view_def)
  qed (auto intro!: skip simp: mining_view_def)
qed

interpretation daemon_chain: implementation "daemon_step conv C cfg" "mining_step (daemon_node C)"
    mining_view "rooted_inv chain" for conv C cfg chain
  by unfold_locales (use daemon_simulates in blast)

interpretation daemon_funds: implementation "\<lambda>s t. daemon_step conv C cfg s t \<and> queues_fit s"
    "\<lambda>u v. mining_step (daemon_node C) u v \<and> costs_fit (fst u)" mining_view "funds_within c chain" for conv C cfg c chain
  by unfold_locales (use daemon_simulates in blast)

section \<open>A goroutine that nothing interrupts\<close>

text \<open>Only reading the queue file brings costs into the node.\<close>

lemma select_mempool: "MineBlock_select lc = Ret (parent, txs, fees, lc1) \<Longrightarrow> set (lc_Mempool lc1) \<subseteq> set (lc_Mempool lc)"
  by (auto simp: MineBlock_select_def Let_def obind_Ret_iff dest: in_set_dropD split: if_splits)

lemma commit_mempool: "MineBlock_commit E parent cur block fees lc = Ret lc1 \<Longrightarrow> lc_Mempool lc1 = lc_Mempool lc"
  by (auto simp: MineBlock_commit_def with_storage_def Let_def split: option.splits if_splits)

lemma queues_fit_keeps:
  assumes "daemon_step conv C cfg s t" and "queues_fit s"
    and "\<forall>q. Loaded q \<in># dm_Threads t \<longrightarrow> Loaded q \<in># dm_Threads s"
  shows "queues_fit t"
proof -
  have old: "costs_fit (dm_Ledger s)" using assms(2) by (simp add: queues_fit_def)
  have loaded: "cost_fits tx" if "Loaded q \<in># dm_Threads s" "Some tx \<in> set q" for q tx
    using assms(2) that by (simp add: queues_fit_def)
  from assms(1) have "costs_fit (dm_Ledger t)"
  proof cases
    case (takes_over txs T)
    then show ?thesis using loaded [of "map Some txs"] by (simp add: costs_fit_def)
  next
    case (selects w T parent txs fees lc)
    then show ?thesis using old select_mempool [OF selects(4)] by (auto simp: costs_fit_def)
  next
    case (assembles w parent txs fees T now cur block lc diff)
    then show ?thesis using old by (auto simp: costs_fit_def MineBlock_template_def Let_def)
  next
    case (commits w parent cur block fees T lc)
    then show ?thesis using old commit_mempool [OF commits(4)] by (simp add: costs_fit_def)
  next
    case (wedges_at_nil txs q k T)
    then show ?thesis using loaded [of "map Some txs @ None # q"] by (simp add: costs_fit_def)
  next
    case (other_request header httpMethod body now reply lc d stop)
    then show ?thesis using old other_request_ledger by fastforce
  qed (use old in \<open>simp_all add: costs_fit_def\<close>)
  then show ?thesis using loaded assms(3) by (auto simp: queues_fit_def)
qed

text \<open>Alone, the miner's loop does what \<open>daemon_tick\<close> says, and a request what \<open>rpc_generate\<close> says. With
  \<open>fit\<close> the runs are of states whose queues fit.\<close>

abbreviation daemon_run ::
  "bool \<Rightarrow> (float64 \<Rightarrow> i64) \<Rightarrow> ('pub, 'priv, 'd) cli_env \<Rightarrow> Config option \<Rightarrow> 'd daemon \<Rightarrow> 'd daemon \<Rightarrow> bool"
where
  "daemon_run fit conv C cfg \<equiv> (\<lambda>s t. daemon_step conv C cfg s t \<and> (fit \<longrightarrow> queues_fit s))\<^sup>*\<^sup>*"

lemma daemon_run_step:
  assumes "daemon_step conv C cfg s t" and "fit \<longrightarrow> queues_fit s" and "daemon_run fit conv C cfg t u"
  shows "daemon_run fit conv C cfg s u"
  using assms by (simp add: converse_rtranclp_into_rtranclp)

lemma daemon_run_plain: "daemon_run fit conv C cfg s t \<Longrightarrow> (daemon_step conv C cfg)\<^sup>*\<^sup>* s t"
  by (rule rtranclp_mono [THEN predicate2D]) auto

lemma uninterrupted_block:
  assumes mine: "MineBlock (daemon_node C) now mined (dm_Ledger s) = Ret lc'" and free: "\<not> dm_Wedged s"
    and T: "dm_Threads s = add_mset (Called w) T" and fit: "fit \<longrightarrow> queues_fit s"
  shows "daemon_run fit conv C cfg s (s\<lparr>dm_Ledger := lc', dm_Threads := add_mset (returned w) T\<rparr>) \<and>
    (fit \<longrightarrow> queues_fit (s\<lparr>dm_Ledger := lc', dm_Threads := add_mset (returned w) T\<rparr>))"
proof -
  from mine obtain parent txs fees lc1 cur block lc2
    where sel: "MineBlock_select (dm_Ledger s) = Ret (parent, txs, fees, lc1)"
      and tmp: "MineBlock_template parent txs now lc1 = (cur, block, lc2)"
      and com: "MineBlock_commit (daemon_node C) parent cur (mined_block (lc_Engine lc2) block mined) fees lc2
                = Ret lc'"
    by (rule MineBlock_RetE)
  define s1 where "s1 = s\<lparr>dm_Ledger := lc1, dm_Threads := add_mset (Mining w (Selected parent txs fees)) T\<rparr>"
  define s2 where "s2 = s1\<lparr>dm_Ledger := lc2, dm_Threads := add_mset (Mining w (Assembled parent cur
    (block\<lparr>blk_Difficulty := blk_Difficulty block\<rparr>) fees)) T\<rparr>"
  define s3 where "s3 = s2\<lparr>dm_Threads :=
    add_mset (Mining w (Mined parent cur (mined_block (lc_Engine lc2) block mined) fees)) T\<rparr>"
  define s4 where "s4 = s3\<lparr>dm_Ledger := lc', dm_Threads := add_mset (returned w) T\<rparr>"
  have 1: "daemon_step conv C cfg s s1" unfolding s1_def using free T sel by (rule daemon_step.selects)
  have 2: "daemon_step conv C cfg s1 s2"
    unfolding s2_def by (rule daemon_step.assembles) (use tmp in \<open>simp_all add: s1_def\<close>)
  have 3: "daemon_step conv C cfg s2 s3"
    using daemon_step.searches [of s2 w parent cur block fees T conv C cfg mined] by (simp add: s2_def s3_def)
  have 4: "daemon_step conv C cfg s3 s4"
    unfolding s4_def by (rule daemon_step.commits) (use com free in \<open>simp_all add: s1_def s2_def s3_def\<close>)
  have "Loaded q \<noteq> returned w" for q by (cases w) simp_all
  then have fits: "fit \<longrightarrow> queues_fit s1" "fit \<longrightarrow> queues_fit s2" "fit \<longrightarrow> queues_fit s3" "fit \<longrightarrow> queues_fit s4"
    using queues_fit_keeps [OF 1] queues_fit_keeps [OF 2] queues_fit_keeps [OF 3] queues_fit_keeps [OF 4] fit T
    by (auto simp: s1_def s2_def s3_def s4_def)
  have "daemon_run fit conv C cfg s s4"
    by (rule daemon_run_step [OF 1 fit], rule daemon_run_step [OF 2 fits(1)], rule daemon_run_step [OF 3 fits(2)],
        rule daemon_run_step [OF 4 fits(3)]) simp
  with fits(4) show ?thesis by (simp add: s1_def s2_def s3_def s4_def)
qed

lemma uninterrupted_rounds:
  assumes "mine_rounds ((ce_rpc C)\<lparr>re_rounds := rounds\<rparr>) n i (dm_Ledger s) = Ret lc'" and "\<not> dm_Wedged s"
    and "dm_Threads s = add_mset (Rounds n) T" and "fit \<longrightarrow> queues_fit s"
  shows "daemon_run fit conv C cfg s (s\<lparr>dm_Ledger := lc', dm_Threads := add_mset (Rounds 0) T\<rparr>) \<and>
    (fit \<longrightarrow> queues_fit (s\<lparr>dm_Ledger := lc', dm_Threads := add_mset (Rounds 0) T\<rparr>))"
  using assms
proof (induction n arbitrary: i s)
  case (Suc n)
  from Suc.prems(1) obtain lc1 where
    mine: "MineBlock (daemon_node C) (fst (rounds i)) (snd (rounds i)) (dm_Ledger s) = Ret lc1"
    and rest: "mine_rounds ((ce_rpc C)\<lparr>re_rounds := rounds\<rparr>) n (i + 1) lc1 = Ret lc'"
    by (auto elim: obind_RetE)
  define s1 where "s1 = s\<lparr>dm_Threads := add_mset (Called (Request n)) T\<rparr>"
  define s2 where "s2 = s1\<lparr>dm_Ledger := lc1, dm_Threads := add_mset (Rounds n) T\<rparr>"
  have 1: "daemon_step conv C cfg s s1" unfolding s1_def using Suc.prems(3) by (rule daemon_step.calls)
  have fit1: "fit \<longrightarrow> queues_fit s1" using queues_fit_keeps [OF 1] Suc.prems(3,4) by (simp add: s1_def)
  have 2: "daemon_run fit conv C cfg s1 s2" "fit \<longrightarrow> queues_fit s2"
    using uninterrupted_block [of C _ _ s1 lc1 "Request n" T fit] mine Suc.prems(2) fit1
    by (simp_all add: s1_def s2_def)
  have 3: "daemon_run fit conv C cfg s2 (s2\<lparr>dm_Ledger := lc', dm_Threads := add_mset (Rounds 0) T\<rparr>) \<and>
      (fit \<longrightarrow> queues_fit (s2\<lparr>dm_Ledger := lc', dm_Threads := add_mset (Rounds 0) T\<rparr>))"
    using rest Suc.prems(2) 2(2) by (intro Suc.IH) (simp_all add: s1_def s2_def)
  from daemon_run_step [OF 1 Suc.prems(4) rtranclp_trans [OF 2(1) conjunct1 [OF 3]]] conjunct2 [OF 3] show ?case
    by (simp add: s1_def s2_def)
next
  case 0
  then have "s\<lparr>dm_Ledger := lc', dm_Threads := add_mset (Rounds 0) T\<rparr> = s" by simp
  with 0 show ?case by (metis rtranclp.rtrancl_refl)
qed

theorem uninterrupted_turn:
  assumes "daemon_tick C now mined (lc, d) = Ret (lc', d')"
  shows "(daemon_step conv C cfg)\<^sup>*\<^sup>* (daemon_up lc d) (daemon_up lc' d')"
proof -
  let ?q = "LoadMempoolFromDisk (ce_home C) d"
  from assms obtain disk where disk: "pointers ?q = Ret disk" by (auto simp: daemon_tick_def elim: obind_RetE)
  then have q: "elems ?q = map Some (elems disk)"
    by (cases ?q) (auto simp: pointers_def comp_def intro!: map_idI [symmetric] split: if_splits, metis option.collapse)
  show ?thesis
  proof (cases "elems disk = []")
    case True
    with assms disk show ?thesis by (simp add: daemon_tick_def)
  next
    case False
    define lc1 where "lc1 = lc\<lparr>lc_Mempool := elems disk\<rparr>"
    from assms disk False have mine: "MineBlock (daemon_node C) now mined lc1 = Ret lc'"
      and d': "d' = SaveMempoolToDisk (ce_home C) (Some []) d"
      by (auto simp: daemon_tick_def lc1_def obind_Ret_iff)
    let ?s = "\<lambda>lc t. (daemon_up lc d)\<lparr>dm_Threads := {#t#}\<rparr>"
    have "daemon_step conv C cfg (daemon_up lc d) (?s lc (Loaded (map Some (elems disk))))"
      using False by (intro daemon_step.loads [where T = "{#}"]) (simp_all add: daemon_up_def q)
    moreover have "daemon_step conv C cfg (?s lc (Loaded (map Some (elems disk)))) (?s lc1 (Called Miner))"
      using daemon_step.takes_over [of "?s lc (Loaded (map Some (elems disk)))" "elems disk" "{#}"]
      by (simp add: daemon_up_def lc1_def)
    moreover have "(daemon_step conv C cfg)\<^sup>*\<^sup>* (?s lc1 (Called Miner)) (?s lc' Saving)"
      using daemon_run_plain [OF conjunct1 [OF uninterrupted_block [of C now mined "?s lc1 (Called Miner)" lc' Miner "{#}" False]]] mine
      by (simp add: daemon_up_def)
    moreover have "daemon_step conv C cfg (?s lc' Saving) (daemon_up lc' d')"
      using daemon_step.miner_saves [of "?s lc' Saving" "{#}"] by (simp add: daemon_up_def d')
    ultimately show ?thesis
      by (meson converse_rtranclp_into_rtranclp rtranclp_trans rtranclp.rtrancl_into_rtrancl)
  qed
qed

theorem uninterrupted_request:
  assumes auth: "authorized cfg header" and post: "httpMethod = ''POST''"
    and req: "UnmarshalRequest conv body = Some req" "rq_Method req = ''generate''"
    and gen: "rpc_generate ((ce_rpc C)\<lparr>re_rounds := rounds\<rparr>) (rq_Params req) (lc, d) = Ret (r, lc', d')"
    and fit: "fit \<longrightarrow> costs_fit lc"
  shows "daemon_run fit conv C cfg (daemon_up lc d) (daemon_up lc' d')"
proof -
  let ?n = "nat (generate_count (rq_Params req))"
  let ?s = "\<lambda>lc n. (daemon_up lc d)\<lparr>dm_Threads := {#Rounds n, Idle#}\<rparr>"
  from gen have rounds: "mine_rounds ((ce_rpc C)\<lparr>re_rounds := rounds\<rparr>) ?n 0 lc = Ret lc'"
    and d': "d' = SaveMempoolToDisk (ce_home C) (Some []) d"
    by (auto simp: rpc_generate_def obind_Ret_iff Let_def ce_home_def)
  have "starts_mining conv cfg header httpMethod body = Some ?n" using auth post req by (simp add: starts_mining_def)
  from daemon_step.request [OF this, of C "daemon_up lc d"]
  have 1: "daemon_step conv C cfg (daemon_up lc d) (?s lc ?n)" by (simp add: daemon_up_def)
  have fit0: "fit \<longrightarrow> queues_fit (daemon_up lc d)" using fit by (simp add: queues_fit_def daemon_up_def)
  then have fit1: "fit \<longrightarrow> queues_fit (?s lc ?n)" by (simp add: queues_fit_def daemon_up_def)
  have 2: "daemon_run fit conv C cfg (?s lc ?n) (?s lc' 0)" "fit \<longrightarrow> queues_fit (?s lc' 0)"
    using uninterrupted_rounds [where s = "?s lc ?n" and T = "{#Idle#}" and C = C and rounds = rounds and i = 0
        and n = ?n and lc' = lc' and fit = fit] rounds fit1 by (simp_all add: daemon_up_def)
  have 3: "daemon_step conv C cfg (?s lc' 0) (daemon_up lc' d')"
    using daemon_step.request_ends [of "?s lc' 0" "{#Idle#}"] by (simp add: daemon_up_def d')
  from daemon_run_step [OF 1 fit0 rtranclp_trans [OF 2(1) daemon_run_step [OF 3 2(2) rtranclp.rtrancl_refl]]]
  show ?thesis .
qed

section \<open>A lock that is never released\<close>

text \<open>Once a handler has panicked in a selection, neither a block nor a balance changes again, whatever
  comes.\<close>

lemma wedged_step:
  "daemon_step conv C cfg s t \<Longrightarrow> dm_Wedged s \<Longrightarrow>
     dm_Wedged t \<and> lc_Chain (dm_Ledger t) = lc_Chain (dm_Ledger s) \<and> lc_State (dm_Ledger t) = lc_State (dm_Ledger s)"
  by (cases rule: daemon_step.cases) (auto simp: template_keeps dest: other_request_ledger)

interpretation wedged: machine "daemon_step conv C cfg"
    "\<lambda>t. dm_Wedged t \<and> lc_Chain (dm_Ledger t) = chain \<and> lc_State (dm_Ledger t) = St" for conv C cfg chain St
  by unfold_locales (use wedged_step in blast)

end
