(* ===== verification/Samples.thy ===== *)
theory Samples
  imports Validator Database
begin

text \<open>
  Concrete inputs for the examples: a key pair scheme that signs a message with itself, a
  constant hash, keys of fourteen bytes, a transfer, and a chain start.
\<close>

definition sample_lib :: "(bytes, bytes) crypto_lib" where
  "sample_lib =
     \<lparr>Keccak256 = (\<lambda>_. [CHR 0x01]), Sha3_512 = (\<lambda>_. [CHR 0x02]),
      mode3_GenerateKey = (\<lambda>r. Some (r, r)), mode3_MarshalPub = (\<lambda>k. k),
      mode3_MarshalPriv = (\<lambda>k. k), mode3_UnmarshalPub = Some, mode3_UnmarshalPriv = Some,
      mode3_Sign = (\<lambda>k r m. Some m), mode3_Verify = (\<lambda>k m s. s = m)\<rparr>"

lemma sample_lib_simps [simp]:
  "Keccak256 sample_lib = (\<lambda>_. [CHR 0x01])"
  "mode3_MarshalPub sample_lib k = k"
  "mode3_UnmarshalPub sample_lib k = Some k"
  "mode3_UnmarshalPriv sample_lib k = Some k"
  "mode3_MarshalPriv sample_lib k = k"
  "mode3_Sign sample_lib k r m = Some m"
  "mode3_Verify sample_lib k m s \<longleftrightarrow> s = m"
  by (simp_all add: sample_lib_def)

definition alice_key :: bytes where "alice_key = replicate 14 (CHR ''a'')"
definition alice :: string where "alice = ''xcosh6161616161616161616161616161''"

lemma alice_address [simp]: "PubkeyToAddress alice_key = Ret alice"
  by code_simp

definition sample_tx :: Transfer where
  "sample_tx =
     \<lparr>tx_SenderPubKey = Some alice_key, tx_Recipient = ''xcoshbob'', tx_Value = 10, tx_Fee = 2,
      tx_Nonce = 0, tx_Signature = Some ''xcoshbob-10-2-0''\<rparr>"

lemma sample_tx_simps [simp]:
  "tx_SenderPubKey sample_tx = Some alice_key" "tx_Recipient sample_tx = ''xcoshbob''"
  "tx_Value sample_tx = 10" "tx_Fee sample_tx = 2" "tx_Nonce sample_tx = 0"
  by (simp_all add: sample_tx_def)

lemma sample_tx_size: "length (MarshalTransfer sample_tx) \<le> 300"
  using length_MarshalTransfer_le [of sample_tx] by (simp add: sample_tx_def alice_key_def)

definition sample_block :: LedgerBlock where
  "sample_block =
     \<lparr>blk_Index = 0, blk_Timestamp = 100, blk_PrevHash = Some [], blk_Hash = Some [CHR 0x01],
      blk_Transfers = Some [], blk_Miner = alice, blk_Nonce = 0, blk_Difficulty = 1,
      blk_Bits = 0, blk_Reward = BlockReward, blk_MaxSupply = MaxSupply,
      blk_HalvingInterval = HalvingInterval, blk_Message = []\<rparr>"

lemma sample_pow: "ValidatePoW (hex_encode [CHR 0x01]) 1"
  by code_simp

lemma small_length: "n \<le> 1000000 \<Longrightarrow> (of_nat n :: u64) \<le> MaxBlockSizeBytes"
  by (simp add: word_le_nat_alt unat_of_nat)

lemma reward_at_start: "CalculateBlockReward 0 = BlockReward"
  by (simp add: CalculateBlockReward_def)

lemma sample_block_accepted: "ValidateBlockConsensus sample_block None 0 = None"
proof -
  have "length (MarshalBlock sample_block) \<le> 1000000"
    using length_MarshalBlock_le [of sample_block] by (simp add: sample_block_def alice_def)
  then have "(of_nat (length (MarshalBlock sample_block)) :: u64) \<le> MaxBlockSizeBytes"
    by (rule small_length)
  then show ?thesis
    unfolding validate_accepts_iff
    using sample_pow
    by (simp add: follows_def header_ok_def expected_reward_def Let_def sample_block_def
        reward_at_start consensus_constants alice_def HasPrefix_def AddressPrefix_def)
qed

end
