(* ===== verification/Core_Props.thy ===== *)
theory Core_Props
  imports Samples
begin

text \<open>
  The properties of the consensus rules, transfers, blocks, the nonce search and the block
  validator, each with a concrete instance where it has hypotheses.
\<close>

section \<open>The monetary schedule\<close>

lemma sum_over_heights:
  "(\<Sum>i \<in> (UNIV :: u64 set). f (unat i)) \<le> (\<Sum>n < 2 ^ 64. f n)" for f :: "nat \<Rightarrow> nat"
proof -
  have "(\<Sum>i \<in> (UNIV :: u64 set). f (unat i)) = (\<Sum>n \<in> range (unat :: u64 \<Rightarrow> nat). f n)"
    by (simp add: sum.reindex inj_on_def comp_def word_unat_eq_iff)
  also have "\<dots> \<le> (\<Sum>n < 2 ^ 64. f n)"
    using unsigned_less [where 'b = 64] by (intro sum_mono2) auto
  finally show ?thesis .
qed

text \<open>C7. The reward of a height is fifty coins halved once every 7850000 heights, down to zero
  from the sixty-fourth interval on; and the rewards of all the heights a 64-bit index can
  name, added up without wrapping, never exceed the supply cap.\<close>

theorem emission_schedule:
  "unat (CalculateBlockReward i) = 5000000000 div 2 ^ (unat i div 7850000) \<and>
   (\<Sum>j \<in> (UNIV :: u64 set). unat (CalculateBlockReward j)) \<le> unat MaxSupply"
proof -
  have "(\<Sum>j \<in> (UNIV :: u64 set). unat (CalculateBlockReward j))
      = (\<Sum>j \<in> (UNIV :: u64 set). reward_nat (unat j div 7850000))"
    by (simp add: unat_CalculateBlockReward)
  also have "\<dots> \<le> (\<Sum>n < 2 ^ 64. reward_nat (n div 7850000))" by (rule sum_over_heights)
  also have "\<dots> \<le> unat MaxSupply" using emission_nat_bound by simp
  finally show ?thesis by (simp add: unat_CalculateBlockReward reward_nat_def)
qed

text \<open>Between positive timestamps in order, the next difficulty is one more when the block
  came in under 35 seconds, one less (not under one) past 70 seconds, and otherwise the old
  one; it is never zero. At the top of the 64-bit range a fast block resets it to one.\<close>

theorem next_difficulty_steps:
  assumes "0 < sint p" and "sint p < sint c"
  shows "unat (CalculateNextDifficulty p c d) =
    (if sint c - sint p < 35 then (if unat d = 2 ^ 64 - 1 then 1 else unat d + 1)
     else if 70 < sint c - sint p then max 1 (unat d - 1) else max 1 (unat d))"
proof -
  have "sint (c - p) = sint c - sint p"
  proof -
    have "sint c < 2 ^ 63" using sint_less [of c] by simp
    then show ?thesis using assms by (intro signed_take_bit_int_eq_self sint_word_ariths(2) [THEN trans]) simp_all
  qed
  then have fast: "c - p <s 35 \<longleftrightarrow> sint c - sint p < 35"
    and slow: "70 <s c - p \<longleftrightarrow> 70 < sint c - sint p"
    by (simp_all add: word_sless_alt)
  have nz: "p \<noteq> 0" and order: "\<not> c \<le>s p" using assms by (auto simp: word_sle_eq)
  have "unat d < 2 ^ 64" using unsigned_less [of d] by simp
  then have up: "unat (d + 1) = (if unat d = 2 ^ 64 - 1 then 0 else unat d + 1)"
    by (simp add: unat_word_ariths)
  have down: "unat (d - 1) = unat d - 1" if "1 < d"
    using that by (simp add: unat_minus_le word_le_less_eq)
  show ?thesis
    using nz order fast slow up down
    by (simp add: CalculateNextDifficulty_def TargetBlockTimeSec_def PowTargetSpacing_def Let_def
        word_less_nat_alt split: if_splits)
qed

theorem next_difficulty_steps_witness:
  "unat (CalculateNextDifficulty 100 110 5) = 6 \<and> unat (CalculateNextDifficulty 100 200 1) = 1"
  using next_difficulty_steps [of 100 110 5] next_difficulty_steps [of 100 200 1] by simp

text \<open>C16. The proof-of-work test reads the hash as a 256-bit number: difficulty \<open>d\<close> past one asks
  for \<open>d\<close> more leading zero bits than the limit of 236 bits, and difficulties zero and one ask
  for the limit only.\<close>

theorem pow_leading_zeros:
  "ValidatePoW (hex_encode bs) d \<longleftrightarrow> SetBytes bs * 2 ^ (if 1 < d then unat d else 0) < 2 ^ 236"
proof -
  have shift: "h \<le> drop_bit k PoWLimit \<longleftrightarrow> h * 2 ^ k < 2 ^ 236" for h k :: nat
    by (simp add: drop_bit_eq_div less_eq_div_iff_mult_less_eq PoWLimit_pow less_eq_Suc_le)
  have "h \<le> PoWLimit" if "h * 2 ^ k < 2 ^ 236" for h k :: nat
  proof -
    have "h \<le> h * 2 ^ k" by simp
    with that show ?thesis unfolding PoWLimit_pow by linarith
  qed
  then show ?thesis
    using shift [of "SetBytes bs" "unat d"] shift [of "SetBytes bs" 0]
    by (auto simp: ValidatePoW_def Let_def not_less)
qed

text \<open>The only blocks a reorganisation is refused for are those at height zero whose hash is
  not the fixed genesis hash: with one checkpoint at height zero, no height is below it.\<close>

theorem reorg_checkpoint_only_genesis:
  "VerifyBlockReorgTransition h blockHash prev tip =
     (if h = 0 \<and> hex_encode blockHash \<noteq> ExpectedGenesisHash
      then Some (CheckpointMismatch 0 ExpectedGenesisHash (hex_encode blockHash)) else None)"
  by (simp add: VerifyBlockReorgTransition_def VerifyCheckpoint_def HardcodedCheckpoints_def
      Let_def split: option.split)

lemma int64_bytes_uminus: "int64_bytes (- x) = int64_bytes x"
proof (cases "sint x = - (2 ^ 63)")
  case True
  then have "sint x = sint (- (2 ^ 63) :: i64)" by simp
  then have "x = - (2 ^ 63)" by (rule signed_word_eqI)
  then have "- x = x" by simp
  then show ?thesis by (simp only:)
next
  case False
  then have "sint (- x) = - sint x"
    using sint_greater_eq [of x] sint_less [of x]
    by (intro signed_take_bit_int_eq_self sint_word_ariths(4) [THEN trans]) simp_all
  then show ?thesis by (simp add: int64_bytes_def)
qed

text \<open>The header hash keeps the magnitudes of the timestamp and the nonce only: negating
  either does not change it.\<close>

theorem header_hash_ignores_sign:
  "ComputeHeaderHash keccak prev root (- t) nonce msg = ComputeHeaderHash keccak prev root t nonce msg
   \<and> ComputeHeaderHash keccak prev root t (- nonce) msg
     = ComputeHeaderHash keccak prev root t nonce msg"
  by (simp add: ComputeHeaderHash_def int64_bytes_uminus)

section \<open>Transfers\<close>

text \<open>What is signed determines the transfer: two transfers have the same payload exactly
  when they agree on the recipient, the value, the fee and the nonce, although the recipient
  may itself hold the separator.\<close>

theorem payload_injective:
  "PayloadBytes s = PayloadBytes t \<longleftrightarrow>
     tx_Recipient s = tx_Recipient t \<and> tx_Value s = tx_Value t \<and> tx_Fee s = tx_Fee t
       \<and> tx_Nonce s = tx_Nonce t"
  by (rule PayloadBytes_eq_iff)

text \<open>A transfer made with one half of a key pair verifies under the other, and
  carries the recipient, value, fee and nonce it was made for.\<close>

theorem new_transfer_verifies:
  assumes "key_pair L pub priv"
    and "NewTransfer L rand priv (Some (mode3_MarshalPub L pub)) r v f n = Ret tx"
  shows "Transfer_Verify L tx \<and> tx_Recipient tx = r \<and> tx_Value tx = v \<and> tx_Fee tx = f
    \<and> tx_Nonce tx = n"
  using assms NewTransfer_Ret [OF assms(2)]
  by (simp add: Transfer_Verify_def key_pair_def crypto_defs)

theorem new_transfer_verifies_witness:
  "\<exists>tx. NewTransfer sample_lib [] alice_key (Some alice_key) ''xcoshbob'' 10 2 0 = Ret tx
     \<and> Transfer_Verify sample_lib tx \<and> tx_Value tx = 10"
proof -
  have pair: "key_pair sample_lib alice_key alice_key" by (simp add: key_pair_def)
  obtain tx where "NewTransfer sample_lib [] alice_key (Some alice_key) ''xcoshbob'' 10 2 0 = Ret tx"
    by (simp add: NewTransfer_def Let_def crypto_defs)
  with new_transfer_verifies [OF pair, of "[]" "''xcoshbob''" 10 2 0 tx] show ?thesis by auto
qed

text \<open>An address stands for the first fourteen bytes of a public key: two keys have the same
  address exactly when those agree, whatever follows, and a shorter key panics.\<close>

theorem address_of_prefix:
  "PubkeyToAddress p = PubkeyToAddress q \<longleftrightarrow>
     (if length p < 14 \<or> length q < 14 then length p < 14 \<and> length q < 14
      else take 14 p = take 14 q)"
  by (auto simp: PubkeyToAddress_def Let_def)

section \<open>What a block's hash covers\<close>

text \<open>The bytes a block is hashed over have no separator between the nonce and the message:
  moving the last hexadecimal digit of the nonce to the front of the message gives another
  block with the same bytes, so with the same hash.\<close>

theorem block_data_collision:
  assumes "0 < n" and "unat n * 16 + d < 2 ^ 64" and "d < 16"
  shows "AssembleBlockData b (n * 16 + of_nat d) =
    AssembleBlockData (b\<lparr>blk_Message := digit_char d # blk_Message b\<rparr>) n"
proof -
  have n: "unat n \<noteq> 0" using assms(1) by (simp add: unat_eq_zero word_gt_0)
  have "unat (n * 16 + of_nat d) = unat n * 16 + d"
    using assms(2,3) by (simp add: unat_word_ariths unat_of_nat)
  moreover have "format_nat 16 (unat n * 16 + d) = format_nat 16 (unat n) @ [digit_char d]"
    using n assms(3) by (simp add: format_nat.simps [of 16 "unat n * 16 + d"])
  ultimately show ?thesis by (simp add: AssembleBlockData_def Let_def FormatUint_def)
qed

theorem block_data_collision_witness:
  "AssembleBlockData sample_block 0x2A = AssembleBlockData (sample_block\<lparr>blk_Message := ''a''\<rparr>) 2"
  using block_data_collision [of 2 10 sample_block] by (simp add: sample_block_def digit_char_def)

section \<open>The nonce search\<close>

text \<open>C13. Whatever \<open>Mine\<close> returns, under any schedule of its workers, is sound: the hash is the
  Keccak digest of the block's bytes under the returned nonce, and it passes the
  proof-of-work test at the engine's difficulty.\<close>

theorem mine_sound:
  assumes "Mine_returns keccak ce b n (nonce, hash)"
  shows "hash = keccak (AssembleBlockData (Mine_prepare ce b) nonce) \<and>
    ValidatePoW (hex_encode hash) (ucast (ce_TargetDifficulty ce))"
  using assms mine_steps_sound
  by (fastforce simp: Mine_returns_def sound_result_def validateHash_def)

text \<open>A run of one worker: it takes the chunk at 50000, and its first nonce hits.\<close>

lemma sample_hit: "validateHash (NewConsensusEngine 1) [CHR 0x01]"
  using sample_pow by (simp add: validateHash_def NewConsensusEngine_def)

lemma sample_run:
  "Mine_returns (\<lambda>_. [CHR 0x01]) (NewConsensusEngine 1) b 1 (50000, [CHR 0x01])"
proof -
  let ?step = "mine_step (\<lambda>_. [CHR 0x01]) (NewConsensusEngine 1)
      (Mine_prepare (NewConsensusEngine 1) b)"
  let ?s0 = "\<lparr>s_base = 0, s_workers = [\<lparr>w_pc = AtTop, w_nonce = 0\<rparr>], s_chan = None,
      s_received = None, s_stopped = False\<rparr>"
  let ?s1 = "?s0\<lparr>s_base := 50000, s_workers := [\<lparr>w_pc = Hashing, w_nonce = 50000\<rparr>]\<rparr>"
  let ?s2 = "?s1\<lparr>s_chan := Some (50000, [CHR 0x01]), s_workers := [\<lparr>w_pc = Exited, w_nonce = 50000\<rparr>]\<rparr>"
  let ?s3 = "?s2\<lparr>s_chan := None, s_received := Some (50000, [CHR 0x01]), s_stopped := True\<rparr>"
  have "?step ?s0 ?s1"
    using mine_step.grab [of 0 ?s0 "\<lparr>w_pc = AtTop, w_nonce = 0\<rparr>"] by (simp add: put_worker_def)
  moreover have "?step ?s1 ?s2"
    using mine_step.hit [of 0 ?s1 "\<lparr>w_pc = Hashing, w_nonce = 50000\<rparr>" "[CHR 0x01]"
      "\<lambda>_. [CHR 0x01]"] sample_hit
    by (simp add: put_worker_def)
  moreover have "?step ?s2 ?s3" by (rule mine_step.receive) simp_all
  moreover have "search_init 1 = ?s0" by (simp add: search_init_def)
  ultimately show ?thesis
    unfolding Mine_returns_def
    by (intro exI [of _ ?s3] conjI) (auto intro: converse_rtranclp_into_rtranclp)
qed

theorem mine_sound_witness:
  "ValidatePoW (hex_encode [CHR 0x01]) (ucast (ce_TargetDifficulty (NewConsensusEngine 1)))"
  using mine_sound [OF sample_run] by blast

text \<open>C14. In the first 2^64/50000 steps of a search, before which the shared counter cannot wrap, with
  at most 2^32 workers: no worker, alone or with others, hashes a nonce under 50000, as the first
  chunk is never handed out, and no two workers that are hashing hash the same nonce.\<close>

theorem nonces_disjoint:
  assumes "(mine_step keccak ce b ^^ k) (search_init n) s" and "n \<le> 2 ^ 32"
    and "k * 50000 < 2 ^ 64"
  shows "(\<forall>i < length (s_workers s). w_pc (s_workers s ! i) = Hashing \<longrightarrow>
       50000 \<le> unat (w_nonce (s_workers s ! i))) \<and>
    (\<forall>i < length (s_workers s). \<forall>j < length (s_workers s). i \<noteq> j \<longrightarrow>
       w_pc (s_workers s ! i) = Hashing \<longrightarrow> w_pc (s_workers s ! j) = Hashing \<longrightarrow>
       w_nonce (s_workers s ! i) \<noteq> w_nonce (s_workers s ! j))"
proof (intro conjI allI impI)
  have ok: "chunks_ok k s" using assms by (rule mine_steps_chunks)
  fix i assume i: "i < length (s_workers s)" "w_pc (s_workers s ! i) = Hashing"
  then have "1 \<le> chunk (s_workers s ! i)" using ok unfolding chunks_ok_def walking_def by blast
  then show "50000 \<le> unat (w_nonce (s_workers s ! i))"
    by (simp add: chunk_def div_greater_zero_iff Suc_le_eq)
  fix j assume "j < length (s_workers s)" "i \<noteq> j" "w_pc (s_workers s ! j) = Hashing"
  then have "chunk (s_workers s ! i) \<noteq> chunk (s_workers s ! j)"
    using ok i unfolding chunks_ok_def walking_def by blast
  then show "w_nonce (s_workers s ! i) \<noteq> w_nonce (s_workers s ! j)" by (auto simp: chunk_def)
qed

lemma two_workers_run:
  "(mine_step keccak ce b ^^ 2) (search_init 2)
     \<lparr>s_base = 100000, s_workers = [\<lparr>w_pc = Hashing, w_nonce = 50000\<rparr>,
        \<lparr>w_pc = Hashing, w_nonce = 100000\<rparr>], s_chan = None, s_received = None,
      s_stopped = False\<rparr>"
proof -
  let ?s0 = "\<lparr>s_base = 0, s_workers = [\<lparr>w_pc = AtTop, w_nonce = 0\<rparr>,
      \<lparr>w_pc = AtTop, w_nonce = 1000000000\<rparr>], s_chan = None, s_received = None, s_stopped = False\<rparr>"
  let ?s1 = "?s0\<lparr>s_base := 50000, s_workers := [\<lparr>w_pc = Hashing, w_nonce = 50000\<rparr>,
      \<lparr>w_pc = AtTop, w_nonce = 1000000000\<rparr>]\<rparr>"
  have "search_init 2 = ?s0" by (simp add: search_init_def upt_rec)
  moreover have "mine_step keccak ce b ?s0 ?s1"
    using mine_step.grab [of 0 ?s0 "\<lparr>w_pc = AtTop, w_nonce = 0\<rparr>"] by (simp add: put_worker_def)
  moreover have "mine_step keccak ce b ?s1 (?s1\<lparr>s_base := 100000,
      s_workers := [\<lparr>w_pc = Hashing, w_nonce = 50000\<rparr>, \<lparr>w_pc = Hashing, w_nonce = 100000\<rparr>]\<rparr>)"
    using mine_step.grab [of 1 ?s1 "\<lparr>w_pc = AtTop, w_nonce = 1000000000\<rparr>"]
    by (simp add: put_worker_def)
  ultimately show ?thesis by (auto simp: numeral_2_eq_2 relcompp_apply)
qed

theorem nonces_disjoint_witness:
  "50000 \<le> unat (50000 :: u64) \<and> (50000 :: u64) \<noteq> 100000"
  using nonces_disjoint [OF two_workers_run, THEN conjunct1, rule_format, of 0]
    nonces_disjoint [OF two_workers_run, THEN conjunct2, rule_format, of 0 1] by simp

section \<open>The block validator\<close>

text \<open>C9. A block is accepted exactly when it follows the block before it (next height, later
  timestamp, the parent's hash; height zero when there is none), its header passes (miner
  address, proof of work of the stored hash, monetary constants, size), and it claims the
  reward due at its height and supply, no more and no less.\<close>

theorem validator_accepts:
  "ValidateBlockConsensus block prev supply = None \<longleftrightarrow>
     (case prev of
        Some p \<Rightarrow> blk_Index block = blk_Index p + 1 \<and> blk_Timestamp p <s blk_Timestamp block
                  \<and> elems (blk_PrevHash block) = elems (blk_Hash p)
      | None \<Rightarrow> blk_Index block = 0) \<and>
     (blk_Index block = 0 \<or> blk_Miner block = ''SYSTEM_GENESIS''
        \<or> HasPrefix (blk_Miner block) ''xcosh'') \<and>
     ValidatePoW (hex_encode (elems (blk_Hash block))) (ucast (blk_Difficulty block)) \<and>
     blk_MaxSupply block \<in> {0, MaxSupply} \<and> blk_HalvingInterval block \<in> {0, HalvingInterval} \<and>
     (of_nat (length (MarshalBlock block)) :: u64) \<le> MaxBlockSizeBytes \<and>
     blk_Reward block =
       (let r = CalculateBlockReward (blk_Index block) in
        if supply \<ge> MaxSupply then 0
        else if supply + r > MaxSupply then MaxSupply - supply else r)"
  unfolding validate_accepts_iff
  by (simp add: follows_def header_ok_def expected_reward_def AddressPrefix_def Let_def)

text \<open>C8. An accepted block never takes the supply past the cap, and never claims more than the
  schedule pays at its height; the additions the code does in 64 bits do not wrap.\<close>

theorem accepted_reward_capped:
  assumes "ValidateBlockConsensus block prev supply = None" and "supply \<le> MaxSupply"
  shows "unat (supply + blk_Reward block) = unat supply + unat (blk_Reward block) \<and>
    unat supply + unat (blk_Reward block) \<le> unat MaxSupply \<and>
    blk_Reward block \<le> CalculateBlockReward (blk_Index block)"
proof -
  have r: "blk_Reward block = expected_reward (blk_Index block) supply"
    using assms(1) by (simp add: validate_accepts_iff)
  have cap: "unat supply + unat (blk_Reward block) \<le> 78500000000000000"
    unfolding r using assms(2) by (rule expected_reward_within_cap)
  moreover have "unat (supply + blk_Reward block) = unat supply + unat (blk_Reward block)"
    using cap by (intro unat_plus_no_wrap) simp
  moreover have "blk_Reward block \<le> CalculateBlockReward (blk_Index block)"
    unfolding r word_le_nat_alt by (rule expected_reward_le_schedule)
  ultimately show ?thesis by simp
qed

theorem accepted_reward_capped_witness:
  "unat (0 + blk_Reward sample_block) \<le> unat MaxSupply
     \<and> blk_Reward sample_block \<le> CalculateBlockReward (blk_Index sample_block)"
  using accepted_reward_capped [OF sample_block_accepted] by simp

text \<open>C36. The validator takes the stored hash on trust: it does not hash the block again, and it
  looks at no signature. An accepted block stays accepted with any other nonce and any other
  list of transfers, as long as it still fits the size limit.\<close>

theorem validator_trusts_hash:
  assumes "ValidateBlockConsensus block prev supply = None"
  shows "ValidateBlockConsensus (block\<lparr>blk_Nonce := n, blk_Transfers := ts\<rparr>) prev supply = None \<longleftrightarrow>
    (of_nat (length (MarshalBlock (block\<lparr>blk_Nonce := n, blk_Transfers := ts\<rparr>))) :: u64)
      \<le> MaxBlockSizeBytes"
  using assms unfolding validate_accepts_iff
  by (auto simp: follows_def header_ok_def split: option.splits)

text \<open>An unsigned transfer of a hundred coins slipped into an accepted block.\<close>

theorem validator_trusts_hash_witness:
  "ValidateBlockConsensus (sample_block\<lparr>blk_Nonce := 7,
     blk_Transfers := Some [sample_tx\<lparr>tx_Value := 10000000000, tx_Signature := None\<rparr>]\<rparr>) None 0 = None"
proof -
  let ?tx = "sample_tx\<lparr>tx_Value := 10000000000, tx_Signature := None\<rparr>"
  let ?b = "sample_block\<lparr>blk_Nonce := 7, blk_Transfers := Some [?tx]\<rparr>"
  have "length (MarshalTransfer ?tx) \<le> 1000"
    using length_MarshalTransfer_le [of ?tx] by (simp add: sample_tx_def alice_key_def)
  then have "length (MarshalBlock ?b) \<le> 1000000"
    using length_MarshalBlock_le [of ?b] by (simp add: sample_block_def alice_def)
  then show ?thesis
    using validator_trusts_hash [OF sample_block_accepted, where n = 7 and ts = "Some [?tx]"] by (simp add: small_length)
qed

section \<open>The block store\<close>

text \<open>Over a LevelDB that keeps its laws, a save that reports no error is what every later
  read sees: the saved bytes at its height, the other heights as they were, and the saved
  height as the tip.\<close>

theorem save_then_load:
  assumes "level_db K" and "SaveBlock K i data d = (None, d')"
  shows "GetBlock K j d' = (if j = i then Some data else GetBlock K j d) \<and>
    GetLastIndex K d' = Some i"
  using index_store.load_save [OF level_db.database_contract [OF assms(1)] assms(2)]
    index_store.tip_save [OF level_db.database_contract [OF assms(1)] assms(2)]
  by simp

theorem save_then_load_witness:
  "\<exists>d'. SaveBlock mem_ldb 3 ''data'' [] = (None, d') \<and> GetBlock mem_ldb 3 d' = Some ''data''
     \<and> GetLastIndex mem_ldb d' = Some 3"
proof -
  obtain d' where d': "SaveBlock mem_ldb 3 ''data'' [] = (None, d')"
    by (simp add: SaveBlock_def mem_ldb_def)
  with save_then_load [OF memdb.level_db_axioms d', of 3] show ?thesis by simp
qed

text \<open>Deleting the top block of a store that holds a chain leaves a store that holds the
  chain without it, with the tip moved down (or gone with the last block); clearing leaves
  the empty chain.\<close>

theorem delete_top_block:
  assumes "level_db K" and "holds_chain (GetBlock K) (GetLastIndex K) d (xs @ [x])"
    and "length xs < 2 ^ 64"
    and "DeleteBlock K (of_nat (length xs)) d = (None, d')" and "ClearAll K d = (None, d'')"
  shows "holds_chain (GetBlock K) (GetLastIndex K) d' xs \<and>
    holds_chain (GetBlock K) (GetLastIndex K) d'' []"
  using index_store.holds_chain_remove [OF level_db.database_contract [OF assms(1)] assms(2-4)]
    index_store.holds_chain_clear [OF level_db.database_contract [OF assms(1)] assms(5)]
  by simp

theorem delete_top_block_witness:
  "\<exists>d'. holds_chain (GetBlock mem_ldb) (GetLastIndex mem_ldb) d' [''a'']"
proof -
  let ?d = "snd (SaveBlock mem_ldb 1 ''b'' (snd (SaveBlock mem_ldb 0 ''a'' [])))"
  have "holds_chain (GetBlock mem_ldb) (GetLastIndex mem_ldb) ?d ([''a''] @ [''b''])"
    by (auto simp: holds_chain_def less_Suc_eq SaveBlock_def GetBlock_def GetLastIndex_def mem_ldb_def)
  moreover obtain d' where "DeleteBlock mem_ldb (of_nat (length [''a''])) ?d = (None, d')"
    by (simp add: DeleteBlock_def mem_ldb_def)
  moreover obtain d'' where "ClearAll mem_ldb ?d = (None, d'')"
    by (simp add: ClearAll_def mem_ldb_def)
  ultimately show ?thesis using delete_top_block [OF memdb.level_db_axioms] by force
qed

end
