(* ===== verification/Service_Props.thy ===== *)
theory Service_Props
  imports Commands Core_Props
begin

text \<open>
  The properties of what surrounds the ledger: configuration and authentication, the wallet
  file, the uptime, fork handling and the reports of supply and blocks.
\<close>

section \<open>Configuration and authentication\<close>

text \<open>Loading twice from what the first load left gives the same configuration, whatever the random
  bytes: a cookie is only made where there is none.\<close>

lemma LoadConfig_again:
  assumes "LoadConfig rnd dir d = (e, cfg, d1)"
  shows "LoadConfig rnd' dir d1 = (e, cfg, d1)"
proof (cases "MkdirAll dir d")
  case False
  with assms show ?thesis by (auto simp: LoadConfig_def Let_def)
next
  case True
  let ?cookie = "Join dir ''.cookie''"
  let ?cfg = "config_file (ReadFile (Join dir ''xcosh.conf'') d) (default_config dir)"
  show ?thesis
  proof (cases "cfg_RPCUser ?cfg = [] \<and> cfg_RPCPassword ?cfg = [] \<and> IsNotExist ?cookie d \<and>
      dk_writable d ?cookie")
    case True
    then have d1: "d1 = snd (WriteFile ?cookie (cookie_data rnd) d)" and e: "\<not> e"
      and cfg: "cfg = use_cookie (ReadFile ?cookie d1) ?cfg"
      using assms \<open>MkdirAll dir d\<close> by (auto simp: LoadConfig_def Let_def)
    have "ReadFile (Join dir ''xcosh.conf'') d1 = ReadFile (Join dir ''xcosh.conf'') d"
      by (simp add: d1 ReadFile_WriteFile)
    moreover have "\<not> IsNotExist ?cookie d1" using True by (simp add: d1 IsNotExist_def WriteFile_def)
    moreover have "MkdirAll dir d1" using \<open>MkdirAll dir d\<close> by (simp add: d1 MkdirAll_def)
    ultimately show ?thesis using True e cfg by (simp add: LoadConfig_def Let_def)
  next
    case False
    then have "d1 = d" using assms \<open>MkdirAll dir d\<close>
      by (auto simp: LoadConfig_def Let_def WriteFile_def split: if_splits)
    moreover from this False have "LoadConfig rnd' dir d = LoadConfig rnd dir d"
      by (auto simp: LoadConfig_def Let_def WriteFile_def)
    ultimately show ?thesis using assms by simp
  qed
qed

text \<open>The user name of a header ends at its first colon.\<close>

lemma BasicAuth_user: "BasicAuth header = Some (user, pass) \<Longrightarrow> CHR '':'' \<notin> set user"
  by (auto simp: BasicAuth_def SplitN2_def Let_def split: option.splits if_splits dest: set_takeWhileD)

lemma client_refused:
  assumes "cfg_RPCUser c = [] \<and> cfg_RPCPassword c = [] \<or> CHR '':'' \<in> set (cfg_RPCUser c)"
  shows "\<not> authorized (Some c) (client_header (Some c))"
  using assms BasicAuth_user [of "client_header (Some c)"]
  by (auto simp: authorized_def client_header_def BasicAuth_def [of None] split: option.splits)

text \<open>C28. When a command is run on the data directory from which the daemon loaded its configuration
  without an error, the header it makes from its own load passes the daemon's test exactly when
  there are credentials and the user name holds no colon, whatever random bytes either drew; and it
  calls the daemon's port.\<close>

theorem cli_authenticates:
  assumes "LoadConfig rnd dir d = (False, cfg, d1)"
  shows "(authorized (Some cfg) (snd (HandleRPCClient_request (LoadConfig rnd' dir d1))) \<longleftrightarrow>
      (cfg_RPCUser cfg \<noteq> [] \<or> cfg_RPCPassword cfg \<noteq> []) \<and> CHR '':'' \<notin> set (cfg_RPCUser cfg)) \<and>
    fst (HandleRPCClient_request (LoadConfig rnd' dir d1)) = daemon_rpc_port (False, cfg, d1)"
  using LoadConfig_again [OF assms, of rnd'] client_authorized [of cfg] client_refused [of cfg]
  by (auto simp: HandleRPCClient_request_def daemon_rpc_port_def)

lemma first_boot:
  "\<exists>cfg d1. LoadConfig rnd dir empty_disk = (False, cfg, d1) \<and>
     cfg_RPCUser cfg = ''__cookie__'' \<and> cfg_RPCPassword cfg = hex_encode rnd"
  by (simp add: LoadConfig_def Let_def MkdirAll_def empty_disk_def ReadFile_def WriteFile_def
      IsNotExist_def config_file_def default_config_def use_cookie_def cookie_split)

theorem cli_authenticates_witness:
  "\<exists>cfg d1. LoadConfig [CHR 0x2A] [] empty_disk = (False, cfg, d1) \<and>
     authorized (Some cfg) (snd (HandleRPCClient_request (LoadConfig [CHR 0x2B] [] d1)))"
proof -
  from first_boot [of "[CHR 0x2A]" "[]"] obtain cfg d1
    where c: "LoadConfig [CHR 0x2A] [] empty_disk = (False, cfg, d1)" "cfg_RPCUser cfg = ''__cookie__''"
    by blast
  from cli_authenticates [OF c(1), of "[CHR 0x2B]"] c show ?thesis by auto
qed

text \<open>A configuration file made of assignments is read back: the last assignment of each key
  wins, the port starts with a colon, and when a user or a password is set no cookie is
  written and the disk stays as it was.\<close>

theorem config_values:
  assumes "MkdirAll dir d" and "ReadFile (Join dir ''xcosh.conf'') d = Some (render_config kvs)"
    and "\<forall>kv \<in> set kvs. clean_entry kv"
    and "last_value ''rpcuser'' [] kvs \<noteq> [] \<or> last_value ''rpcpassword'' [] kvs \<noteq> []"
  shows "\<exists>cfg. LoadConfig rnd dir d = (False, cfg, d) \<and>
    cfg_RPCUser cfg = last_value ''rpcuser'' [] kvs \<and>
    cfg_RPCPassword cfg = last_value ''rpcpassword'' [] kvs \<and>
    cfg_RPCPort cfg = last_value ''rpcport'' ''19332'' kvs \<and> HasPrefix (cfg_Port cfg) '':''"
proof -
  let ?cfg = "config_file (Some (render_config kvs)) (default_config dir)"
  have v: "cfg_RPCUser ?cfg = last_value ''rpcuser'' [] kvs"
    "cfg_RPCPassword ?cfg = last_value ''rpcpassword'' [] kvs"
    "cfg_RPCPort ?cfg = last_value ''rpcport'' ''19332'' kvs"
    by (simp_all add: config_file_render [OF assms(3)] fold_set_option) (simp_all add: default_config_def)
  have load: "LoadConfig rnd dir d = (False, ?cfg, d)"
    using assms(1,2,4) v by (auto simp: LoadConfig_def Let_def)
  moreover have "HasPrefix (cfg_Port ?cfg) '':''"
    using LoadConfig_port_ok [of rnd dir d] load by (simp add: port_ok_def)
  ultimately show ?thesis using v by blast
qed

definition sample_conf :: "(string \<times> string) list" where
  "sample_conf = [(''rpcuser'', ''alice''), (''port'', ''1234''), (''rpcuser'', ''bob'')]"

theorem config_values_witness:
  "\<exists>cfg. LoadConfig [] [] (empty_disk\<lparr>dk_file := [[''xcosh.conf''] \<mapsto> render_config sample_conf]\<rparr>)
      = (False, cfg, empty_disk\<lparr>dk_file := [[''xcosh.conf''] \<mapsto> render_config sample_conf]\<rparr>) \<and>
     cfg_RPCUser cfg = ''bob''"
proof -
  let ?d = "empty_disk\<lparr>dk_file := [[''xcosh.conf''] \<mapsto> render_config sample_conf]\<rparr>"
  have "MkdirAll [] ?d" "ReadFile (Join [] ''xcosh.conf'') ?d = Some (render_config sample_conf)"
    by (simp_all add: MkdirAll_def ReadFile_def Join_def empty_disk_def)
  moreover have "\<forall>kv \<in> set sample_conf. clean_entry kv"
    by (simp add: sample_conf_def clean_entry_def printable_def HasPrefix_def)
  moreover have "last_value ''rpcuser'' [] sample_conf = ''bob''"
    by (simp add: sample_conf_def last_value_def)
  ultimately show ?thesis using config_values [of "[]" ?d sample_conf "[]"] by auto
qed

text \<open>A data directory that cannot be made, or a cookie that cannot be read, leaves a daemon
  whose file sets neither user nor password with empty credentials, and then the header of the
  empty user and the empty password is accepted: anyone can mine on it or stop it.\<close>

theorem empty_credentials:
  assumes "LoadConfig rnd dir d = (e, cfg, d1)"
    and "\<not> MkdirAll dir d \<or> \<not> dk_readable d (Join dir ''.cookie'') \<and>
      cfg_RPCUser (config_file (ReadFile (Join dir ''xcosh.conf'') d) (default_config dir)) = [] \<and>
      cfg_RPCPassword (config_file (ReadFile (Join dir ''xcosh.conf'') d) (default_config dir)) = []"
    and "rq_Method req = ''stop''"
  shows "\<exists>reply. rpc_handle R (Some cfg) (Some ''Basic Og=='') ''POST'' (Some req) nd
    = Ret (Reply reply, nd, True)"
proof -
  have "cfg_RPCUser cfg = [] \<and> cfg_RPCPassword cfg = []"
    using assms(1,2)
    by (auto simp: LoadConfig_def Let_def default_config_def ReadFile_def WriteFile_def use_cookie_def
        split: if_splits)
  moreover have "BasicAuth (Some ''Basic Og=='') = Some ([], [])" by code_simp
  ultimately show ?thesis
    using assms(3) by (simp add: rpc_handle_def authorized_def rpc_dispatch_def Let_def)
qed

definition locked_disk :: disk where
  "locked_disk = empty_disk\<lparr>dk_makable := (\<lambda>_. False)\<rparr>"

theorem empty_credentials_witness:
  "\<exists>cfg. LoadConfig [] [] locked_disk = (True, cfg, locked_disk) \<and>
     (\<forall>(R :: (bytes, bytes, unit) rpc_env) nd. \<exists>reply. rpc_handle R (Some cfg) (Some ''Basic Og=='') ''POST''
        (Some \<lparr>rq_Method = ''stop'', rq_Params = [], rq_ID = (1::int)\<rparr>) nd = Ret (Reply reply, nd, True))"
proof -
  have l: "LoadConfig [] [] locked_disk = (True, default_config [], locked_disk)"
    by (simp add: LoadConfig_def Let_def MkdirAll_def locked_disk_def)
  have "\<not> MkdirAll [] locked_disk" by (simp add: MkdirAll_def locked_disk_def)
  then show ?thesis using l by (auto intro!: empty_credentials [OF l])
qed


section \<open>The wallet\<close>

lemma NewTransfer_signed:
  assumes "key_pair L pub priv"
    and "NewTransfer L rand priv (Some (mode3_MarshalPub L pub)) r v f n = Ret tx"
  shows "Transfer_Verify L tx \<and> elems (tx_SenderPubKey tx) = mode3_MarshalPub L pub"
  using assms NewTransfer_Ret [OF assms(2)]
  by (simp add: Transfer_Verify_def key_pair_def crypto_defs)

text \<open>C27. An account added to a wallet can be used after a restart: the file then decodes to the
  old accounts followed by the new one, every key found before is found unchanged, and unless
  an older account has the same address the new address gives the generated key, with which a
  transfer verifies and is sent from that address.\<close>

theorem wallet_account_usable:
  assumes "GenerateKey L rand = Some (pub, priv)" and "key_pair L pub priv"
    and "LoadWalletCustom file d = Some w"
    and "GenerateNewAccount L rand file d = Ret (Some addr, d')"
    and "dk_readable d file"
  shows "\<exists>w'. LoadWalletCustom file d' = Some w' \<and>
    (\<forall>a r. GetPrivateKeyInstance L w a = Inr r \<longrightarrow> GetPrivateKeyInstance L w' a = Inr r) \<and>
    (addr \<notin> ac_Address ` set (wf_Accounts w) \<longrightarrow>
       GetPrivateKeyInstance L w' addr = Inr (priv, mode3_MarshalPub L pub)) \<and>
    (\<forall>rand r v f n tx. NewTransfer L rand priv (Some (mode3_MarshalPub L pub)) r v f n = Ret tx \<longrightarrow>
       Transfer_Verify L tx \<and> PubkeyToAddress (elems (tx_SenderPubKey tx)) = Ret addr)"
proof -
  obtain a where a: "new_account L rand = Ret (Some a)"
    using assms(4) by (auto simp: GenerateNewAccount_def obind_Ret_iff split: option.splits)
  have save: "SaveWalletCustom file (w\<lparr>wf_Accounts := wf_Accounts w @ [a]\<rparr>) d = (True, d')"
    and addr: "addr = ac_Address a"
    using assms(3,4) a by (simp_all add: GenerateNewAccount_def split: prod.splits if_splits)
  from new_account_of [OF a] assms(1) have acc: "account_of L pub priv a" by auto
  let ?w = "w\<lparr>wf_Accounts := wf_Accounts w @ [a]\<rparr>"
  have "wallet_texts ?w"
    using loaded_wallet_texts [OF assms(3)] new_account_texts [OF a] by (auto simp: wallet_texts_def)
  then have "LoadWalletCustom file d' = Some ?w" by (rule LoadWallet_saved [OF save assms(5)])
  moreover have "GetPrivateKeyInstance L ?w b = Inr r" if "GetPrivateKeyInstance L w b = Inr r" for b r
    using GetPrivateKeyInstance_added [of L w b a] that by simp
  moreover have "GetPrivateKeyInstance L ?w addr = Inr (priv, mode3_MarshalPub L pub)"
    if "addr \<notin> ac_Address ` set (wf_Accounts w)"
  proof (rule GetPrivateKeyInstance_account [OF _ acc assms(2)])
    have "find (\<lambda>acc. ac_Address acc = addr) (wf_Accounts w) = None"
      using that by (auto simp: find_None_iff)
    then show "find (\<lambda>acc. ac_Address acc = addr) (wf_Accounts ?w) = Some a"
      by (simp add: find_append addr)
  qed
  moreover have "Transfer_Verify L tx \<and> PubkeyToAddress (elems (tx_SenderPubKey tx)) = Ret addr"
    if "NewTransfer L rand priv (Some (mode3_MarshalPub L pub)) r v f n = Ret tx" for rand r v f n tx
    using NewTransfer_signed [OF assms(2) that] acc by (simp add: account_of_def addr)
  ultimately show ?thesis by blast
qed

text \<open>A wallet with no account yet.\<close>

definition no_accounts :: WalletFile where "no_accounts = \<lparr>wf_Version = 1, wf_Accounts = []\<rparr>"

definition alice_account :: Account where
  "alice_account = \<lparr>ac_Address = alice, ac_PublicKey = hex_encode alice_key,
     ac_PrivateKey = hex_encode alice_key\<rparr>"

lemma alice_new_account: "new_account sample_lib alice_key = Ret (Some alice_account)"
  by (simp add: new_account_def GenerateKey_def d3_GenerateKey_def alice_account_def)
     (simp add: sample_lib_def)

theorem wallet_account_usable_witness:
  "\<exists>addr d' w'. LoadWalletCustom [''wallet.dat'']
       (empty_disk\<lparr>dk_file := [[''wallet.dat''] \<mapsto> wallet_json no_accounts]\<rparr>) = Some no_accounts \<and>
     GenerateNewAccount sample_lib alice_key [''wallet.dat'']
       (empty_disk\<lparr>dk_file := [[''wallet.dat''] \<mapsto> wallet_json no_accounts]\<rparr>) = Ret (Some addr, d') \<and>
     LoadWalletCustom [''wallet.dat''] d' = Some w' \<and>
     GetPrivateKeyInstance sample_lib w' alice = Inr (alice_key, alice_key)"
proof -
  let ?f = "[''wallet.dat'']"
  let ?d = "empty_disk\<lparr>dk_file := [?f \<mapsto> wallet_json no_accounts]\<rparr>"
  have pair: "key_pair sample_lib alice_key alice_key" by (simp add: key_pair_def)
  have gen: "GenerateKey sample_lib alice_key = Some (alice_key, alice_key)"
    by (simp add: GenerateKey_def d3_GenerateKey_def) (simp add: sample_lib_def)
  have "wallet_texts no_accounts" by (simp add: wallet_texts_def no_accounts_def)
  then have load: "LoadWalletCustom ?f ?d = Some no_accounts"
    by (simp add: LoadWalletCustom_def ReadFile_def empty_disk_def UnmarshalWallet_saved)
  have "dk_makable ?d = (\<lambda>_. True)" "dk_writable ?d = (\<lambda>_. True)" by (simp_all add: empty_disk_def)
  moreover have "ac_Address alice_account = alice" by (simp add: alice_account_def)
  ultimately obtain d' where new: "GenerateNewAccount sample_lib alice_key ?f ?d = Ret (Some alice, d')"
    unfolding GenerateNewAccount_def load alice_new_account SaveWalletCustom_def WriteFile_def
      MkdirAll_def by simp
  have "dk_readable ?d ?f" by (simp add: empty_disk_def)
  from wallet_account_usable [OF gen pair load new this] obtain w'
    where "LoadWalletCustom ?f d' = Some w'"
      "GetPrivateKeyInstance sample_lib w' alice = Inr (alice_key, alice_key)"
    by (auto simp: no_accounts_def)
  with load new show ?thesis by blast
qed

text \<open>A wallet file that is there but cannot be read, or does not decode, is replaced: starting
  the wallet or adding an account writes a new file with the new account alone, and every key
  the old file held is gone.\<close>

theorem wallet_overwritten:
  assumes "LoadWalletCustom file d = None"
    and "MkdirAll (butlast file) d" and "dk_writable d file"
    and "new_account L rand = Ret (Some a)"
  shows "\<exists>d'. CreateOrLoadWalletCustom L rand file d
      = Ret (Some \<lparr>wf_Version = 1, wf_Accounts = [a]\<rparr>, d') \<and>
    GenerateNewAccount L rand file d = Ret (Some (ac_Address a), d') \<and>
    dk_file d' file = Some (wallet_json \<lparr>wf_Version = 1, wf_Accounts = [a]\<rparr>)"
  using assms
  by (simp add: CreateOrLoadWalletCustom_def GenerateNewAccount_def SaveWalletCustom_def WriteFile_def Let_def)

theorem wallet_overwritten_witness:
  "\<exists>d'. CreateOrLoadWalletCustom sample_lib alice_key [''wallet.dat'']
       (empty_disk\<lparr>dk_file := [[''wallet.dat''] \<mapsto> ''many keys'']\<rparr>)
      = Ret (Some \<lparr>wf_Version = 1, wf_Accounts = [alice_account]\<rparr>, d') \<and>
     dk_file d' [''wallet.dat''] = Some (wallet_json \<lparr>wf_Version = 1, wf_Accounts = [alice_account]\<rparr>)"
proof -
  let ?d = "empty_disk\<lparr>dk_file := [[''wallet.dat''] \<mapsto> ''many keys'']\<rparr>"
  have "UnmarshalWallet ''many keys'' = None" by code_simp
  then have "LoadWalletCustom [''wallet.dat''] ?d = None"
    by (simp add: LoadWalletCustom_def ReadFile_def empty_disk_def)
  moreover have "MkdirAll (butlast [''wallet.dat'']) ?d" "dk_writable ?d [''wallet.dat'']"
    by (simp_all add: MkdirAll_def empty_disk_def)
  ultimately show ?thesis
    using wallet_overwritten [of "[''wallet.dat'']" ?d sample_lib alice_key alice_account]
      alice_new_account by blast
qed


section \<open>Uptime, forks and supply as the commands show them\<close>

text \<open>The uptime text tells durations apart: two non-negative numbers of seconds have the same
  text exactly when they are equal.\<close>

theorem uptime_text_faithful:
  assumes "0 \<le> d" and "0 \<le> e"
  shows "uptime_text d = uptime_text e \<longleftrightarrow> d = e"
  using uptime_text_inject [OF assms] by auto

theorem uptime_text_faithful_witness: "uptime_text 3600 \<noteq> uptime_text 60"
  using uptime_text_faithful [of 3600 60] by simp

text \<open>A restart does not reset the clock: the record of the first start stays, so the uptime is
  counted from there although the code means to restart it.\<close>

lemma uptime_from_first_start:
  assumes "dk_file d (getUptimeFilePath home) = None"
    and "dk_writable d (getUptimeFilePath home)" and "dk_readable d (getUptimeFilePath home)"
  shows "fst (GetUptime home t3
      (RecordStartTime home t2 (RecordStartTime home t1 d))) = max 0 (sint (t3 - t1))"
  using assms by (simp add: UnmarshalUptime_saved GetUptime_def RecordStartTime_def Let_def IsNotExist_def WriteFile_def ReadFile_def)

text \<open>A fork is never followed: whenever the new block does not extend the tip but is at least as
  high, the handler panics, as the ancestor it finds has no hash.\<close>

lemma fork_panics:
  assumes "elems (blk_PrevHash b) \<noteq> elems (blk_Hash tip)" and "blk_Index tip \<le> blk_Index b"
  shows "HandleReorg b tip = Panic ''slice bounds out of range''"
proof -
  have "hash8 empty_block = Panic ''slice bounds out of range''"
    by (simp add: hash8_def empty_block_def)
  moreover have "hash8 tip = Panic ''slice bounds out of range'' \<or> (\<exists>h. hash8 tip = Ret h)"
    by (simp add: hash8_def Let_def)
  ultimately show ?thesis
    using assms by (auto simp: HandleReorg_def RollbackChain_def FindCommonAncestor_def Let_def)
qed

lemma sum_rewards_le: "(\<Sum>i < n. unat (CalculateBlockReward (of_nat i))) \<le> n * 5000000000"
proof -
  have "unat (CalculateBlockReward (of_nat i)) \<le> 5000000000" for i :: nat
    by (simp add: unat_CalculateBlockReward reward_nat_def)
  then have "(\<Sum>i < n. unat (CalculateBlockReward (of_nat i))) \<le> (\<Sum>i < n. 5000000000)"
    by (intro sum_mono) simp
  then show ?thesis by simp
qed

text \<open>The supply the command reports is the sum of the scheduled rewards of the blocks only up
  to the first halving; past it the report is too high. (The bound on the height keeps the
  64-bit product from wrapping.)\<close>

theorem supply_estimate_exact:
  assumes "n < 3000000000"
  shows "unat (fst (supply_estimate n)) = (\<Sum>i < n. unat (CalculateBlockReward (of_nat i)))
    \<longleftrightarrow> n \<le> 7850000"
proof -
  let ?r = "\<lambda>i. unat (CalculateBlockReward (of_nat i))"
  have r: "?r i = reward_nat (i div 7850000)" if "i < n" for i
  proof -
    have "i < 2 ^ 64" using that assms by simp
    then have "unat (of_nat i :: u64) = i" by (simp add: unat_of_nat take_bit_eq_mod)
    then show ?thesis by (simp add: unat_CalculateBlockReward)
  qed
  have est: "unat (fst (supply_estimate n)) = n * 5000000000"
  proof -
    have small: "n * 5000000000 < 2 ^ 64" using assms by simp
    have "fst (supply_estimate n) = (of_nat (n * 5000000000) :: u64)"
      by (simp add: supply_estimate_def Let_def)
    then show ?thesis using small by (simp only: unat_of_nat take_bit_eq_mod) simp
  qed
  show ?thesis
  proof (cases "n \<le> 7850000")
    case True
    then have "(\<Sum>i < n. ?r i) = (\<Sum>i < n. 5000000000)"
      by (intro sum.cong) (simp_all add: r reward_nat_def)
    then show ?thesis using True est by simp
  next
    case False
    have low: "?r 7850000 < 5000000000" using r [of 7850000] False by (simp add: reward_nat_def)
    have "(\<Sum>i < n. ?r i) < (\<Sum>i < n. 5000000000)"
    proof (rule sum_strict_mono_ex1)
      show "\<forall>i \<in> {..<n}. ?r i \<le> 5000000000" by (simp add: r reward_nat_def)
      show "\<exists>i \<in> {..<n}. ?r i < 5000000000"
        using False low by (intro bexI [of _ 7850000]) simp_all
    qed simp
    then show ?thesis using False est by simp
  qed
qed

theorem supply_estimate_exact_witness:
  "unat (fst (supply_estimate 7850001)) \<noteq> (\<Sum>i < 7850001. unat (CalculateBlockReward (of_nat i)))"
proof -
  have low: "7850001 < (3000000000 :: nat)" and past: "\<not> 7850001 \<le> (7850000 :: nat)" by simp_all
  show ?thesis unfolding supply_estimate_exact [OF low] by (rule past)
qed

lemma sint_of_small: "unat w < 2 ^ 63 \<Longrightarrow> sint w = int (unat w)" for w :: u64
proof -
  assume "unat w < 2 ^ 63"
  then have "int (unat w) < int (2 ^ 63)" by (simp only: of_nat_less_iff)
  then have "uint w < 2 ^ 63" by simp
  then have "signed_take_bit 63 (uint w) = uint w"
  proof (rule signed_take_bit_int_eq_self [rotated])
    have "- (2 ^ 63) \<le> (0 :: int)" by simp
    also have "0 \<le> uint w" by simp
    finally show "- (2 ^ 63) \<le> uint w" .
  qed
  then show ?thesis by (simp add: sint_uint)
qed

lemma sint_of_large: "\<not> unat w < 2 ^ 63 \<Longrightarrow> sint w < 0" for w :: u64
proof (rule ccontr)
  assume large: "\<not> unat w < 2 ^ 63" and "\<not> sint w < 0"
  then have "0 \<le> sint w" "sint w < 2 ^ 63" using sint_less [of w] by simp_all
  then have "uint w = sint w" by (simp add: uint_sint take_bit_int_eq_self)
  then have "int (unat w) < int (2 ^ 63)" using \<open>sint w < 2 ^ 63\<close> by simp
  with large show False by (simp only: of_nat_less_iff)
qed

text \<open>Looking a block up by height finds exactly the blocks of the chain; a height past the end is
  reported below 2^63, and from there on the command panics instead.\<close>

theorem block_lookup_by_height:
  assumes "length chain < 2 ^ 63"
  shows "block_at index chain =
    (if unat index < length chain then Ret (BlockHash (hex_encode (elems (blk_Hash (chain ! unat index)))))
     else if unat index < 2 ^ 63 then Ret (OutOfRange index (length chain))
     else Panic ''index out of range'')"
proof (cases "unat index < 2 ^ 63")
  case True
  show ?thesis
    unfolding block_at_def sint_of_small [OF True] of_nat_le_iff using True by (simp add: not_le)
next
  case False
  with sint_of_large [OF False] assms show ?thesis by (simp add: block_at_def)
qed

theorem block_lookup_by_height_witness:
  "block_at 9223372036854775808 [sample_block] = Panic ''index out of range''"
  using block_lookup_by_height [of "[sample_block]" 9223372036854775808] by simp


section \<open>Credentials for the examples\<close>

text \<open>A configuration with credentials.\<close>

definition sample_cfg :: Config where
  "sample_cfg = (default_config [])\<lparr>cfg_RPCUser := ''alice'', cfg_RPCPassword := ''secret''\<rparr>"

lemma sample_login: "authorized (Some sample_cfg) (client_header (Some sample_cfg))"
  by (rule client_authorized) (simp_all add: sample_cfg_def)

section \<open>The file of peers\<close>

lemma UnmarshalPeers_saved: "UnmarshalPeers (peers_json addrs) = Some (map replace_invalid addrs)"
proof -
  have "list_all2 (tree_reads 0) (map (\<lambda>a. JLeaf (json_string a)) addrs)
      (map (\<lambda>a. JString (replace_invalid a)) addrs)"
    unfolding list.rel_map by (rule list.rel_refl) (simp add: tree_leaf reads_whole_reads reads_string)
  note read = Unmarshal_indent [OF tree_array [OF this]]
  have "list_all2 (\<lambda>v x. \<forall>y. into_string v y = (x, True))
      (map (\<lambda>a. JString (replace_invalid a)) addrs) (map replace_invalid addrs)"
    unfolding list.rel_map by (rule list.rel_refl) simp
  then show ?thesis
    by (simp add: UnmarshalPeers_def peers_json_def read maxNestingDepth_def json_space_def into_slice_ok
        decoded_def)
qed

lemma UnmarshalPeers_status: "UnmarshalPeers (daemon_status port updated) = None"
proof -
  have "list_all2 (\<lambda>(k, t) (j, v). j = k \<and> plain_key k \<and> tree_reads 0 t v)
      [(''port'', JLeaf (json_string port)), (''status'', JLeaf (json_string ''active'')),
       (''updated_at'', JLeaf (json_string updated))]
      [(''port'', JString (replace_invalid port)), (''status'', JString (replace_invalid ''active'')),
       (''updated_at'', JString (replace_invalid updated))]"
    by (simp add: plain_key_ascii tree_leaf reads_whole_reads reads_string del: replace_invalid.simps)
  note read = Unmarshal_indent [OF tree_object_plain [OF this]]
  show ?thesis
    by (simp add: UnmarshalPeers_def daemon_status_def read maxNestingDepth_def json_space_def into_slice_def
        decoded_def)
qed

end
