(* ===== verification/Ledger_Props.thy ===== *)
theory Ledger_Props
  imports Ledger_Restart Core_Props "HOL-Library.Sublist"
begin

text \<open>
  The properties of the ledger: what holds of every state a node reaches, what mining,
  queueing, rollback and restart do, and where the code's arithmetic and ordering let the
  books drift. A node that starts on an empty store is the base of the runs.
\<close>

section \<open>A sample node\<close>

definition sample_env :: "(bytes, bytes, (bytes \<times> bytes) list) node_env" where
  "sample_env =
     \<lparr>ne_crypto = sample_lib, ne_ldb = mem_ldb,
      ne_sort = (\<lambda>txs. rev (sort_key tx_Fee txs))\<rparr>"

lemma sample_env_simps [simp]:
  "ne_crypto sample_env = sample_lib" "ne_ldb sample_env = mem_ldb"
  "ne_sort sample_env = (\<lambda>txs. rev (sort_key tx_Fee txs))"
  by (simp_all add: sample_env_def)

lemma sample_env_laws:
  "level_db (ne_ldb sample_env)" "reliable (ne_ldb sample_env)" "sort_slice (ne_sort sample_env)"
proof -
  show "level_db (ne_ldb sample_env)" by (simp add: memdb.level_db_axioms)
  show "reliable (ne_ldb sample_env)" by (simp add: reliable_def mem_ldb_def)
  have "sorted_wrt (\<lambda>s t. tx_Fee t \<le> tx_Fee s) (rev (sort_key tx_Fee txs))"
    for txs :: "Transfer list"
    using sorted_sort_key [of tx_Fee txs] by (simp add: sorted_wrt_rev sorted_map)
  then show "sort_slice (ne_sort sample_env)" by (simp add: sort_slice_def by_fee_def)
qed

definition sample_ledger :: "Transfer list \<Rightarrow> (bytes \<times> bytes) list LedgerCore" where
  "sample_ledger mempool =
     \<lparr>lc_Chain = [sample_block], lc_State = [alice \<mapsto> \<lparr>acc_Balance = BlockReward, acc_Nonce = 0\<rparr>],
      lc_Mempool = mempool, lc_Engine = NewConsensusEngine 1, lc_MinerAddress = alice,
      lc_Storage = Some [(''last_index'', ''0''), (block_key 0, MarshalBlock sample_block)]\<rparr>"

lemma sample_ledger_simps [simp]:
  "lc_Chain (sample_ledger m) = [sample_block]"
  "lc_State (sample_ledger m) = [alice \<mapsto> \<lparr>acc_Balance = BlockReward, acc_Nonce = 0\<rparr>]"
  "lc_Mempool (sample_ledger m) = m" "lc_Engine (sample_ledger m) = NewConsensusEngine 1"
  "lc_MinerAddress (sample_ledger m) = alice"
  "lc_Storage (sample_ledger m)
    = Some [(''last_index'', ''0''), (block_key 0, MarshalBlock sample_block)]"
  by (simp_all add: sample_ledger_def)

lemma alice_prefix [simp]: "HasPrefix alice AddressPrefix" "alice \<noteq> ''SYSTEM_GENESIS''" "alice \<noteq> []"
  by (simp_all add: alice_def HasPrefix_def AddressPrefix_def)

lemma sample_block_simps [simp]:
  "blk_Index sample_block = 0" "blk_Timestamp sample_block = 100" "blk_Miner sample_block = alice"
  "blk_Transfers sample_block = Some []" "blk_Reward sample_block = BlockReward"
  "blk_Hash sample_block = Some [CHR 0x01]" "blk_Difficulty sample_block = 1"
  by (simp_all add: sample_block_def)

lemma sample_chain_ok: "chain_ok (lc_Chain (sample_ledger m))"
  using validator.gate_starts_chain [OF sample_block_accepted] by simp

lemma sample_rebuild:
  "rebuild_chain [sample_block] = Ret [alice \<mapsto> \<lparr>acc_Balance = BlockReward, acc_Nonce = 0\<rparr>]"
  by (simp add: rebuild_chain_def RebuildState_def credit_def ensure_account_def update_account_def
      zero_account_def BlockReward_def CoinUnit_def)

lemma sample_stored_node: "stored_node sample_env (sample_ledger m)"
  using sample_chain_ok [of m]
  by (simp add: stored_node_def persisted_def holds_chain_def GetBlock_def GetLastIndex_def mem_ldb_def
      ParseUint_def digit_val_def)

section \<open>Mining on the sample node\<close>

text \<open>What the node selects and assembles passes its own validation, once the search result
  and the size are right.\<close>

lemma mining_progress:
  assumes "MineBlock_select lc = Ret (parent, txs, fees, lc1)"
    and "MineBlock_template parent txs now lc1 = (cur, block, lc2)"
    and "ValidatePoW (hex_encode (snd mined)) (ucast (blk_Difficulty block))"
    and "(of_nat (length (MarshalBlock (mined_block (lc_Engine lc2) block mined))) :: u64)
          \<le> MaxBlockSizeBytes"
    and "sint (blk_Timestamp parent) < 2 ^ 63 - 1" and "lc_Storage lc \<noteq> None"
  shows "\<exists>lc'. MineBlock E now mined lc = Ret lc' \<and>
    lc_Chain lc' = lc_Chain lc @ [mined_block (lc_Engine lc2) block mined]"
proof -
  let ?b = "mined_block (lc_Engine lc2) block mined"
  note s = select_keeps [OF assms(1)] and t = template_keeps [OF assms(2)]
  have later: "blk_Timestamp parent <s blk_Timestamp block"
  proof (cases "now \<le>s blk_Timestamp parent")
    case True
    have "sint (blk_Timestamp parent + 1) = sint (blk_Timestamp parent) + 1"
      using assms(5) sint_greater_eq [of "blk_Timestamp parent"]
      by (simp add: sint_word_ariths signed_take_bit_int_eq_self)
    moreover have "blk_Timestamp block = blk_Timestamp parent + 1"
      using True assms(2) by (auto simp: MineBlock_template_def Let_def)
    ultimately show ?thesis by (simp add: word_sless_alt)
  next
    case False
    then have "blk_Timestamp block = now"
      using assms(2) by (auto simp: MineBlock_template_def Let_def)
    with False show ?thesis by (simp add: signed.not_le)
  qed
  have fields: "blk_PrevHash block = blk_Hash parent" "blk_MaxSupply block = MaxSupply"
      "blk_HalvingInterval block = HalvingInterval"
    using assms(2) by (auto simp: MineBlock_template_def Let_def)
  have hash: "blk_Hash ?b = Some (snd mined)" by (simp add: mined_block_def)
  have money: "blk_MaxSupply ?b = MaxSupply" "blk_HalvingInterval ?b = HalvingInterval"
    using fields by (simp_all add: mined_block_def Mine_prepare_def Let_def)
  have "ValidateBlockConsensus ?b (Some parent) cur = None"
    unfolding validate_accepts_iff follows_def header_ok_def
    using assms(3,4) later fields hash money t(8-10) s(4,7) by simp
  moreover have "lc_Storage lc2 \<noteq> None" using assms(6) s(5) t(5) by simp
  ultimately show ?thesis
    using s(3) t(2)
    by (auto simp: MineBlock_def MineBlock_commit_def with_storage_def assms(1,2) Let_def)
qed

lemma select_one:
  assumes "PubkeyToAddress (elems (tx_SenderPubKey tx)) = Ret sender"
    and "\<not> sel_Bytes sel + of_nat (length (MarshalTransfer tx)) > MaxBlockSizeBytes"
    and "tx_Value tx + tx_Fee tx \<le> bal (sel_State sel) sender"
  shows "\<exists>St. bal St = pay tx sender (bal (sel_State sel)) \<and>
    select_txs (tx # txs) sel = select_txs txs \<lparr>sel_State = St,
      sel_Bytes = sel_Bytes sel + of_nat (length (MarshalTransfer tx)),
      sel_Fees = sel_Fees sel + tx_Fee tx, sel_Valid = sel_Valid sel @ [tx]\<rparr>"
proof -
  let ?St = "ensure_account sender (sel_State sel)" and ?cost = "tx_Value tx + tx_Fee tx"
  have the: "acc_Balance (the (?St sender)) = bal (sel_State sel) sender" by (simp add: bal_the)
  then have "\<not> acc_Balance (the (?St sender)) < ?cost" using assms(3) by simp
  moreover have "bal (let St1 = update_account sender (\<lambda>acc. acc
        \<lparr>acc_Balance := acc_Balance acc - ?cost, acc_Nonce := acc_Nonce acc + 1\<rparr>) ?St in
      case St1 (tx_Recipient tx) of None \<Rightarrow> St1(tx_Recipient tx \<mapsto>
          \<lparr>acc_Balance = tx_Value tx, acc_Nonce = 0\<rparr>)
      | Some _ \<Rightarrow> update_account (tx_Recipient tx) (\<lambda>acc. acc
          \<lparr>acc_Balance := acc_Balance acc + tx_Value tx\<rparr>) St1)
    = pay tx sender (bal (sel_State sel))"
    using assms(3) unfolding Let_def bal_credit_inline
    by (simp add: bal_update bal_the pay_def Let_def)
  ultimately show ?thesis
    using assms(1,2) by (subst select_txs.simps(2)) (auto simp: Let_def)
qed

lemma sample_select:
  "\<exists>lc1. MineBlock_select (sample_ledger [sample_tx]) = Ret (sample_block, [sample_tx], 2, lc1)"
proof -
  let ?sel = "\<lparr>sel_State = [alice \<mapsto> \<lparr>acc_Balance = BlockReward, acc_Nonce = 0\<rparr>],
      sel_Bytes = 512, sel_Fees = 0, sel_Valid = []\<rparr>"
  have "\<not> sel_Bytes ?sel + of_nat (length (MarshalTransfer sample_tx)) > MaxBlockSizeBytes"
    using sample_tx_size by (simp add: word_less_nat_alt unat_word_ariths unat_of_nat)
  moreover have "bal (sel_State ?sel) alice = BlockReward" by (simp add: bal_def)
  ultimately obtain St where St: "bal St = pay sample_tx alice (bal (sel_State ?sel))"
    and "select_txs [sample_tx] ?sel = Ret \<lparr>sel_State = St,
      sel_Bytes = 512 + of_nat (length (MarshalTransfer sample_tx)), sel_Fees = 2,
      sel_Valid = [sample_tx]\<rparr>"
    using select_one [of sample_tx alice ?sel "[]"] by (auto simp: BlockReward_def CoinUnit_def)
  then show ?thesis
    by (simp add: MineBlock_select_def DefaultConsensus_def)
qed

lemma sample_mined_accepts:
  assumes "MineBlock_template sample_block txs 150 lc1 = (cur, block, lc2)"
    and "(\<Sum>tx\<leftarrow>txs. length (MarshalTransfer tx) + 1) \<le> 10000"
    and "lc_MinerAddress lc1 = alice"
  shows "ValidatePoW (hex_encode (snd (7, [CHR 0x01]))) (ucast (blk_Difficulty block)) \<and>
    (of_nat (length (MarshalBlock (mined_block (lc_Engine lc2) block (7, [CHR 0x01])))) :: u64)
      \<le> MaxBlockSizeBytes"
proof
  have d: "CalculateNextDifficulty 100 150 1 = 1" by code_simp
  then have "blk_Difficulty block = 1"
    using assms(1) by (auto simp: MineBlock_template_def Let_def)
  then show "ValidatePoW (hex_encode (snd (7, [CHR 0x01]))) (ucast (blk_Difficulty block))"
    using sample_pow by simp
  let ?b = "mined_block (lc_Engine lc2) block (7, [CHR 0x01])"
  have "blk_PrevHash ?b = Some [CHR 0x01]" "blk_Hash ?b = Some [CHR 0x01]" "blk_Transfers ?b = Some txs"
    "blk_Miner ?b = alice" "blk_Message ?b = []"
    using assms(1,3) by (auto simp: mined_block_def MineBlock_template_def Let_def)
  then have "length (MarshalBlock ?b) \<le> 1000000"
    using length_MarshalBlock_le [of ?b] assms(2) by (simp add: alice_def)
  then show "(of_nat (length (MarshalBlock ?b)) :: u64) \<le> MaxBlockSizeBytes"
    by (rule small_length)
qed

lemma sample_mine:
  "\<exists>lc'. MineBlock sample_env 150 (7, [CHR 0x01]) (sample_ledger [sample_tx]) = Ret lc'
     \<and> length (lc_Chain lc') = 2"
proof -
  from sample_select obtain lc1
    where sel: "MineBlock_select (sample_ledger [sample_tx]) = Ret (sample_block, [sample_tx], 2, lc1)"
    by blast
  obtain cur block lc2 where tmp: "MineBlock_template sample_block [sample_tx] 150 lc1 = (cur, block, lc2)"
    by (cases "MineBlock_template sample_block [sample_tx] 150 lc1") auto
  have "ValidatePoW (hex_encode (snd (7, [CHR 0x01]))) (ucast (blk_Difficulty block))"
    and "(of_nat (length (MarshalBlock (mined_block (lc_Engine lc2) block (7, [CHR 0x01])))) :: u64)
      \<le> MaxBlockSizeBytes"
    using sample_mined_accepts [OF tmp] sample_tx_size select_keeps(4) [OF sel] by auto
  from mining_progress [OF sel tmp this, of sample_env] show ?thesis by auto
qed

section \<open>Mining\<close>

text \<open>C15. Mining makes progress: with a usable miner address, a chain and a store, what the
  node selects and assembles passes its own validation, so \<open>MineBlock\<close> returns a ledger one
  block longer, as soon as the search result meets the difficulty the node set, the block
  fits the size limit, and the parent's timestamp is not the last one.\<close>

theorem mining_succeeds:
  assumes "MineBlock_select lc = Ret (parent, txs, fees, lc1)"
    and "MineBlock_template parent txs now lc1 = (cur, block, lc2)"
    and "ValidatePoW (hex_encode (snd mined)) (ucast (blk_Difficulty block))"
    and "(of_nat (length (MarshalBlock (mined_block (lc_Engine lc2) block mined))) :: u64)
          \<le> MaxBlockSizeBytes"
    and "sint (blk_Timestamp parent) < 2 ^ 63 - 1" and "lc_Storage lc \<noteq> None"
  shows "\<exists>lc'. MineBlock E now mined lc = Ret lc' \<and>
    lc_Chain lc' = lc_Chain lc @ [mined_block (lc_Engine lc2) block mined]"
  using assms by (rule mining_progress)

theorem mining_succeeds_witness:
  "\<exists>lc'. MineBlock sample_env 150 (7, [CHR 0x01]) (sample_ledger [sample_tx]) = Ret lc'
     \<and> length (lc_Chain lc') = 2"
proof -
  from sample_select obtain lc1
    where sel: "MineBlock_select (sample_ledger [sample_tx]) = Ret (sample_block, [sample_tx], 2, lc1)"
    by blast
  obtain cur block lc2 where tmp: "MineBlock_template sample_block [sample_tx] 150 lc1 = (cur, block, lc2)"
    by (cases "MineBlock_template sample_block [sample_tx] 150 lc1") auto
  have "ValidatePoW (hex_encode (snd (7, [CHR 0x01]))) (ucast (blk_Difficulty block))"
    and "(of_nat (length (MarshalBlock (mined_block (lc_Engine lc2) block (7, [CHR 0x01])))) :: u64)
      \<le> MaxBlockSizeBytes"
    using sample_mined_accepts [OF tmp] sample_tx_size select_keeps(4) [OF sel] by auto
  from mining_succeeds [OF sel tmp this, of sample_env] show ?thesis by auto
qed

text \<open>C4. A call of \<open>MineBlock\<close> that nothing interrupts neither destroys nor forges coins: when no cost in
  the queue overflows 64 bits, and the coins held with the new reward fit in 64 bits, the accounts
  hold after the block what they held before, plus the reward of the new block.\<close>

theorem mining_conserves_coins:
  assumes "MineBlock E now mined lc = Ret lc'" and "finite (dom (lc_State lc))"
    and "\<forall>tx \<in> set (lc_Mempool lc). unat (tx_Value tx) + unat (tx_Fee tx) < 2 ^ 64"
    and "(\<Sum>a \<in> dom (lc_State lc). unat (bal (lc_State lc) a))
          + unat (blk_Reward (last (lc_Chain lc'))) < 2 ^ 64"
  shows "(\<Sum>a \<in> dom (lc_State lc'). unat (bal (lc_State lc') a)) =
    (\<Sum>a \<in> dom (lc_State lc). unat (bal (lc_State lc) a)) + unat (blk_Reward (last (lc_Chain lc')))"
  using MineBlock_coins [OF assms(1,2)] assms(3,4) unfolding coins_def cost_fits_def by blast

theorem mining_conserves_coins_witness:
  "\<exists>lc'. MineBlock sample_env 150 (7, [CHR 0x01]) (sample_ledger [sample_tx]) = Ret lc' \<and>
     (\<Sum>a \<in> dom (lc_State lc'). unat (bal (lc_State lc') a))
       = 5000000000 + unat (blk_Reward (last (lc_Chain lc')))"
proof -
  from sample_mine obtain lc'
    where mine: "MineBlock sample_env 150 (7, [CHR 0x01]) (sample_ledger [sample_tx]) = Ret lc'"
    and "length (lc_Chain lc') = 2" by blast
  let ?lc = "sample_ledger [sample_tx]"
  have bound: "unat (blk_Reward (last (lc_Chain lc'))) \<le> unat MaxSupply"
  proof -
    have "chain_ok (lc_Chain lc')" using MineBlock_chain_ok [OF sample_chain_ok mine] .
    then have "issued (lc_Chain lc') \<le> unat MaxSupply" and "lc_Chain lc' \<noteq> []"
      by (simp_all add: chain_ok_def)
    moreover have "unat (blk_Reward (last (lc_Chain lc'))) \<le> issued (lc_Chain lc')"
      using \<open>lc_Chain lc' \<noteq> []\<close> unfolding issued_def by (auto intro: member_le_sum_list)
    ultimately show ?thesis by simp
  qed
  have start: "(\<Sum>a \<in> dom (lc_State ?lc). unat (bal (lc_State ?lc) a)) = 5000000000"
    by (simp add: bal_def)
  have "(\<Sum>a \<in> dom (lc_State lc'). unat (bal (lc_State lc') a))
      = (\<Sum>a \<in> dom (lc_State ?lc). unat (bal (lc_State ?lc) a))
        + unat (blk_Reward (last (lc_Chain lc')))"
    by (rule mining_conserves_coins [OF mine]) (use bound start in simp_all)
  with mine start show ?thesis by auto
qed

text \<open>C34. The check that a sender can pay compares with a cost added in 64 bits. A transfer whose
  value and fee add up to zero there is taken from an account that holds nothing, and its
  recipient is credited the whole value.\<close>

theorem overflowing_cost_mints:
  assumes "PubkeyToAddress (elems (tx_SenderPubKey tx)) = Ret sender" and "sender \<noteq> tx_Recipient tx"
    and "tx_Value tx + tx_Fee tx = 0"
    and "length (MarshalTransfer tx) \<le> 1000000"
  shows "\<exists>sel. select_txs [tx] \<lparr>sel_State = St, sel_Bytes = 512, sel_Fees = 0, sel_Valid = []\<rparr> = Ret sel \<and>
    sel_Valid sel = [tx] \<and> bal (sel_State sel) sender = bal St sender \<and>
    bal (sel_State sel) (tx_Recipient tx) = bal St (tx_Recipient tx) + tx_Value tx"
proof -
  let ?sel = "\<lparr>sel_State = St, sel_Bytes = 512, sel_Fees = 0, sel_Valid = []\<rparr>"
  have "\<not> sel_Bytes ?sel + of_nat (length (MarshalTransfer tx)) > MaxBlockSizeBytes"
    using assms(4) by (simp add: word_less_nat_alt unat_word_ariths unat_of_nat)
  moreover have "tx_Value tx + tx_Fee tx \<le> bal (sel_State ?sel) sender" by (simp add: assms(3))
  ultimately obtain Su where "bal Su = pay tx sender (bal St)"
    and "select_txs [tx] ?sel = Ret \<lparr>sel_State = Su,
      sel_Bytes = 512 + of_nat (length (MarshalTransfer tx)), sel_Fees = tx_Fee tx, sel_Valid = [tx]\<rparr>"
    using select_one [OF assms(1), of ?sel "[]"] by auto
  then show ?thesis using assms(2,3) by (simp add: pay_def)
qed

theorem overflowing_cost_mints_witness:
  "\<exists>sel. select_txs [sample_tx\<lparr>tx_Value := 2 ^ 64 - 1, tx_Fee := 1\<rparr>]
      \<lparr>sel_State = Map.empty, sel_Bytes = 512, sel_Fees = 0, sel_Valid = []\<rparr> = Ret sel \<and>
    unat (bal (sel_State sel) ''xcoshbob'') = 2 ^ 64 - 1"
proof -
  let ?tx = "sample_tx\<lparr>tx_Value := 2 ^ 64 - 1, tx_Fee := 1\<rparr>"
  have "length (MarshalTransfer ?tx) \<le> 1000000"
    using length_MarshalTransfer_le [of ?tx] by (simp add: sample_tx_def alice_key_def)
  then show ?thesis
    using overflowing_cost_mints [of ?tx alice Map.empty] by (auto simp: alice_def bal_def)
qed

text \<open>Rebuilding the state from a block does not check that a sender can pay: one that
  cannot is set to zero, and its recipient is credited the value all the same.\<close>

theorem rebuild_credits_unfunded:
  assumes "PubkeyToAddress (elems (tx_SenderPubKey tx)) = Ret sender" and "sender \<noteq> tx_Recipient tx"
    and "bal St sender < tx_Value tx + tx_Fee tx"
  shows "\<exists>St'. rebuild_tx tx St = Ret St' \<and> bal St' sender = 0 \<and>
    bal St' (tx_Recipient tx) = bal St (tx_Recipient tx) + tx_Value tx"
  using rebuild_tx_bal [OF assms(1), of St] assms(2,3) by (auto simp: pay_def Let_def)

theorem rebuild_credits_unfunded_witness:
  "\<exists>St'. rebuild_tx sample_tx Map.empty = Ret St' \<and> bal St' alice = 0 \<and> bal St' ''xcoshbob'' = 10"
  using rebuild_credits_unfunded [of sample_tx alice Map.empty] by (simp add: alice_def bal_def)

section \<open>Every state a node reaches\<close>

lemma fresh_chain_ok:
  assumes "GetLastIndex (ne_ldb E) d = None"
    and "InitializeLedger E (\<lambda>_. Some d) mined path difficulty miner = Ret lc"
  shows "chain_ok (lc_Chain lc)"
  using assms(2) unfolding InitializeLedger_empty [OF assms(1)]
  by (rule SpawnGenesis_chain_ok) simp

lemma fresh_state:
  assumes "GetLastIndex (ne_ldb E) d = None"
    and "InitializeLedger E (\<lambda>_. Some d) mined path difficulty miner = Ret lc"
  shows "balances_agree lc" and "lc_MinerAddress lc = miner"
proof -
  note sp = assms(2) [unfolded InitializeLedger_empty [OF assms(1)]]
  from SpawnGenesis_Ret [OF sp] show "balances_agree lc"
    by (simp add: balances_agree_def rebuild_chain_def RebuildState_def genesis_template_def
        Mine_prepare_def Let_def)
  from sp show "lc_MinerAddress lc = miner"
    by (auto simp: SpawnGenesis_def with_storage_def Let_def)
qed

lemma fresh_stored:
  assumes "level_db (ne_ldb E)" and "fst (SaveBlock (ne_ldb E) 0 (MarshalBlock (hd (lc_Chain lc))) d) = None"
    and "GetLastIndex (ne_ldb E) d = None"
    and "InitializeLedger E (\<lambda>_. Some d) mined path difficulty miner = Ret lc"
  shows "stored_node E lc"
  using assms(4) unfolding InitializeLedger_empty [OF assms(3)]
  by (rule SpawnGenesis_stored [OF assms(1,2)]) simp_all

lemma fresh_stored_exactly:
  assumes "level_db (ne_ldb E)" and "fst (SaveBlock (ne_ldb E) 0 (MarshalBlock (hd (lc_Chain lc))) d) = None"
    and "GetLastIndex (ne_ldb E) d = None" and "\<forall>h. GetBlock (ne_ldb E) h d = None"
    and "InitializeLedger E (\<lambda>_. Some d) mined path difficulty miner = Ret lc"
  shows "stored_exactly E lc"
proof -
  note sp = assms(5) [unfolded InitializeLedger_empty [OF assms(3)]]
  from sp obtain d' where save: "SaveBlock (ne_ldb E) 0 (MarshalBlock (hd (lc_Chain lc))) d = (None, d')"
    and d': "lc_Storage lc = Some d'"
    using assms(2) by (auto simp: SpawnGenesis_def with_storage_def Let_def prod_eq_iff)
  have "lc_Chain lc \<noteq> []" using fresh_chain_ok [OF assms(3,5)] by (simp add: chain_ok_def)
  then have "h \<noteq> 0" if "length (lc_Chain lc) \<le> unat h" for h :: u64 using that by auto
  then show ?thesis
    using fresh_stored [OF assms(1-3,5)] assms(4) d'
    by (auto simp: stored_exactly_def index_store.load_save [OF level_db.database_contract [OF assms(1)] save])
qed

lemma sample_fresh:
  "\<exists>lc. InitializeLedger sample_env (\<lambda>_. Some []) (0, [CHR 0x01]) path 1 alice = Ret lc"
  by (subst InitializeLedger_empty) (simp_all add: GetLastIndex_def mem_ldb_def SpawnGenesis_def
      with_storage_def Let_def)

definition good_hash :: bytes where "good_hash = the (hex_decode ExpectedGenesisHash)"

lemma good_hash: "hex_encode good_hash = ExpectedGenesisHash"
  by code_simp

definition sample_genesis :: "bytes \<Rightarrow> LedgerBlock" where
  "sample_genesis h = (Mine_prepare (NewConsensusEngine 1) (genesis_template (NewConsensusEngine 1)))
     \<lparr>blk_Nonce := 0, blk_Hash := Some h, blk_Reward := node_CalculateBlockReward 0\<rparr>"

lemma sample_genesis_valid: "valid_texts (sample_genesis h)"
proof -
  have "\<forall>c \<in> set pszTimestamp \<union> set ''SYSTEM_GENESIS''. (of_char c :: nat) < 0x80" by code_simp
  then show ?thesis
    by (simp add: valid_texts_def sample_genesis_def genesis_template_def Mine_prepare_def Let_def
        valid_utf8_ascii)
qed

lemma sample_env_empty: "GetLastIndex (ne_ldb sample_env) [] = None"
  by (simp add: GetLastIndex_def mem_ldb_def)

lemma genesis_node:
  "\<exists>lc d. InitializeLedger sample_env (\<lambda>_. Some []) (0, h) path 1 alice = Ret lc \<and>
     lc_Chain lc = [sample_genesis h] \<and> lc_Storage lc = Some d"
  by (subst InitializeLedger_empty [OF sample_env_empty])
    (simp add: SpawnGenesis_def with_storage_def Let_def sample_genesis_def)

text \<open>A node started on an empty store that mines a block without transfers.\<close>

lemma mine_after_genesis:
  assumes chain: "lc_Chain lc0 = [g]" "lc_Mempool lc0 = []" "lc_Storage lc0 = Some d" "lc_MinerAddress lc0 = alice"
    and g: "blk_Timestamp g = genesisTimestamp" "length (elems (blk_Hash g)) \<le> 32"
    and pow: "ValidatePoW ''01'' (ucast (ucast (CalculateNextDifficulty genesisTimestamp
      (genesisTimestamp + 50) (ucast (blk_Difficulty g))) :: u32))"
  shows "\<exists>lc. MineBlock E (genesisTimestamp + 50) (7, [CHR 0x01]) lc0 = Ret lc \<and> length (lc_Chain lc) = 2"
proof -
  let ?now = "genesisTimestamp + 50"
  have sel: "MineBlock_select lc0 = Ret (g, [], 0, lc0)"
    by (simp add: MineBlock_select_def DefaultConsensus_def chain AddressPrefix_def
        alice_prefix(1) [unfolded AddressPrefix_def])
  obtain cur block lc2 where tmp: "MineBlock_template g [] ?now lc0 = (cur, block, lc2)"
    by (cases "MineBlock_template g [] ?now lc0") auto
  have later: "\<not> ?now \<le>s genesisTimestamp" by (simp add: genesisTimestamp_def word_sle_eq)
  have hex: "hex_encode [CHR 0x01] = ''01''" by code_simp
  have "blk_Difficulty block = ucast (CalculateNextDifficulty genesisTimestamp ?now (ucast (blk_Difficulty g)))"
    using tmp later g by (auto simp: MineBlock_template_def Let_def)
  then have pow': "ValidatePoW (hex_encode (snd (7, [CHR 0x01]))) (ucast (blk_Difficulty block))"
    using pow hex by simp
  let ?b = "mined_block (lc_Engine lc2) block (7, [CHR 0x01])"
  have "blk_PrevHash ?b = blk_Hash g" "blk_Hash ?b = Some [CHR 0x01]" "blk_Transfers ?b = Some []"
    "blk_Miner ?b = alice" "blk_Message ?b = []"
    using tmp chain g by (auto simp: mined_block_def MineBlock_template_def Let_def)
  then have "length (MarshalBlock ?b) \<le> 1000000"
    using length_MarshalBlock_le [of ?b] g(2) by (simp add: alice_def)
  from mining_progress [OF sel tmp pow' small_length [OF this], of E] chain g(1)
  show ?thesis by (auto simp: genesisTimestamp_def)
qed

lemma genesis_run:
  "\<exists>lc0 lc. InitializeLedger sample_env (\<lambda>_. Some []) (0, [CHR 0x01]) [] 1 alice = Ret lc0 \<and>
     clean_step sample_env lc0 lc \<and> length (lc_Chain lc) = 2"
proof -
  from genesis_node [of "[CHR 0x01]" "[]"] obtain lc0 d
    where lc0: "InitializeLedger sample_env (\<lambda>_. Some []) (0, [CHR 0x01]) [] 1 alice = Ret lc0"
      "lc_Chain lc0 = [sample_genesis [CHR 0x01]]" "lc_Storage lc0 = Some d" by blast
  have miner: "lc_MinerAddress lc0 = alice" and q: "lc_Mempool lc0 = []"
    using lc0(1) by (auto simp: InitializeLedger_empty [OF sample_env_empty] SpawnGenesis_def
        with_storage_def Let_def)
  have "blk_Timestamp (sample_genesis h) = genesisTimestamp" "blk_Difficulty (sample_genesis h) = 1"
      "blk_Hash (sample_genesis h) = Some h" for h
    by (simp_all add: sample_genesis_def genesis_template_def Mine_prepare_def NewConsensusEngine_def Let_def)
  note g = this
  have "ValidatePoW ''01'' (ucast (ucast (CalculateNextDifficulty genesisTimestamp
      (genesisTimestamp + 50) 1) :: u32))" by code_simp
  then obtain lc where "MineBlock sample_env (genesisTimestamp + 50) (7, [CHR 0x01]) lc0 = Ret lc"
    and "length (lc_Chain lc) = 2"
    using mine_after_genesis [OF lc0(2) q lc0(3) miner g(1), of sample_env] by (auto simp: g(2,3))
  then show ?thesis
    using lc0(1) ledger_step.mine reliable_writes [OF sample_env_laws(2)] by (fastforce simp: clean_step_def)
qed

text \<open>C1. From a node started on an empty store, through any run of mining, appending blocks,
  rolling back, queueing and reloading the queue: the chain is never empty, the block at each
  position carries that position as its height, each block follows the one before it (later
  timestamp, the parent's hash), and the supply the code adds up is the sum of the rewards
  and within the cap.\<close>

theorem runs_keep_chain:
  assumes "GetLastIndex (ne_ldb E) d = None"
    and "InitializeLedger E (\<lambda>_. Some d) mined path difficulty miner = Ret lc0"
    and "(ledger_step E)\<^sup>*\<^sup>* lc0 lc"
  shows "lc_Chain lc \<noteq> [] \<and>
    (\<forall>i < length (lc_Chain lc). blk_Index (lc_Chain lc ! i) = of_nat i) \<and>
    (\<forall>i. Suc i < length (lc_Chain lc) \<longrightarrow>
       blk_Timestamp (lc_Chain lc ! i) <s blk_Timestamp (lc_Chain lc ! Suc i) \<and>
       elems (blk_PrevHash (lc_Chain lc ! Suc i)) = elems (blk_Hash (lc_Chain lc ! i))) \<and>
    unat (GetTotalCirculatingSupply lc) = sum_list (map (\<lambda>b. unat (blk_Reward b)) (lc_Chain lc)) \<and>
    GetTotalCirculatingSupply lc \<le> MaxSupply"
proof -
  have ok: "chain_ok (lc_Chain lc)"
    by (rule chain_run.run_keeps [OF assms(3) fresh_chain_ok [OF assms(1,2)]])
  then have "unat (GetTotalCirculatingSupply lc) = issued (lc_Chain lc)"
    by (simp add: unat_supply chain_ok_def)
  moreover have "follows (lc_Chain lc ! Suc i) (Some (lc_Chain lc ! i))"
    if "Suc i < length (lc_Chain lc)" for i
    using ok that by (simp add: chain_ok_def linked_nth)
  ultimately show ?thesis
    using ok chain_index [OF ok] by (simp add: chain_ok_def issued_def follows_def word_le_nat_alt)
qed

theorem runs_keep_chain_witness:
  "\<exists>lc0 lc. InitializeLedger sample_env (\<lambda>_. Some []) (0, [CHR 0x01]) [] 1 alice = Ret lc0 \<and>
     ledger_step sample_env lc0 lc \<and> length (lc_Chain lc) = 2 \<and> blk_Index (lc_Chain lc ! 1) = 1 \<and>
     GetTotalCirculatingSupply lc \<le> MaxSupply"
proof -
  from genesis_run obtain lc0 lc
    where lc0: "InitializeLedger sample_env (\<lambda>_. Some []) (0, [CHR 0x01]) [] 1 alice = Ret lc0"
      and step: "ledger_step sample_env lc0 lc" and two: "length (lc_Chain lc) = 2"
    by (auto simp: clean_step_def)
  from runs_keep_chain [OF sample_env_empty lc0 r_into_rtranclp [where r = "ledger_step sample_env", OF step]]
    lc0 step two
  show ?thesis by fastforce
qed

text \<open>C2. In every state of such a run, as long as the node's miner is not the genesis account and no save
  or delete of a block in the store has failed, the balances the node keeps are the balances
  rebuilt from its own chain. (Blocks of the genesis account are paid by the one and not by the
  other, and a rollback whose delete fails is left half done.)\<close>

theorem runs_keep_balances:
  assumes "GetLastIndex (ne_ldb E) d = None"
    and "miner \<noteq> ''SYSTEM_GENESIS''"
    and "InitializeLedger E (\<lambda>_. Some d) mined path difficulty miner = Ret lc0"
    and "(clean_step E)\<^sup>*\<^sup>* lc0 lc"
  shows "\<exists>St. rebuild_chain (lc_Chain lc) = Ret St \<and>
    (\<forall>a. (case St a of None \<Rightarrow> 0 | Some acc \<Rightarrow> acc_Balance acc)
       = (case lc_State lc a of None \<Rightarrow> 0 | Some acc \<Rightarrow> acc_Balance acc))"
proof -
  have "honest_state lc0" using fresh_state [OF assms(1,3)] assms(2) by (simp add: honest_state_def)
  then have "honest_state lc" using balance_run.run_keeps [OF assms(4)] by blast
  then show ?thesis by (auto simp: honest_state_def balances_agree_def bal_def fun_eq_iff)
qed

theorem runs_keep_balances_witness:
  "\<exists>lc0 lc St. InitializeLedger sample_env (\<lambda>_. Some []) (0, [CHR 0x01]) [] 1 alice = Ret lc0 \<and>
     clean_step sample_env lc0 lc \<and> length (lc_Chain lc) = 2 \<and> rebuild_chain (lc_Chain lc) = Ret St"
proof -
  from genesis_run obtain lc0 lc
    where lc0: "InitializeLedger sample_env (\<lambda>_. Some []) (0, [CHR 0x01]) [] 1 alice = Ret lc0"
      and step: "clean_step sample_env lc0 lc" and two: "length (lc_Chain lc) = 2" by blast
  from runs_keep_balances [OF sample_env_empty alice_prefix(2) lc0
      r_into_rtranclp [where r = "clean_step sample_env", OF step]] lc0 step two
  show ?thesis by blast
qed

text \<open>C3. Over a LevelDB that keeps its laws, from an empty store and as long as no save or delete of a
  block fails, the store holds the node's own chain and no other block in every such state: at each
  height of the chain the encoding of its block, at every other height nothing, and the height of
  the last block as the tip.\<close>

theorem runs_keep_store:
  assumes "level_db (ne_ldb E)" and "GetLastIndex (ne_ldb E) d = None" and "\<forall>h. GetBlock (ne_ldb E) h d = None"
    and "InitializeLedger E (\<lambda>_. Some d) mined path difficulty miner = Ret lc0"
    and "fst (SaveBlock (ne_ldb E) 0 (MarshalBlock (hd (lc_Chain lc0))) d) = None"
    and "(clean_step E)\<^sup>*\<^sup>* lc0 lc"
  shows "\<exists>d'. lc_Storage lc = Some d' \<and>
    (\<forall>h. GetBlock (ne_ldb E) h d' =
       (if unat h < length (lc_Chain lc) then Some (MarshalBlock (lc_Chain lc ! unat h)) else None)) \<and>
    GetLastIndex (ne_ldb E) d' = Some (blk_Index (last (lc_Chain lc)))"
proof -
  have exact: "stored_exactly E lc"
    using store_run.run_keeps [OF assms(6)] fresh_stored_exactly [OF assms(1,5,2-4)] assms(1) by blast
  then have node: "stored_node E lc" by (simp add: stored_exactly_def)
  then obtain d' where d': "lc_Storage lc = Some d'"
    and h: "holds_chain (GetBlock (ne_ldb E)) (GetLastIndex (ne_ldb E)) d' (map MarshalBlock (lc_Chain lc))"
    by (auto simp: stored_node_def persisted_def)
  have ok: "chain_ok (lc_Chain lc)" using node by (simp add: stored_node_def)
  then have ne: "lc_Chain lc \<noteq> []" by (simp add: chain_ok_def)
  then have "blk_Index (last (lc_Chain lc)) = of_nat (length (lc_Chain lc) - 1)"
    using chain_index [OF ok, of "length (lc_Chain lc) - 1"] by (simp add: last_conv_nth)
  moreover have "GetBlock (ne_ldb E) k d' = Some (MarshalBlock (lc_Chain lc ! unat k))"
    if "unat k < length (lc_Chain lc)" for k
    using h that by (auto simp: holds_chain_def dest: spec [of _ "unat k"])
  ultimately show ?thesis
    using h ne exact d' by (auto simp: stored_exactly_def holds_chain_def not_less)
qed

theorem runs_keep_store_witness:
  "\<exists>lc0 lc d'. InitializeLedger sample_env (\<lambda>_. Some []) (0, [CHR 0x01]) [] 1 alice = Ret lc0 \<and>
     clean_step sample_env lc0 lc \<and> length (lc_Chain lc) = 2 \<and> lc_Storage lc = Some d' \<and>
     GetBlock mem_ldb 1 d' = Some (MarshalBlock (lc_Chain lc ! 1)) \<and> GetBlock mem_ldb 2 d' = None"
proof -
  from genesis_run obtain lc0 lc
    where lc0: "InitializeLedger sample_env (\<lambda>_. Some []) (0, [CHR 0x01]) [] 1 alice = Ret lc0"
      and step: "clean_step sample_env lc0 lc" and two: "length (lc_Chain lc) = 2" by blast
  have none: "\<forall>h. GetBlock (ne_ldb sample_env) h [] = None" by (simp add: GetBlock_def mem_ldb_def)
  from runs_keep_store [OF sample_env_laws(1) sample_env_empty none lc0
      reliable_SaveBlock [OF sample_env_laws(2)] r_into_rtranclp [where r = "clean_step sample_env", OF step]]
    lc0 step two
  show ?thesis by fastforce
qed

section \<open>Restarts\<close>

text \<open>C11. A node whose store holds its chain, whose texts are UTF-8 (others do not survive the
  encoding), whose first block is the configured genesis, and whose first hash is the hardcoded one
  comes back from a restart with the same chain and the balances of that chain, an empty queue, and
  the start-up difficulty; with any other first hash the restart panics at the checkpoint.\<close>

theorem restart_restores:
  assumes "stored_node E lc" and "lc_Storage lc = Some d"
    and "\<forall>b \<in> set (lc_Chain lc). valid_texts b"
    and "genesis_matches (hd (lc_Chain lc))" and "rebuild_chain (lc_Chain lc) = Ret St"
  shows "InitializeLedger E (\<lambda>_. Some d) mined path difficulty miner =
    (if hex_encode (elems (blk_Hash (hd (lc_Chain lc)))) = ExpectedGenesisHash
     then Ret \<lparr>lc_Chain = lc_Chain lc, lc_State = St, lc_Mempool = [],
       lc_Engine = NewConsensusEngine (if difficulty = 0 then 1 else difficulty),
       lc_MinerAddress = miner, lc_Storage = Some d\<rparr>
     else Panic ''[FATAL CONSENSUS PANIC] checkpoint'')"
  using assms InitializeLedger_stored [OF assms(1,4,2)] by (simp add: stored_chain_valid)

theorem restart_restores_witness:
  "\<exists>d. InitializeLedger sample_env (\<lambda>_. Some d) (0, []) [] 3 alice =
     Ret \<lparr>lc_Chain = [sample_genesis good_hash], lc_State = Map.empty, lc_Mempool = [],
       lc_Engine = NewConsensusEngine 3, lc_MinerAddress = alice, lc_Storage = Some d\<rparr>"
proof -
  from genesis_node [of good_hash] obtain lc d
    where lc: "InitializeLedger sample_env (\<lambda>_. Some []) (0, good_hash) [] 1 alice = Ret lc"
      "lc_Chain lc = [sample_genesis good_hash]" "lc_Storage lc = Some d" by blast
  have node: "stored_node sample_env lc"
    by (rule fresh_stored [OF sample_env_laws(1) reliable_SaveBlock [OF sample_env_laws(2)] sample_env_empty lc(1)])
  have gen: "genesis_matches (hd (lc_Chain lc))"
    using genesis_block_matches by (simp add: lc(2) sample_genesis_def)
  have St: "rebuild_chain (lc_Chain lc) = Ret Map.empty"
    by (simp add: lc(2) rebuild_chain_def RebuildState_def sample_genesis_def genesis_template_def
        Mine_prepare_def Let_def)
  have dec: "\<forall>b \<in> set (lc_Chain lc). valid_texts b"
    by (simp add: lc(2) sample_genesis_valid)
  have "elems (blk_Hash (hd (lc_Chain lc))) = good_hash" by (simp add: lc(2) sample_genesis_def)
  with restart_restores [OF node lc(3) dec gen St, of "(0, [])" "[]" 3 alice] good_hash
  show ?thesis by (auto simp: lc(2))
qed

text \<open>Nothing compares a freshly mined genesis block with the checkpoint, but every restart
  does: a node that starts on an empty store and is restarted on what it stored comes back
  only when its search happened on the hardcoded hash, and panics otherwise.\<close>

theorem fresh_genesis_restart:
  assumes "level_db (ne_ldb E)" and "reliable (ne_ldb E)" and "GetLastIndex (ne_ldb E) d = None"
    and "InitializeLedger E (\<lambda>_. Some d) mined path difficulty miner = Ret lc"
    and "lc_Storage lc = Some d'" and "\<forall>b \<in> set (lc_Chain lc). valid_texts b"
  shows "InitializeLedger E (\<lambda>_. Some d') mined' path difficulty miner =
    (if hex_encode (snd mined) = ExpectedGenesisHash then Ret lc
     else Panic ''[FATAL CONSENSUS PANIC] checkpoint'')"
proof -
  let ?engine = "NewConsensusEngine (if difficulty = 0 then 1 else difficulty)"
  let ?g = "(Mine_prepare ?engine (genesis_template ?engine))\<lparr>blk_Nonce := fst mined,
      blk_Hash := Some (snd mined), blk_Reward := node_CalculateBlockReward 0\<rparr>"
  have lc: "lc = \<lparr>lc_Chain = [?g], lc_State = Map.empty, lc_Mempool = [], lc_Engine = ?engine,
      lc_MinerAddress = miner, lc_Storage = Some d'\<rparr>"
    using assms(4,5) unfolding InitializeLedger_empty [OF assms(3)]
    by (auto simp: SpawnGenesis_def with_storage_def Let_def)
  have "rebuild_chain (lc_Chain lc) = Ret Map.empty"
    by (simp add: lc rebuild_chain_def RebuildState_def genesis_template_def Mine_prepare_def Let_def)
  moreover have "genesis_matches (hd (lc_Chain lc))" by (simp add: lc genesis_block_matches)
  ultimately show ?thesis
    using InitializeLedger_stored [OF fresh_stored [OF assms(1) reliable_SaveBlock [OF assms(2)] assms(3,4)] _ assms(5)]
      assms(6)
    by (simp add: stored_chain_valid lc)
qed

theorem fresh_genesis_restart_witness:
  "\<exists>d. InitializeLedger sample_env (\<lambda>_. Some d) (0, []) [] 1 alice
     = Panic ''[FATAL CONSENSUS PANIC] checkpoint''"
proof -
  from genesis_node [of "[CHR 0x01]"] obtain lc d
    where lc: "InitializeLedger sample_env (\<lambda>_. Some []) (0, [CHR 0x01]) [] 1 alice = Ret lc"
      "lc_Chain lc = [sample_genesis [CHR 0x01]]" "lc_Storage lc = Some d" by blast
  have "hex_encode [CHR 0x01] \<noteq> ExpectedGenesisHash" by code_simp
  moreover have "\<forall>b \<in> set (lc_Chain lc). valid_texts b"
    by (simp add: lc(2) sample_genesis_valid)
  ultimately show ?thesis
    using fresh_genesis_restart [OF sample_env_laws(1,2) sample_env_empty lc(1) lc(3)] by auto
qed

section \<open>The queue and the block\<close>

text \<open>C17. A transfer enters the queue only when its recipient has the address prefix and its
  signature verifies; then the queue holds what it held and the transfer, highest fee first,
  and no balance changes. Otherwise the ledger is as it was.\<close>

theorem mempool_admission:
  assumes "sort_slice (ne_sort E)" and "AddToMempool E tx lc = Ret (r, lc')"
  shows "r = (HasPrefix (tx_Recipient tx) ''xcosh'' \<and> Transfer_Verify (ne_crypto E) tx) \<and>
    (if r then mset (lc_Mempool lc') = add_mset tx (mset (lc_Mempool lc)) \<and>
       sorted_wrt (\<lambda>s t. tx_Fee t \<le> tx_Fee s) (lc_Mempool lc') \<and>
       bal (lc_State lc') = bal (lc_State lc)
     else lc' = lc)"
proof -
  have "r = (HasPrefix (tx_Recipient tx) ''xcosh'' \<and> Transfer_Verify (ne_crypto E) tx)"
    using assms(2) by (auto simp: AddToMempool_def Let_def DefaultConsensus_def AddressPrefix_def
        obind_Ret_iff split: if_splits)
  then show ?thesis
    using assms AddToMempool_queue [OF assms(1)] AddToMempool_rejects AddToMempool_bal(1)
    by (cases r) (auto simp: by_fee_def)
qed

theorem mempool_admission_witness:
  "\<exists>lc'. AddToMempool sample_env sample_tx (sample_ledger [sample_tx\<lparr>tx_Fee := 1\<rparr>]) = Ret (True, lc')
     \<and> mset (lc_Mempool lc') = {#sample_tx, sample_tx\<lparr>tx_Fee := 1\<rparr>#}"
proof -
  have "PayloadBytes sample_tx = elems (tx_Signature sample_tx)" by code_simp
  then have "Transfer_Verify sample_lib sample_tx" by (simp add: Transfer_Verify_def crypto_defs)
  then obtain lc' where lc': "AddToMempool sample_env sample_tx (sample_ledger [sample_tx\<lparr>tx_Fee := 1\<rparr>]) = Ret (True, lc')"
    by (auto simp: AddToMempool_def DefaultConsensus_def AddressPrefix_def HasPrefix_def Let_def)
  with mempool_admission [OF sample_env_laws(3) lc'] show ?thesis by auto
qed

text \<open>What the selection loop takes is a subsequence of the queue, and its sizes stay within the
  limit the code checks before each one.\<close>

lemma select_txs_sizes:
  assumes "select_txs txs sel = Ret sel'" and "\<forall>tx \<in> set txs. length (MarshalTransfer tx) < 2 ^ 63"
    and "unat (sel_Bytes sel) \<le> 4194304"
  shows "\<exists>added. sel_Valid sel' = sel_Valid sel @ added \<and> subseq added txs \<and>
    unat (sel_Bytes sel) + (\<Sum>tx\<leftarrow>added. length (MarshalTransfer tx)) \<le> 4194304"
  using assms
proof (induction txs arbitrary: sel)
  case Nil
  then show ?case by simp
next
  case (Cons tx txs)
  let ?n = "length (MarshalTransfer tx)"
  show ?case
  proof (cases "sel_Bytes sel + of_nat ?n > MaxBlockSizeBytes")
    case True
    with Cons.prems show ?thesis by (intro exI [of _ "[]"]) (simp add: select_txs.simps(2))
  next
    case False
    have "unat (sel_Bytes sel + of_nat ?n) = unat (sel_Bytes sel) + ?n"
      using Cons.prems(2,3) by (simp add: unat_word_ariths unat_of_nat)
    with False have fits: "unat (sel_Bytes sel) + ?n \<le> 4194304"
      and n: "unat (sel_Bytes sel + of_nat ?n) = unat (sel_Bytes sel) + ?n"
      by (simp_all add: word_less_nat_alt)
    from False Cons.prems(1) obtain sender St St' where
      "select_txs txs (sel\<lparr>sel_State := St\<rparr>) = Ret sel' \<or>
       select_txs txs \<lparr>sel_State = St', sel_Bytes = sel_Bytes sel + of_nat ?n,
         sel_Fees = sel_Fees sel + tx_Fee tx, sel_Valid = sel_Valid sel @ [tx]\<rparr> = Ret sel'"
      by (auto simp: select_txs.simps(2) Let_def obind_Ret_iff split: if_splits)
    then show ?thesis
    proof
      assume "select_txs txs (sel\<lparr>sel_State := St\<rparr>) = Ret sel'"
      from Cons.IH [OF this] Cons.prems(2,3) show ?thesis by auto
    next
      assume "select_txs txs \<lparr>sel_State = St', sel_Bytes = sel_Bytes sel + of_nat ?n,
         sel_Fees = sel_Fees sel + tx_Fee tx, sel_Valid = sel_Valid sel @ [tx]\<rparr> = Ret sel'"
      from Cons.IH [OF this] Cons.prems(2) fits n obtain added
        where "sel_Valid sel' = sel_Valid sel @ tx # added" and "subseq added txs"
          and "unat (sel_Bytes sel) + ?n + (\<Sum>tx\<leftarrow>added. length (MarshalTransfer tx)) \<le> 4194304"
        by auto
      then show ?thesis by (intro exI [of _ "tx # added"]) simp
    qed
  qed
qed

lemma select_parts:
  assumes "MineBlock_select lc = Ret (parent, txs, fees, lc1)"
  shows "lc_Mempool lc1 = drop (length txs) (lc_Mempool lc)"
    and "lc_Mempool lc \<noteq> [] \<Longrightarrow> \<exists>sel. select_txs (lc_Mempool lc)
      \<lparr>sel_State = lc_State lc, sel_Bytes = 512, sel_Fees = 0, sel_Valid = []\<rparr> = Ret sel \<and>
      txs = sel_Valid sel"
    and "lc_Mempool lc = [] \<Longrightarrow> txs = []"
  using assms by (auto simp: MineBlock_select_def Let_def obind_Ret_iff split: if_splits)

text \<open>C18. What a block takes from the queue is a subsequence of it, in its order, whose encodings
  fit in four megabytes less the 512 bytes set aside for the header; and the queue afterwards
  is the old one without as many transfers from its front as were taken.\<close>

theorem selection_bounds:
  assumes "MineBlock_select lc = Ret (parent, txs, fees, lc1)"
    and "\<forall>tx \<in> set (lc_Mempool lc). length (MarshalTransfer tx) < 2 ^ 63"
  shows "subseq txs (lc_Mempool lc) \<and>
    512 + (\<Sum>tx\<leftarrow>txs. length (MarshalTransfer tx)) \<le> unat MaxBlockSizeBytes \<and>
    lc_Mempool lc1 = drop (length txs) (lc_Mempool lc)"
proof (cases "lc_Mempool lc = []")
  case True
  with select_parts [OF assms(1)] show ?thesis by simp
next
  case False
  from select_parts(2) [OF assms(1) False] obtain sel where
    "select_txs (lc_Mempool lc) \<lparr>sel_State = lc_State lc, sel_Bytes = 512, sel_Fees = 0,
       sel_Valid = []\<rparr> = Ret sel" and "txs = sel_Valid sel" by blast
  from select_txs_sizes [OF this(1) assms(2)] this(2) select_parts(1) [OF assms(1)] show ?thesis
    by auto
qed

theorem selection_bounds_witness:
  "\<exists>lc1. MineBlock_select (sample_ledger [sample_tx]) = Ret (sample_block, [sample_tx], 2, lc1)
     \<and> lc_Mempool lc1 = []"
proof -
  from sample_select obtain lc1
    where sel: "MineBlock_select (sample_ledger [sample_tx]) = Ret (sample_block, [sample_tx], 2, lc1)"
    by blast
  have "\<forall>tx \<in> set (lc_Mempool (sample_ledger [sample_tx])). length (MarshalTransfer tx) < 2 ^ 63"
    using sample_tx_size by simp
  from selection_bounds [OF sel this] sel show ?thesis by simp
qed

lemma select_skip:
  assumes "PubkeyToAddress (elems (tx_SenderPubKey tx)) = Ret sender"
    and "\<not> sel_Bytes sel + of_nat (length (MarshalTransfer tx)) > MaxBlockSizeBytes"
    and "bal (sel_State sel) sender < tx_Value tx + tx_Fee tx"
  shows "select_txs (tx # txs) sel
    = select_txs txs (sel\<lparr>sel_State := ensure_account sender (sel_State sel)\<rparr>)"
  using assms by (subst select_txs.simps(2)) (simp add: Let_def bal_the)

lemma select_start_fits:
  "length (MarshalTransfer tx) \<le> 1000000 \<Longrightarrow>
     \<not> 512 + of_nat (length (MarshalTransfer tx)) > MaxBlockSizeBytes"
  by (simp add: word_less_nat_alt unat_word_ariths unat_of_nat)

lemma select_txs_subseq:
  assumes "select_txs txs sel = Ret sel'"
  shows "\<exists>added. sel_Valid sel' = sel_Valid sel @ added \<and> subseq added txs"
  using assms
proof (induction txs arbitrary: sel)
  case (Cons tx txs)
  from Cons.prems show ?case
  proof (cases rule: select_txs_cases)
    case stop
    then show ?thesis by (intro exI [of _ "[]"]) simp
  next
    case (skip sender)
    from Cons.IH [OF skip(3)] show ?thesis by auto
  next
    case (take sender St n)
    from Cons.IH [OF take(5)] obtain added
      where "sel_Valid sel' = sel_Valid sel @ tx # added" "subseq added txs" by auto
    then show ?thesis by (intro exI [of _ "tx # added"]) simp
  qed
qed simp

lemma subseq_mset: "subseq xs ys \<Longrightarrow> mset xs \<subseteq># mset ys"
  by (induction rule: list_emb.induct) (auto intro: subset_mset.order_trans)

text \<open>C33. Taking as many transfers off the front of the queue as were mined loses the wrong ones
  when the first was skipped: if the first transfer of the queue cannot be paid and any of those
  behind it are mined, the unpayable one is dropped, and of the others one too few is taken off, so
  what is left is more than the transfers that were not mined: a mined one stays in the queue.\<close>

theorem mined_transfer_stays_queued:
  assumes "MineBlock_select lc = Ret (parent, txs, fees, lc1)" and "lc_Mempool lc = bad # rest"
    and "PubkeyToAddress (elems (tx_SenderPubKey bad)) = Ret b"
    and "bal (lc_State lc) b < tx_Value bad + tx_Fee bad"
    and "length (MarshalTransfer bad) \<le> 1000000" and "txs \<noteq> []"
  shows "subseq txs rest \<and> lc_Mempool lc1 = drop (length txs - 1) rest \<and>
    \<not> mset (lc_Mempool lc1) \<subseteq># mset rest - mset txs"
proof -
  let ?sel = "\<lparr>sel_State = lc_State lc, sel_Bytes = 512, sel_Fees = 0, sel_Valid = []\<rparr>"
  obtain sel where "select_txs (bad # rest) ?sel = Ret sel" and txs: "txs = sel_Valid sel"
    using select_parts(2) [OF assms(1)] assms(2) by auto
  then have "select_txs rest (?sel\<lparr>sel_State := ensure_account b (lc_State lc)\<rparr>) = Ret sel"
    using select_skip [OF assms(3), of ?sel rest] select_start_fits [OF assms(5)] assms(4) by simp
  from select_txs_subseq [OF this] have sub: "subseq txs rest" by (simp add: txs)
  have left: "lc_Mempool lc1 = drop (length txs - 1) rest"
    using select_parts(1) [OF assms(1)] assms(2,6) by (cases txs) simp_all
  have "\<not> mset (lc_Mempool lc1) \<subseteq># mset rest - mset txs"
  proof
    assume "mset (lc_Mempool lc1) \<subseteq># mset rest - mset txs"
    then have "size (mset (lc_Mempool lc1)) \<le> size (mset rest - mset txs)" by (rule size_mset_mono)
    also have "\<dots> = length rest - length txs"
      using subseq_mset [OF sub] by (simp add: size_Diff_submset)
    finally show False
      using left assms(6) list_emb_length [OF sub] by (cases txs) simp_all
  qed
  with sub left show ?thesis by blast
qed

lemma sample_skipped:
  "\<exists>parent fees lc1. MineBlock_select (sample_ledger [sample_tx\<lparr>tx_Value := 10 ^ 18\<rparr>, sample_tx])
     = Ret (parent, [sample_tx], fees, lc1)"
proof -
  let ?bad = "sample_tx\<lparr>tx_Value := 10 ^ 18\<rparr>"
    and ?St = "lc_State (sample_ledger [])"
  let ?sel = "\<lparr>sel_State = ?St, sel_Bytes = 512, sel_Fees = 0, sel_Valid = []\<rparr>"
  let ?sel1 = "?sel\<lparr>sel_State := ensure_account alice ?St\<rparr>"
  have size: "length (MarshalTransfer ?bad) \<le> 1000000" "length (MarshalTransfer sample_tx) \<le> 1000000"
    using length_MarshalTransfer_le [of ?bad] sample_tx_size by (simp_all add: sample_tx_def alice_key_def)
  have "select_txs [?bad, sample_tx] ?sel = select_txs [sample_tx] ?sel1"
    using select_skip [of ?bad alice ?sel "[sample_tx]"] select_start_fits [OF size(1)]
    by (simp add: bal_def BlockReward_def CoinUnit_def)
  moreover obtain Su where "select_txs [sample_tx] ?sel1 = Ret \<lparr>sel_State = Su,
      sel_Bytes = 512 + of_nat (length (MarshalTransfer sample_tx)), sel_Fees = 2, sel_Valid = [sample_tx]\<rparr>"
    using select_one [of sample_tx alice ?sel1 "[]"] select_start_fits [OF size(2)]
    by (auto simp: bal_def BlockReward_def CoinUnit_def ensure_account_def)
  ultimately show ?thesis
    using alice_prefix(1) by (auto simp: MineBlock_select_def DefaultConsensus_def AddressPrefix_def)
qed

theorem mined_transfer_stays_queued_witness:
  "\<exists>parent fees lc1.
     MineBlock_select (sample_ledger [sample_tx\<lparr>tx_Value := 10 ^ 18\<rparr>, sample_tx])
       = Ret (parent, [sample_tx], fees, lc1) \<and> lc_Mempool lc1 = [sample_tx]"
proof -
  let ?bad = "sample_tx\<lparr>tx_Value := 10 ^ 18\<rparr>"
  from sample_skipped obtain parent fees lc1
    where sel: "MineBlock_select (sample_ledger [?bad, sample_tx]) = Ret (parent, [sample_tx], fees, lc1)"
    by blast
  have "length (MarshalTransfer ?bad) \<le> 1000000"
    using length_MarshalTransfer_le [of ?bad] by (simp add: sample_tx_def alice_key_def)
  with mined_transfer_stays_queued [OF sel, of ?bad "[sample_tx]" alice] sel show ?thesis
    by (auto simp: bal_def BlockReward_def CoinUnit_def)
qed

text \<open>A block the sample node would accept next.\<close>

definition sample_child :: LedgerBlock where
  "sample_child = sample_block\<lparr>blk_Index := 1, blk_Timestamp := 150,
     blk_PrevHash := Some [CHR 0x01], blk_Transfers := Some [sample_tx]\<rparr>"

lemma sample_child_accepted: "ValidateBlockConsensus sample_child (Some sample_block) BlockReward = None"
proof -
  have fields: "blk_PrevHash sample_child = Some [CHR 0x01]" "blk_Hash sample_child = Some [CHR 0x01]"
    "blk_Transfers sample_child = Some [sample_tx]" "blk_Miner sample_child = alice"
    "blk_Message sample_child = []" "blk_Index sample_child = 1" "blk_Timestamp sample_child = 150"
    "blk_Difficulty sample_child = 1" "blk_MaxSupply sample_child = MaxSupply"
    "blk_HalvingInterval sample_child = HalvingInterval" "blk_Reward sample_child = BlockReward"
    by (simp_all add: sample_child_def sample_block_def)
  then have "length (MarshalBlock sample_child) \<le> 1000000"
    using length_MarshalBlock_le [of sample_child] sample_tx_size by (simp add: alice_def)
  then have "(of_nat (length (MarshalBlock sample_child)) :: u64) \<le> MaxBlockSizeBytes"
    by (rule small_length)
  moreover have "expected_reward 1 BlockReward = BlockReward"
    by (simp add: expected_reward_def CalculateBlockReward_def Let_def consensus_constants)
  ultimately show ?thesis
    unfolding validate_accepts_iff follows_def header_ok_def
    using sample_pow by (simp add: fields word_sless_alt)
qed

text \<open>The tip a block was validated against is not looked at again when it is appended: two
  blocks mined on the same parent are both committed, one after the other, and the second
  has the height of the first and does not follow it.\<close>

theorem stale_commit_breaks_chain:
  assumes "MineBlock_commit E parent cur b1 fees1 lc = Ret lc1"
    and "MineBlock_commit E parent cur b2 fees2 lc1 = Ret lc2"
  shows "lc_Chain lc2 = lc_Chain lc @ [b1, b2] \<and> blk_Index b2 = blk_Index b1 \<and>
    ValidateBlockConsensus b2 (Some b1) supply \<noteq> None"
proof -
  note c1 = commit_Ret [OF assms(1)] and c2 = commit_Ret [OF assms(2)]
  have "follows b1 (Some parent)" and "follows b2 (Some parent)"
    using c1(1) c2(1) by (simp_all add: validate_accepts_iff)
  then have "blk_Index b2 = blk_Index b1" by (simp add: follows_def)
  moreover have "\<not> follows b2 (Some b1)" using calculation by (simp add: follows_def)
  ultimately show ?thesis using c1(2) c2(2) by (simp add: validate_accepts_iff)
qed

lemma commit_accepted:
  assumes "ValidateBlockConsensus b (Some parent) cur = None" and "lc_Storage lc \<noteq> None"
  shows "\<exists>lc'. MineBlock_commit E parent cur b fees lc = Ret lc' \<and> lc_Storage lc' \<noteq> None"
  using assms by (auto simp: MineBlock_commit_def with_storage_def Let_def)

theorem stale_commit_breaks_chain_witness:
  "\<exists>lc1 lc2.
     MineBlock_commit sample_env sample_block BlockReward sample_child 0 (sample_ledger []) = Ret lc1 \<and>
     MineBlock_commit sample_env sample_block BlockReward sample_child 0 lc1 = Ret lc2 \<and>
     lc_Chain lc2 = [sample_block, sample_child, sample_child]"
proof -
  obtain lc1 where one: "MineBlock_commit sample_env sample_block BlockReward sample_child 0 (sample_ledger []) = Ret lc1"
    and "lc_Storage lc1 \<noteq> None"
    using commit_accepted [OF sample_child_accepted, of "sample_ledger []" sample_env 0] by auto
  then obtain lc2 where two: "MineBlock_commit sample_env sample_block BlockReward sample_child 0 lc1 = Ret lc2"
    using commit_accepted [OF sample_child_accepted, of lc1 sample_env 0] by auto
  from stale_commit_breaks_chain [OF one two] one two show ?thesis by auto
qed

section \<open>Rollback\<close>

text \<open>C12. On a node whose balances are those rebuilt from its chain, rolling back right after appending
  a block gives back the chain and every balance, and puts the block's transfers at the front of the
  queue, last first. (On other nodes the rollback rebuilds balances they did not have.)\<close>

theorem rollback_undoes_append:
  assumes "AppendBlockDirectly E block lc = Ret (None, lc1)" and "balances_agree lc"
    and "lc_Chain lc \<noteq> []" and "RollbackBlock E lc1 = Ret (None, lc2)"
  shows "lc_Chain lc2 = lc_Chain lc \<and> bal (lc_State lc2) = bal (lc_State lc) \<and>
    lc_Mempool lc2 = rev (elems (blk_Transfers block)) @ lc_Mempool lc"
  using rollback_append [OF assms] rollback_mempool [OF assms(4)] AppendBlockDirectly_Ret [OF assms(1)]
  by simp

lemma sample_append:
  "\<exists>lc1. AppendBlockDirectly sample_env sample_child (sample_ledger m) = Ret (None, lc1) \<and>
     (\<exists>lc2. RollbackBlock sample_env lc1 = Ret (None, lc2))"
proof -
  have total: "GetTotalCirculatingSupply (sample_ledger m) = BlockReward"
    by (simp add: GetTotalCirculatingSupply_def)
  have tip: "GetLatestBlock (sample_ledger m) = Some sample_block"
    by (simp add: GetLatestBlock_def)
  have link: "elems (blk_PrevHash sample_child) = elems (blk_Hash sample_block)"
    by (simp add: sample_child_def)
  obtain St where "RebuildState sample_child [alice \<mapsto> \<lparr>acc_Balance = BlockReward, acc_Nonce = 0\<rparr>] = Ret St"
    by (simp add: RebuildState_def sample_child_def ofold_single rebuild_tx_def Let_def)
  then obtain lc1 where app: "AppendBlockDirectly sample_env sample_child (sample_ledger m) = Ret (None, lc1)"
    using sample_child_accepted
    by (auto simp: AppendBlockDirectly_def tip total Let_def link)
  have "lc_Storage lc1 \<noteq> None" using AppendBlockDirectly_storage [OF app] by simp
  moreover have "lc_Chain lc1 = [sample_block, sample_child]"
    using AppendBlockDirectly_Ret(2) [OF app] by simp
  moreover have "fst (DeleteBlock mem_ldb i d) = None" for i d
    by (rule reliable_DeleteBlock) (use sample_env_laws(2) in simp)
  then have "\<exists>d'. DeleteBlock mem_ldb i d = (None, d')" for i d
    by (metis prod.collapse)
  ultimately have "\<exists>lc2. RollbackBlock sample_env lc1 = Ret (None, lc2)"
    by (auto simp: RollbackBlock_def Ledger_DeleteBlock_def Let_def sample_rebuild
        split: prod.splits option.splits) (metis option.distinct(1) prod.inject)
  with app show ?thesis by blast
qed

theorem rollback_undoes_append_witness:
  "\<exists>lc1 lc2. AppendBlockDirectly sample_env sample_child (sample_ledger []) = Ret (None, lc1) \<and>
     RollbackBlock sample_env lc1 = Ret (None, lc2) \<and> lc_Chain lc2 = [sample_block] \<and>
     lc_Mempool lc2 = [sample_tx]"
proof -
  from sample_append [of "[]"] obtain lc1 lc2
    where app: "AppendBlockDirectly sample_env sample_child (sample_ledger []) = Ret (None, lc1)"
      and roll: "RollbackBlock sample_env lc1 = Ret (None, lc2)" by blast
  have "balances_agree (sample_ledger [])" by (simp add: balances_agree_def sample_rebuild)
  from rollback_undoes_append [OF app this _ roll] app roll show ?thesis
    by (auto simp: sample_child_def)
qed

text \<open>A rollback whose delete fails reports the error after the block is gone from the chain
  and its transfers are back in the queue, and leaves the balances as they were with the
  block: chain and balances no longer belong together.\<close>

theorem failed_rollback_leaves_state:
  assumes "1 < length (lc_Chain lc)" and "lc_Storage lc = Some d"
    and "DeleteBlock (ne_ldb E) (blk_Index (last (lc_Chain lc))) d = (Some e, d')"
  shows "\<exists>lc'. RollbackBlock E lc = Ret (Some (RollbackStorage (StorageFailed e)), lc') \<and>
    lc_Chain lc' = butlast (lc_Chain lc) \<and> lc_State lc' = lc_State lc \<and>
    mset (lc_Mempool lc') = mset (elems (blk_Transfers (last (lc_Chain lc)))) + mset (lc_Mempool lc)"
proof -
  have push: "mset (foldl (\<lambda>mp tx. tx # mp) mp txs) = mset txs + mset mp"
    for mp and txs :: "Transfer list"
    by (induction txs arbitrary: mp) simp_all
  show ?thesis
    using assms push by (auto simp: RollbackBlock_def Ledger_DeleteBlock_def Let_def)
qed

theorem failed_rollback_leaves_state_witness:
  "\<exists>lc'. RollbackBlock (sample_env\<lparr>ne_ldb := mem_ldb\<lparr>ldb_Delete := (\<lambda>_ _. None)\<rparr>\<rparr>)
       ((sample_ledger [])\<lparr>lc_Chain := [sample_block, sample_child]\<rparr>)
     = Ret (Some (RollbackStorage (StorageFailed DeleteFailed)), lc') \<and> lc_Chain lc' = [sample_block]"
  using failed_rollback_leaves_state [of "(sample_ledger [])\<lparr>lc_Chain := [sample_block, sample_child]\<rparr>"
      _ "sample_env\<lparr>ne_ldb := mem_ldb\<lparr>ldb_Delete := (\<lambda>_ _. None)\<rparr>\<rparr>" DeleteFailed]
  by (auto simp: DeleteBlock_def)

end
