(* ===== verification/Mempool_Props.thy ===== *)
theory Mempool_Props
  imports Service_Props Ledger_Props
begin

text \<open>
  The queue file between the commands and the daemon. What the daemon checks of the transfers in
  \<open>mempool.json\<close>: everything but their signatures, so transfers that differ in the signature bytes
  only are selected, mined and paid alike. What a command puts there: transfers signed with a
  key of the wallet, which any ledger admits.
\<close>

section \<open>Signatures\<close>

text \<open>Two transfers that differ in the bytes of their signatures only.\<close>

definition same_but_signature :: "Transfer \<Rightarrow> Transfer \<Rightarrow> bool" where
  "same_but_signature t u \<longleftrightarrow>
     t\<lparr>tx_Signature := None\<rparr> = u\<lparr>tx_Signature := None\<rparr> \<and>
     (\<exists>a b. tx_Signature t = Some a \<and> tx_Signature u = Some b \<and> length a = length b)"

lemma same_but_signatureD:
  assumes "same_but_signature t u"
  shows "tx_SenderPubKey t = tx_SenderPubKey u" "tx_Recipient t = tx_Recipient u"
    "tx_Value t = tx_Value u" "tx_Fee t = tx_Fee u" "tx_Nonce t = tx_Nonce u"
    "length (MarshalTransfer t) = length (MarshalTransfer u)"
proof -
  obtain k r v f n a b where t: "t = \<lparr>tx_SenderPubKey = k, tx_Recipient = r, tx_Value = v, tx_Fee = f,
      tx_Nonce = n, tx_Signature = Some a\<rparr>"
    and u: "u = \<lparr>tx_SenderPubKey = k, tx_Recipient = r, tx_Value = v, tx_Fee = f,
      tx_Nonce = n, tx_Signature = Some b\<rparr>" and len: "length a = length b"
    using assms by (cases t; cases u) (auto simp: same_but_signature_def)
  show "tx_SenderPubKey t = tx_SenderPubKey u" "tx_Recipient t = tx_Recipient u"
    "tx_Value t = tx_Value u" "tx_Fee t = tx_Fee u" "tx_Nonce t = tx_Nonce u"
    by (simp_all add: t u)
  show "length (MarshalTransfer t) = length (MarshalTransfer u)"
    by (simp add: t u MarshalTransfer_def json_object_def json_bytes_def length_base64_encode len)
qed

text \<open>One turn of the selection, as what taking a transfer does to it.\<close>

definition take_tx :: "string \<Rightarrow> Transfer \<Rightarrow> selection \<Rightarrow> selection" where
  "take_tx sender tx sel =
     (let totalCost = tx_Value tx + tx_Fee tx;
          St1 = update_account sender (\<lambda>acc. acc
                  \<lparr>acc_Balance := acc_Balance acc - totalCost, acc_Nonce := acc_Nonce acc + 1\<rparr>)
                  (ensure_account sender (sel_State sel));
          St2 = (case St1 (tx_Recipient tx) of
                   None \<Rightarrow> St1(tx_Recipient tx \<mapsto> \<lparr>acc_Balance = tx_Value tx, acc_Nonce = 0\<rparr>)
                 | Some _ \<Rightarrow> update_account (tx_Recipient tx) (\<lambda>acc. acc
                             \<lparr>acc_Balance := acc_Balance acc + tx_Value tx\<rparr>) St1)
      in \<lparr>sel_State = St2, sel_Bytes = sel_Bytes sel + of_nat (length (MarshalTransfer tx)),
          sel_Fees = sel_Fees sel + tx_Fee tx, sel_Valid = sel_Valid sel @ [tx]\<rparr>)"

lemma select_txs_turn:
  "select_txs (tx # txs) sel =
     (if sel_Bytes sel + of_nat (length (MarshalTransfer tx)) > MaxBlockSizeBytes then Ret sel
      else obind (PubkeyToAddress (elems (tx_SenderPubKey tx))) (\<lambda>sender.
        if acc_Balance (the (ensure_account sender (sel_State sel) sender)) < tx_Value tx + tx_Fee tx
        then select_txs txs (sel\<lparr>sel_State := ensure_account sender (sel_State sel)\<rparr>)
        else select_txs txs (take_tx sender tx sel)))"
  by (simp only: select_txs.simps take_tx_def Let_def)

definition same_selection :: "selection \<Rightarrow> selection \<Rightarrow> bool" where
  "same_selection s r \<longleftrightarrow>
     sel_State s = sel_State r \<and> sel_Bytes s = sel_Bytes r \<and> sel_Fees s = sel_Fees r \<and>
     list_all2 same_but_signature (sel_Valid s) (sel_Valid r)"

lemma take_same:
  assumes "same_selection s r" and "same_but_signature t u"
  shows "same_selection (take_tx a t s) (take_tx a u r)"
proof -
  note D = same_but_signatureD [OF assms(2)]
  have eqs: "sel_State s = sel_State r" "sel_Bytes s = sel_Bytes r" "sel_Fees s = sel_Fees r"
    using assms(1) unfolding same_selection_def by blast+
  have "list_all2 same_but_signature (sel_Valid s @ [t]) (sel_Valid r @ [u])"
    using assms unfolding same_selection_def by (simp add: list_all2_appendI)
  then show ?thesis
    unfolding same_selection_def take_tx_def Let_def D eqs selection.simps by simp
qed

lemma select_same:
  assumes "list_all2 same_but_signature txs us" and "same_selection s r"
    and "select_txs txs s = Ret s'"
  shows "\<exists>r'. select_txs us r = Ret r' \<and> same_selection s' r'"
  using assms
proof (induction txs us arbitrary: s r rule: list_all2_induct)
  case Nil
  then show ?case by simp
next
  case (Cons t txs u us)
  have eqs: "tx_SenderPubKey t = tx_SenderPubKey u" "tx_Value t = tx_Value u" "tx_Fee t = tx_Fee u"
    "length (MarshalTransfer t) = length (MarshalTransfer u)"
    "sel_State s = sel_State r" "sel_Bytes s = sel_Bytes r"
    using same_but_signatureD [OF Cons.hyps(1)] Cons.prems(1) by (simp_all add: same_selection_def)
  show ?case
  proof (cases "sel_Bytes r + of_nat (length (MarshalTransfer u)) > MaxBlockSizeBytes")
    case True
    with Cons.prems show ?thesis unfolding select_txs_turn eqs by auto
  next
    case False
    with Cons.prems(2) obtain sender
      where sender: "PubkeyToAddress (elems (tx_SenderPubKey u)) = Ret sender"
      unfolding select_txs_turn eqs by (auto simp: obind_Ret_iff)
    let ?poor = "acc_Balance (the (ensure_account sender (sel_State r) sender)) < tx_Value u + tx_Fee u"
    let ?St = "ensure_account sender (sel_State r)"
    have left: "select_txs (t # txs) s = (if ?poor then select_txs txs (s\<lparr>sel_State := ?St\<rparr>)
        else select_txs txs (take_tx sender t s))"
      unfolding select_txs_turn eqs using False sender by simp
    have right: "select_txs (u # us) r = (if ?poor then select_txs us (r\<lparr>sel_State := ?St\<rparr>)
        else select_txs us (take_tx sender u r))"
      unfolding select_txs_turn using False sender by simp
    have "same_selection (s\<lparr>sel_State := ?St\<rparr>) (r\<lparr>sel_State := ?St\<rparr>)"
      using Cons.prems(1) by (simp add: same_selection_def)
    then show ?thesis
      using Cons.IH [where s = "take_tx sender t s"] Cons.IH take_same [OF Cons.prems(1) Cons.hyps(1)]
        Cons.prems(2)
      unfolding left right by (cases ?poor) auto
  qed
qed

section \<open>The block they are mined into\<close>

lemma length_MarshalBlock_same:
  assumes "list_all2 same_but_signature v v'"
  shows "length (MarshalBlock (b\<lparr>blk_Transfers := Some v\<rparr>)) =
    length (MarshalBlock (b\<lparr>blk_Transfers := Some v'\<rparr>))"
proof -
  have "map (\<lambda>t. length (MarshalTransfer t)) v = map (\<lambda>t. length (MarshalTransfer t)) v'"
    using assms by (induction rule: list_all2_induct) (simp_all add: same_but_signatureD)
  moreover have "length v = length v'" using assms by (rule list_all2_lengthD)
  ultimately show ?thesis
    by (simp add: MarshalBlock_def json_object_def length_json_join length_json_array comp_def)
qed

lemma validate_same:
  assumes "length (MarshalBlock (b\<lparr>blk_Transfers := ts\<rparr>)) = length (MarshalBlock b)"
  shows "ValidateBlockConsensus (b\<lparr>blk_Transfers := ts\<rparr>) prev cur = ValidateBlockConsensus b prev cur"
  unfolding ValidateBlockConsensus_def Let_def assms by (simp cong: if_cong option.case_cong)

lemma mined_block_transfers:
  "mined_block e (b\<lparr>blk_Transfers := ts\<rparr>) m = (mined_block e b m)\<lparr>blk_Transfers := ts\<rparr>"
  by (simp add: mined_block_def Mine_prepare_def Let_def)

text \<open>The first critical section with a queue to select from.\<close>

definition selection_start :: "accounts \<Rightarrow> selection" where
  "selection_start St = \<lparr>sel_State = St, sel_Bytes = 512, sel_Fees = 0, sel_Valid = []\<rparr>"

lemma select_with_queue:
  assumes "lc_MinerAddress lc \<noteq> ''SYSTEM_GENESIS'' \<longrightarrow>
      HasPrefix (lc_MinerAddress lc) (cp_AddressPrefix DefaultConsensus)" and "lc_Chain lc \<noteq> []"
    and "txs \<noteq> []"
  shows "MineBlock_select (lc\<lparr>lc_Mempool := txs\<rparr>) =
    obind (select_txs txs (selection_start (lc_State lc))) (\<lambda>s.
      Ret (last (lc_Chain lc), sel_Valid s, sel_Fees s, lc\<lparr>lc_State := sel_State s,
        lc_Mempool := (if sel_Valid s \<noteq> [] then drop (length (sel_Valid s)) txs else txs)\<rparr>))"
  using assms by (auto simp: MineBlock_select_def selection_start_def cong: if_cong)

lemma select_stage_same:
  assumes "list_all2 same_but_signature txs us"
    and "MineBlock_select (lc\<lparr>lc_Mempool := txs\<rparr>) = Ret (p, v, f, l1)"
  shows "\<exists>v' x. MineBlock_select (lc\<lparr>lc_Mempool := us\<rparr>) = Ret (p, v', f, l1\<lparr>lc_Mempool := x\<rparr>) \<and>
    list_all2 same_but_signature v v'"
proof (cases "txs = []")
  case True
  with assms show ?thesis by (auto simp: MineBlock_select_def split: if_splits)
next
  case False
  with assms(1) have us: "us \<noteq> []" by auto
  have ok: "lc_MinerAddress lc \<noteq> ''SYSTEM_GENESIS'' \<longrightarrow>
      HasPrefix (lc_MinerAddress lc) (cp_AddressPrefix DefaultConsensus)" "lc_Chain lc \<noteq> []"
    using assms(2) by (auto simp: MineBlock_select_def split: if_splits)
  note left = select_with_queue [OF ok False] and right = select_with_queue [OF ok us]
  from assms(2) obtain s where s: "select_txs txs (selection_start (lc_State lc)) = Ret s"
    and r: "p = last (lc_Chain lc)" "v = sel_Valid s" "f = sel_Fees s"
    and l1: "l1 = lc\<lparr>lc_State := sel_State s,
        lc_Mempool := (if sel_Valid s \<noteq> [] then drop (length (sel_Valid s)) txs else txs)\<rparr>"
    unfolding left obind_Ret_iff by auto
  have "same_selection (selection_start (lc_State lc)) (selection_start (lc_State lc))"
    by (simp add: same_selection_def selection_start_def)
  from select_same [OF assms(1) this s] obtain s'
    where "select_txs us (selection_start (lc_State lc)) = Ret s'" and "same_selection s s'" by blast
  then show ?thesis unfolding right r l1 by (auto simp: same_selection_def)
qed

lemma template_stage_same:
  assumes "MineBlock_template p v now l1 = (cur, b, l2)"
  shows "MineBlock_template p v' now (l1\<lparr>lc_Mempool := x\<rparr>) =
    (cur, b\<lparr>blk_Transfers := Some v'\<rparr>, l2\<lparr>lc_Mempool := x\<rparr>) \<and> blk_Transfers b = Some v"
  using assms by (auto simp: MineBlock_template_def GetTotalCirculatingSupply_def Let_def)

lemma commit_stage_same:
  assumes "MineBlock_commit E p cur b f l2 = Ret lc'" and "blk_Transfers b = Some v"
    and "list_all2 same_but_signature v v'"
  shows "\<exists>lc''. MineBlock_commit E p cur (b\<lparr>blk_Transfers := Some v'\<rparr>) f (l2\<lparr>lc_Mempool := x\<rparr>) = Ret lc'' \<and>
    lc_State lc'' = lc_State lc' \<and> lc_Chain lc' = lc_Chain l2 @ [b] \<and>
    lc_Chain lc'' = lc_Chain l2 @ [b\<lparr>blk_Transfers := Some v'\<rparr>]"
proof -
  have "b\<lparr>blk_Transfers := Some v\<rparr> = b" using assms(2) by simp
  then have "length (MarshalBlock (b\<lparr>blk_Transfers := Some v'\<rparr>)) = length (MarshalBlock b)"
    using length_MarshalBlock_same [OF assms(3), of b] by simp
  from validate_same [OF this, of "Some p" cur] assms(1) show ?thesis
    by (auto simp: MineBlock_commit_def with_storage_def Let_def split: option.splits if_splits)
qed

lemma mine_same:
  assumes "list_all2 same_but_signature txs us"
    and "MineBlock E now mined (lc\<lparr>lc_Mempool := txs\<rparr>) = Ret lc'"
  shows "\<exists>lc''. MineBlock E now mined (lc\<lparr>lc_Mempool := us\<rparr>) = Ret lc'' \<and>
    lc_State lc'' = lc_State lc' \<and>
    (\<exists>b v v'. lc_Chain lc' = lc_Chain lc @ [b\<lparr>blk_Transfers := Some v\<rparr>] \<and>
       lc_Chain lc'' = lc_Chain lc @ [b\<lparr>blk_Transfers := Some v'\<rparr>] \<and>
       list_all2 same_but_signature v v')"
proof -
  obtain p v f l1
    where sel: "MineBlock_select (lc\<lparr>lc_Mempool := txs\<rparr>) = Ret (p, v, f, l1)"
    using assms(2) by (auto simp: MineBlock_def obind_Ret_iff)
  obtain cur b l2 where tmp: "MineBlock_template p v now l1 = (cur, b, l2)"
    by (cases "MineBlock_template p v now l1")
  from assms(2) have com: "MineBlock_commit E p cur (mined_block (lc_Engine l2) b mined) f l2 = Ret lc'"
    by (simp add: MineBlock_def sel tmp)
  from select_stage_same [OF assms(1) sel] obtain v' x
    where sel': "MineBlock_select (lc\<lparr>lc_Mempool := us\<rparr>) = Ret (p, v', f, l1\<lparr>lc_Mempool := x\<rparr>)"
    and same: "list_all2 same_but_signature v v'" by blast
  note tmp' = template_stage_same [OF tmp, of v' x]
  let ?b = "mined_block (lc_Engine l2) b mined"
  have "b\<lparr>blk_Transfers := Some v\<rparr> = b" using tmp' by simp
  from mined_block_transfers [where e = "lc_Engine l2" and b = b and ts = "Some v" and m = mined] this
  have b: "?b\<lparr>blk_Transfers := Some v\<rparr> = ?b" by simp
  then have "blk_Transfers ?b = Some v" by (metis LedgerBlock.select_convs(5) LedgerBlock.surjective LedgerBlock.update_convs(5))
  from commit_stage_same [OF com this same, of x] obtain lc''
    where com': "MineBlock_commit E p cur (?b\<lparr>blk_Transfers := Some v'\<rparr>) f (l2\<lparr>lc_Mempool := x\<rparr>) = Ret lc''"
    and r: "lc_State lc'' = lc_State lc'" "lc_Chain lc' = lc_Chain l2 @ [?b]"
      "lc_Chain lc'' = lc_Chain l2 @ [?b\<lparr>blk_Transfers := Some v'\<rparr>]" by blast
  have "MineBlock E now mined (lc\<lparr>lc_Mempool := us\<rparr>) = Ret lc''"
    using sel' tmp' com' by (simp add: MineBlock_def Let_def mined_block_transfers)
  moreover have "lc_Chain l2 = lc_Chain lc"
    using select_keeps(3) [OF sel] template_keeps(2) [OF tmp] by simp
  ultimately show ?thesis using r b same by metis
qed

text \<open>C37. The daemon mines what it finds in \<open>mempool.json\<close> whatever the signatures say: replacing every
  signature by any other bytes of the same length leaves the balances after the turn as they
  were, and the block holds the replaced transfers.\<close>

theorem mining_ignores_signatures:
  assumes "LoadMempoolFromDisk (ce_home C) d = Some (map Some txs)"
    and "LoadMempoolFromDisk (ce_home C) e = Some (map Some us)"
    and "list_all2 same_but_signature txs us" and "txs \<noteq> []"
    and "daemon_tick C now mined (lc, d) = Ret (lc', d')"
  shows "\<exists>lc'' e'. daemon_tick C now mined (lc, e) = Ret (lc'', e') \<and> lc_State lc'' = lc_State lc' \<and>
    (\<exists>b v v'. lc_Chain lc' = lc_Chain lc @ [b\<lparr>blk_Transfers := Some v\<rparr>] \<and>
       lc_Chain lc'' = lc_Chain lc @ [b\<lparr>blk_Transfers := Some v'\<rparr>] \<and>
       list_all2 same_but_signature v v')"
proof -
  have "us \<noteq> []" using assms(3,4) by auto
  moreover have "MineBlock (re_node (ce_rpc C)) now mined (lc\<lparr>lc_Mempool := txs\<rparr>) = Ret lc'"
    using assms(1,4,5) by (auto simp: daemon_tick_def obind_Ret_iff)
  note mine_same [OF assms(3) this]
  ultimately show ?thesis using assms(2) by (auto simp: daemon_tick_def obind_Ret_iff)
qed

text \<open>Alice's transfer, and one that nobody signed.\<close>

definition forged_tx :: Transfer where
  "forged_tx = sample_tx\<lparr>tx_Signature := Some (replicate 15 (CHR ''x''))\<rparr>"

definition trusting_env :: "(bytes, bytes, (bytes \<times> bytes) list) cli_env" where
  "trusting_env =
     \<lparr>ce_rpc = \<lparr>re_node = sample_env, re_am_decode = (\<lambda>_. Some []),
        re_am_encode = (\<lambda>_. []), re_home = None, re_now = 0, re_rounds = (\<lambda>_. (0, 0, []))\<rparr>,
      ce_open = (\<lambda>_. None), ce_genesis = (0, []), ce_ParseIP = (\<lambda>_. True), ce_path = (\<lambda>_. [])\<rparr>"

definition queue_disk :: "Transfer \<Rightarrow> disk" where
  "queue_disk tx = empty_disk\<lparr>dk_file := [[''xcosh_data'', ''mempool.json''] \<mapsto> mempool_json (Some [Some tx])]\<rparr>"

lemma sample_recipient: "valid_utf8 ''xcoshbob''"
  by (rule valid_utf8_ascii) simp

lemma queue_disk_loads:
  "LoadMempoolFromDisk (ce_home trusting_env) (queue_disk sample_tx) = Some (map Some [sample_tx])"
  "LoadMempoolFromDisk (ce_home trusting_env) (queue_disk forged_tx) = Some (map Some [forged_tx])"
  using sample_recipient
  by (simp_all add: LoadMempoolFromDisk_def ReadFile_def queue_disk_def trusting_env_def ce_home_def
      mempool_path_def GetDataDir_def Join_def empty_disk_def UnmarshalMempool_saved queued_ok_def
      forged_tx_def)

lemma forged_same: "list_all2 same_but_signature [sample_tx] [forged_tx]"
  by (simp add: same_but_signature_def forged_tx_def sample_tx_def)

theorem mining_ignores_signatures_witness:
  "Transfer_Verify sample_lib forged_tx = False \<and>
   (\<exists>lc' e'. daemon_tick trusting_env 150 (7, [CHR 0x01]) (sample_ledger [], queue_disk forged_tx)
        = Ret (lc', e') \<and> length (lc_Chain lc') = 2)"
proof -
  have "sample_ledger [sample_tx] = (sample_ledger [])\<lparr>lc_Mempool := [sample_tx]\<rparr>"
    by (simp add: sample_ledger_def)
  with sample_mine obtain lc' where
    "MineBlock sample_env 150 (7, [CHR 0x01]) ((sample_ledger [])\<lparr>lc_Mempool := [sample_tx]\<rparr>) = Ret lc'"
    by auto
  moreover have "re_node (ce_rpc trusting_env) = sample_env" by (simp add: trusting_env_def)
  ultimately have "daemon_tick trusting_env 150 (7, [CHR 0x01]) (sample_ledger [], queue_disk sample_tx)
      = Ret (lc', SaveMempoolToDisk (ce_home trusting_env) (Some []) (queue_disk sample_tx))"
    unfolding daemon_tick_def snd_conv queue_disk_loads pointers_Some by simp
  from mining_ignores_signatures [OF queue_disk_loads forged_same _ this] obtain lc'' e'
    where "daemon_tick trusting_env 150 (7, [CHR 0x01]) (sample_ledger [], queue_disk forged_tx) = Ret (lc'', e')"
    and "\<exists>b. lc_Chain lc'' = lc_Chain (sample_ledger []) @ [b]" by auto
  moreover have "Transfer_Verify sample_lib forged_tx = False" by code_simp
  ultimately show ?thesis by auto
qed

text \<open>A daemon without a wallet names \<open>SYSTEM_MINER\<close> as its miner, which the first turn with a
  transfer refuses by panicking.\<close>

lemma default_miner_panics:
  assumes "LoadMempoolFromDisk (ce_home C) d = Some (map Some (tx # txs))"
    and "lc_MinerAddress lc = daemon_miner C d" and "LoadWallet (ce_home C) d = None"
  shows "\<exists>msg. daemon_tick C now mined (lc, d) = Panic msg"
proof -
  have "lc_MinerAddress lc = ''SYSTEM_MINER''"
    using assms(2,3) by (simp add: daemon_miner_def first_account_def)
  moreover have "\<not> HasPrefix ''SYSTEM_MINER'' (cp_AddressPrefix DefaultConsensus)" by code_simp
  ultimately show ?thesis
    unfolding daemon_tick_def snd_conv assms(1) pointers_Some
    by (simp add: MineBlock_def MineBlock_select_def)
qed

section \<open>From the wallet to the queue\<close>

text \<open>A wallet the program wrote: every account is of a generated pair.\<close>

definition wallet_ok :: "('pub, 'priv) crypto_lib \<Rightarrow> WalletFile \<Rightarrow> bool" where
  "wallet_ok L w \<longleftrightarrow> (\<forall>a \<in> set (wf_Accounts w). \<exists>pub priv. account_of L pub priv a \<and> key_pair L pub priv)"

lemma send_account_in_wallet:
  assumes "send_account w senderAddr = Inr acc"
  shows "w \<noteq> None \<and> acc \<in> set (wf_Accounts (the w)) \<and> (senderAddr \<noteq> [] \<longrightarrow> ac_Address acc = senderAddr)"
  using assms
  by (auto simp: send_account_def find_Some_iff split: option.splits if_splits)

lemma send_account_error: "send_account w senderAddr \<noteq> Inl (Queued tx txID)"
  by (simp add: send_account_def split: option.splits)

lemma wallet_key:
  assumes "wallet_ok L w" and "acc \<in> set (wf_Accounts w)"
  obtains pub priv where "GetPrivateKeyInstance L w (ac_Address acc) = Inr (priv, mode3_MarshalPub L pub)"
    and "key_pair L pub priv" and "PubkeyToAddress (mode3_MarshalPub L pub) = Ret (ac_Address acc)"
proof -
  from assms(2) obtain a where a: "find (\<lambda>b. ac_Address b = ac_Address acc) (wf_Accounts w) = Some a"
    by (cases "find (\<lambda>b. ac_Address b = ac_Address acc) (wf_Accounts w)") (auto simp: find_None_iff)
  then have "a \<in> set (wf_Accounts w)" and "ac_Address a = ac_Address acc"
    by (auto simp: find_Some_iff)
  moreover from this(1) assms(1) obtain pub priv where k: "account_of L pub priv a" "key_pair L pub priv"
    unfolding wallet_ok_def by blast
  moreover from k(1) have "PubkeyToAddress (mode3_MarshalPub L pub) = Ret (ac_Address a)"
    by (simp add: account_of_def)
  ultimately show thesis
    using GetPrivateKeyInstance_account [OF a k] by (intro that) simp_all
qed

text \<open>C22. Sending to a recipient whose text is UTF-8 hands the daemon a good transfer: when \<open>HandleSendTx\<close> reports a transfer as queued, it
  was signed with a key of the wallet (the named sender's, when one is named), the queue file
  holds the old queue with the transfer at its end, and any ledger admits it to its mempool.\<close>

theorem sent_transfer_queued:
  assumes "HandleSendTx C rand nanos recipient amount fee senderAddr d = Ret (Queued tx txID, d')"
    and "LoadWalletCustom (wallet_path C) d = Some w"
    and "wallet_ok (ne_crypto (re_node (ce_rpc C))) w"
    and "dk_readable d (mempool_path (ce_home C))" and "dk_writable d (mempool_path (ce_home C))"
    and "valid_utf8 recipient"
  shows "LoadMempoolFromDisk (ce_home C) d' =
      Some (elems (LoadMempoolFromDisk (ce_home C) d) @ [Some tx]) \<and>
    tx_Recipient tx = recipient \<and> tx_Value tx = amount \<and> amount \<noteq> 0 \<and> tx_Fee tx = fee \<and>
    (\<exists>acc \<in> set (wf_Accounts w). (senderAddr \<noteq> [] \<longrightarrow> ac_Address acc = senderAddr) \<and>
       PubkeyToAddress (elems (tx_SenderPubKey tx)) = Ret (ac_Address acc)) \<and>
    (\<forall>lc. \<exists>lc'. AddToMempool (re_node (ce_rpc C)) tx lc = Ret (True, lc'))"
proof -
  let ?L = "ne_crypto (re_node (ce_rpc C))"
  have given: "recipient \<noteq> []" "amount \<noteq> 0"
    by (rule ccontr, use assms(1) in \<open>simp add: HandleSendTx_def\<close>)+
  moreover have "HasPrefix recipient (cp_AddressPrefix DefaultConsensus)"
    by (rule ccontr, use assms(1) given in \<open>simp add: HandleSendTx_def\<close>)
  ultimately have args: "recipient \<noteq> []" "amount \<noteq> 0"
    "HasPrefix recipient (cp_AddressPrefix DefaultConsensus)" by blast+
  from assms(1) args obtain acc where acc: "send_account (Some w) senderAddr = Inr acc"
    using send_account_error [of "Some w" senderAddr tx txID]
    by (auto simp: HandleSendTx_def assms(2) Let_def split: sum.splits)
  note in_w = send_account_in_wallet [OF acc]
  obtain pub priv where key: "GetPrivateKeyInstance ?L w (ac_Address acc) = Inr (priv, mode3_MarshalPub ?L pub)"
    and pair: "key_pair ?L pub priv"
    and addr: "PubkeyToAddress (mode3_MarshalPub ?L pub) = Ret (ac_Address acc)"
    by (rule wallet_key [OF assms(3), of acc]) (use in_w in simp_all)
  obtain nonce where new: "NewTransfer ?L rand priv (Some (mode3_MarshalPub ?L pub)) recipient amount fee nonce = Ret tx"
    and d': "d' = SaveMempoolToDisk (ce_home C)
      (Some (elems (LoadMempoolFromDisk (ce_home C) d) @ [Some tx])) d"
    using assms(1) args acc key
    by (auto simp: HandleSendTx_def assms(2) Let_def obind_Ret_iff split: if_splits)
  note fields = NewTransfer_Ret [OF new] and signed = NewTransfer_signed [OF pair new]
  have "\<exists>lc'. AddToMempool (re_node (ce_rpc C)) tx lc = Ret (True, lc')" for lc
    using signed addr args fields by (simp add: AddToMempool_def Let_def)
  then show ?thesis
    unfolding d' using load_saved_mempool [OF assms(4,5)] loaded_mempool_ok assms(6) args fields addr in_w
    by (auto simp: queued_ok_def)
qed

text \<open>Alice's wallet, on a node that starts with an empty store.\<close>

definition sending_env :: "(bytes, bytes, (bytes \<times> bytes) list) cli_env" where
  "sending_env = trusting_env
     \<lparr>ce_rpc := (ce_rpc trusting_env)
        \<lparr>re_node := sample_env\<lparr>ne_crypto := sample_lib\<lparr>Keccak256 := (\<lambda>_. replicate 32 (CHR 0x01))\<rparr>\<rparr>\<rparr>,
      ce_open := (\<lambda>_. Some [])\<rparr>"

definition alice_wallet :: WalletFile where
  "alice_wallet = \<lparr>wf_Version = 1, wf_Accounts = [alice_account]\<rparr>"

lemma alice_wallet_texts: "wallet_texts alice_wallet"
proof -
  have "\<forall>c \<in> set (ac_Address alice_account @ ac_PublicKey alice_account @ ac_PrivateKey alice_account).
    (of_char c :: nat) < 0x80" by code_simp
  then show ?thesis by (simp add: wallet_texts_def account_texts_def alice_wallet_def valid_utf8_ascii)
qed

definition wallet_disk :: disk where
  "wallet_disk = empty_disk\<lparr>dk_file := [[''xcosh_data'', ''wallet.dat''] \<mapsto> wallet_json alice_wallet]\<rparr>"

lemma sending_env_simps [simp]:
  "ne_crypto (re_node (ce_rpc sending_env)) = sample_lib\<lparr>Keccak256 := (\<lambda>_. replicate 32 (CHR 0x01))\<rparr>"
  "ne_ldb (re_node (ce_rpc sending_env)) = mem_ldb" "ce_open sending_env x = Some []"
  "ce_home sending_env = None"
  by (simp_all add: sending_env_def trusting_env_def ce_home_def)

lemma alice_account_of:
  "account_of (sample_lib\<lparr>Keccak256 := h\<rparr>) alice_key alice_key alice_account"
  "key_pair (sample_lib\<lparr>Keccak256 := h\<rparr>) alice_key alice_key"
  by (simp_all add: account_of_def key_pair_def alice_account_def)

lemma sending_ledger: "\<exists>lc. cli_ledger sending_env 1 miner = Ret lc \<and> lc_State lc = Map.empty"
proof -
  have "GetLastIndex (ne_ldb (re_node (ce_rpc sending_env))) [] = None"
    by (simp add: GetLastIndex_def mem_ldb_def)
  moreover have "ce_open sending_env = (\<lambda>_. Some [])" by (simp add: fun_eq_iff)
  ultimately show ?thesis
    unfolding cli_ledger_def
    by (simp add: InitializeLedger_empty SpawnGenesis_def with_storage_def Let_def)
qed

theorem sent_transfer_queued_witness:
  "\<exists>txID d'. HandleSendTx sending_env [] 5 ''xcoshbob'' 10 2 alice wallet_disk
       = Ret (Queued sample_tx txID, d') \<and>
     LoadMempoolFromDisk (ce_home sending_env) d' = Some [Some sample_tx] \<and>
     (\<exists>lc'. AddToMempool (re_node (ce_rpc sending_env)) sample_tx (sample_ledger []) = Ret (True, lc'))"
proof -
  let ?w = "\<lparr>wf_Version = 1, wf_Accounts = [alice_account]\<rparr>"
  let ?L = "sample_lib\<lparr>Keccak256 := (\<lambda>_. replicate 32 (CHR 0x01))\<rparr> :: (bytes, bytes) crypto_lib"
  have load: "LoadWalletCustom (wallet_path sending_env) wallet_disk = Some ?w"
    using UnmarshalWallet_saved [OF alice_wallet_texts]
    by (simp add: LoadWalletCustom_def ReadFile_def wallet_path_def GetDataDir_def Join_def wallet_disk_def
        empty_disk_def alice_wallet_def)
  have ok: "wallet_ok ?L ?w" using alice_account_of by (auto simp: wallet_ok_def)
  have acc: "ac_Address alice_account = alice" by (simp add: alice_account_def)
  have key: "GetPrivateKeyInstance ?L ?w alice = Inr (alice_key, alice_key)"
    using GetPrivateKeyInstance_account [OF _ alice_account_of, of alice ?w] by (simp add: acc)
  have none: "LoadMempoolFromDisk (ce_home sending_env) wallet_disk = None"
    by (simp add: LoadMempoolFromDisk_def ReadFile_def mempool_path_def GetDataDir_def Join_def
        wallet_disk_def empty_disk_def)
  have new: "NewTransfer ?L [] alice_key (Some alice_key) ''xcoshbob'' 10 2 0 = Ret sample_tx"
  proof -
    have "PayloadBytes (sample_tx\<lparr>tx_Signature := None\<rparr>) = ''xcoshbob-10-2-0''" by code_simp
    then show ?thesis by (simp add: NewTransfer_def crypto_defs Let_def sample_tx_def)
  qed
  have args: "HasPrefix ''xcoshbob'' (cp_AddressPrefix DefaultConsensus)" by code_simp
  obtain lc where "cli_ledger sending_env 1 alice = Ret lc" "lc_State lc = Map.empty"
    using sending_ledger by blast
  then obtain txID d' where sent: "HandleSendTx sending_env [] 5 ''xcoshbob'' 10 2 alice wallet_disk
      = Ret (Queued sample_tx txID, d')"
    using args load key new none
    by (simp add: HandleSendTx_def send_account_def acc Let_def ComputeID_def)
  have "dk_readable wallet_disk p" "dk_writable wallet_disk p" for p
    by (simp_all add: wallet_disk_def empty_disk_def)
  from sent_transfer_queued [OF sent load _ this sample_recipient] ok none sent
  show ?thesis by auto
qed

section \<open>Mining on request\<close>

lemma MineBlock_appends:
  assumes "MineBlock E now mined lc = Ret lc'"
  shows "\<exists>b. lc_Chain lc' = lc_Chain lc @ [b] \<and> blk_Miner b = lc_MinerAddress lc \<and>
    lc_MinerAddress lc' = lc_MinerAddress lc"
proof -
  from assms obtain parent txs fees lc1 cur block lc2
    where sel: "MineBlock_select lc = Ret (parent, txs, fees, lc1)"
      and tmp: "MineBlock_template parent txs now lc1 = (cur, block, lc2)"
      and com: "MineBlock_commit E parent cur (mined_block (lc_Engine lc2) block mined) fees lc2 = Ret lc'"
    by (rule MineBlock_RetE)
  show ?thesis
    using select_keeps [OF sel] template_keeps [OF tmp] commit_Ret [OF com]
    by (simp add: mined_block_def Mine_prepare_def Let_def)
qed

lemma mine_rounds_appends:
  assumes "mine_rounds R n i lc = Ret lc'"
  shows "\<exists>bs. lc_Chain lc' = lc_Chain lc @ bs \<and> length bs = n \<and>
    (\<forall>b \<in> set bs. blk_Miner b = lc_MinerAddress lc)"
  using assms
proof (induction n arbitrary: i lc)
  case (Suc n)
  then obtain lc1 where one: "MineBlock (re_node R) (fst (re_rounds R i)) (snd (re_rounds R i)) lc = Ret lc1"
    and others: "mine_rounds R n (i + 1) lc1 = Ret lc'"
    by (auto simp: obind_Ret_iff)
  from MineBlock_appends [OF one] Suc.IH [OF others] show ?case by fastforce
qed simp

lemma first_account_valid:
  "valid_utf8 fallback \<Longrightarrow> valid_utf8 (first_account (LoadWallet home d) fallback)"
  using loaded_wallet_texts
  by (fastforce simp: first_account_def LoadWallet_def wallet_texts_def account_texts_def split: option.split)

text \<open>C26. A mining command, from the command line to the chain: an authorised request for \<open>n\<close> blocks
  (a number a float holds) for some address travels as bytes, and the daemon mines exactly \<open>n\<close> blocks, reports the address asked for, pays every one of them to
  the daemon's own miner instead, and leaves an empty queue file whatever was in it.\<close>

theorem manual_mining:
  assumes "authorized (Some cfg) (snd (HandleRPCClient_request loaded))"
    and "HandleManualMine C n target d = (method, params)"
    and "\<bar>n\<bar> < 2 ^ 53" and "valid_utf8 target"
    and "HandleRPCClient conv (ce_rpc C) (Some cfg) loaded method params (lc, d) = Ret (result, (lc', d'), stop)"
    and "dk_writable d (mempool_path (ce_home C))"
  shows "(\<exists>who. result = Printed (RGenerate n who (replicate (nat n) ''Block mined successfully'')) \<and>
      (target \<noteq> [] \<longrightarrow> who = target)) \<and> \<not> stop \<and>
    (\<exists>bs. lc_Chain lc' = lc_Chain lc @ bs \<and> length bs = nat n \<and>
       (\<forall>b \<in> set bs. blk_Miner b = lc_MinerAddress lc)) \<and>
    dk_file d' (mempool_path (ce_home C)) = Some ''[]''"
proof -
  obtain who where m: "method = ''generate''" and p: "params = [PNumber n, PString who]"
    and t: "target \<noteq> [] \<longrightarrow> who = target"
    using assms(2) by (auto simp: HandleManualMine_def)
  let ?who = "if who \<noteq> [] then who else ''SYSTEM_MINER''"
  have "valid_utf8 who"
    using assms(2,4) first_account_valid [of "''SYSTEM_MINER''" "ce_home C" d]
    by (auto simp: HandleManualMine_def valid_utf8_ascii p)
  then have body: "UnmarshalRequest conv (request_json method params)
      = Some \<lparr>rq_Method = method, rq_Params = params, rq_ID = JNumber (int_text 1)\<rparr>"
    using assms(3) by (intro request_understood) (simp_all add: m p sendable_def valid_utf8_ascii)
  from assms(1,5) obtain lc1 where mined: "mine_rounds (ce_rpc C) (nat n) 0 lc = Ret lc1"
    and r: "result = Printed (RGenerate n ?who (replicate (nat n) ''Block mined successfully''))"
      "lc' = lc1" "d' = SaveMempoolToDisk (re_home (ce_rpc C)) (Some []) d" "\<not> stop"
    unfolding HandleRPCClient_def rpc_serve_def body unfolding m p
    by (auto simp: rpc_handle_def rpc_dispatch_def rpc_generate_def generate_count_def HandleRPCClient_reply_def obind_Ret_iff)
  have "dk_file d' (mempool_path (ce_home C)) = Some ''[]''"
    using assms(6) by (simp add: r SaveMempoolToDisk_def WriteFile_def mempool_json_empty ce_home_def)
  then show ?thesis using mine_rounds_appends [OF mined] r t by auto
qed

definition mining_env :: "(bytes, bytes, (bytes \<times> bytes) list) cli_env" where
  "mining_env = trusting_env
     \<lparr>ce_rpc := (ce_rpc trusting_env)\<lparr>re_rounds := (\<lambda>_. (150, 7, [CHR 0x01]))\<rparr>\<rparr>"

theorem manual_mining_witness:
  "\<exists>lc' d'. HandleRPCClient (\<lambda>_. 0) (ce_rpc mining_env) (Some sample_cfg) (False, sample_cfg, empty_disk) ''generate''
       [PNumber 1, PString ''xcoshbob''] (sample_ledger [sample_tx], empty_disk)
     = Ret (Printed (RGenerate 1 ''xcoshbob'' [''Block mined successfully'']), (lc', d'), False) \<and>
     map blk_Miner (lc_Chain lc') = [alice, alice]"
proof -
  let ?R = "ce_rpc mining_env" and ?load = "(False, sample_cfg, empty_disk)"
  have env: "re_node ?R = sample_env" "re_rounds ?R = (\<lambda>_. (150, 7, [CHR 0x01]))"
    by (simp_all add: mining_env_def trusting_env_def)
  have auth: "authorized (Some sample_cfg) (snd (HandleRPCClient_request ?load))"
    using sample_login by (simp add: HandleRPCClient_request_def)
  have cmd: "HandleManualMine mining_env 1 ''xcoshbob'' empty_disk
      = (''generate'', [PNumber 1, PString ''xcoshbob''])"
    by (simp add: HandleManualMine_def)
  from sample_mine obtain lc' where "mine_rounds ?R 1 0 (sample_ledger [sample_tx]) = Ret lc'"
    and len: "length (lc_Chain lc') = 2" by (auto simp: env)
  then obtain d' result where call: "HandleRPCClient (\<lambda>_. 0) ?R (Some sample_cfg) ?load ''generate''
      [PNumber 1, PString ''xcoshbob''] (sample_ledger [sample_tx], empty_disk) = Ret (result, (lc', d'), False)"
    using auth request_understood [of "''generate''" "[PNumber 1, PString ''xcoshbob'']"]
    by (simp add: HandleRPCClient_def rpc_serve_def sendable_def valid_utf8_ascii rpc_handle_def rpc_dispatch_def rpc_generate_def generate_count_def
        del: mine_rounds.simps)
  have "dk_writable empty_disk (mempool_path (ce_home mining_env))" by (simp add: empty_disk_def)
  from manual_mining [OF auth cmd _ sample_recipient call this] show ?thesis
    using call by (auto simp: length_Suc_conv)
qed

end
