(* ===== verification/Dialer_Pool.thy ===== *)
theory Dialer_Pool
  imports Dialer
begin

text \<open>
  The invariant of the dial scheduler: the pool and the indices its tasks carry agree, tasks
  are filed under the ids of their nodes, and the pool is exactly the static tasks that
  \<open>checkDial\<close> lets through. Every turn of the loop keeps it, so no index is ever out of range
  and no task is ever added twice. \<open>pool_exact H X d\<close> allows the pool to lag behind for the nids
  in \<open>X\<close>, which is what the state is between an event and its \<open>updateStaticPool\<close>.
\<close>

section \<open>The invariant\<close>

definition pool_ok :: "'h dialScheduler \<Rightarrow> bool" where
  "pool_ok d \<longleftrightarrow>
     distinct (ds_staticPool d) \<and>
     (\<forall>i < length (ds_staticPool d). ds_staticPool d ! i < length (ds_tasks d) \<and>
        task_index d (ds_staticPool d ! i) = int i) \<and>
     (\<forall>r < length (ds_tasks d). 0 \<le> task_index d r \<longrightarrow> r \<in> set (ds_staticPool d))"

definition tasks_ok :: "'h dialScheduler \<Rightarrow> bool" where
  "tasks_ok d \<longleftrightarrow>
     distinct (map fst (ds_static d)) \<and> distinct (map fst (ds_dialing d)) \<and>
     (\<forall>i r. (i, r) \<in> set (ds_static d) \<or> (i, r) \<in> set (ds_dialing d) \<longrightarrow>
        r < length (ds_tasks d) \<and> nd_ID (task_dest d r) = i)"

definition pool_exact :: "'h exp_heap \<Rightarrow> node_id set \<Rightarrow> 'h dialScheduler \<Rightarrow> bool" where
  "pool_exact H X d \<longleftrightarrow>
     set (ds_staticPool d) \<subseteq> snd ` set (ds_static d) \<and>
     (\<forall>(nid, r) \<in> set (ds_static d).
        (r \<in> set (ds_staticPool d) \<longrightarrow> checkDial H d (task_dest d r) = None) \<and>
        (nid \<notin> X \<longrightarrow> checkDial H d (task_dest d r) = None \<longrightarrow> r \<in> set (ds_staticPool d)))"

definition sched_ok :: "'h exp_heap \<Rightarrow> node_id set \<Rightarrow> 'h dialScheduler \<Rightarrow> bool" where
  "sched_ok H X d \<longleftrightarrow> pool_ok d \<and> tasks_ok d \<and> pool_exact H X d"

lemma pool_exactI:
  assumes "set (ds_staticPool d) \<subseteq> snd ` set (ds_static d)"
    and "\<And>i r. (i, r) \<in> set (ds_static d) \<Longrightarrow> r \<in> set (ds_staticPool d) \<Longrightarrow>
      checkDial H d (task_dest d r) = None"
    and "\<And>i r. (i, r) \<in> set (ds_static d) \<Longrightarrow> i \<notin> X \<Longrightarrow> checkDial H d (task_dest d r) = None \<Longrightarrow>
      r \<in> set (ds_staticPool d)"
  shows "pool_exact H X d"
  using assms by (auto simp: pool_exact_def)

lemma pool_exactD:
  assumes "pool_exact H X d"
  shows "set (ds_staticPool d) \<subseteq> snd ` set (ds_static d)"
    and "(i, r) \<in> set (ds_static d) \<Longrightarrow> r \<in> set (ds_staticPool d) \<Longrightarrow>
      checkDial H d (task_dest d r) = None"
    and "(i, r) \<in> set (ds_static d) \<Longrightarrow> i \<notin> X \<Longrightarrow> checkDial H d (task_dest d r) = None \<Longrightarrow>
      r \<in> set (ds_staticPool d)"
  using assms by (auto simp: pool_exact_def)

text \<open>Ids are filed once.\<close>

lemma tasks_ok_static:
  assumes "tasks_ok d" and "(i, r) \<in> set (ds_static d)"
  shows "r < length (ds_tasks d)" and "nd_ID (task_dest d r) = i"
    and "(i, s) \<in> set (ds_static d) \<Longrightarrow> s = r"
  using assms by (auto simp: tasks_ok_def dest: eq_key_imp_eq_value)

lemma newDialScheduler_ok: "sched_ok H {} (newDialScheduler config h now)"
  by (simp add: sched_ok_def pool_ok_def tasks_ok_def pool_exact_def newDialScheduler_def)

section \<open>Setting an index\<close>

lemma set_index_simps [simp]:
  "ds_config (set_index r i d) = ds_config d" "ds_dialing (set_index r i d) = ds_dialing d"
  "ds_peers (set_index r i d) = ds_peers d" "ds_static (set_index r i d) = ds_static d"
  "ds_staticPool (set_index r i d) = ds_staticPool d" "ds_history (set_index r i d) = ds_history d"
  "ds_dialPeers (set_index r i d) = ds_dialPeers d"
  "length (ds_tasks (set_index r i d)) = length (ds_tasks d)"
  by (simp_all add: set_index_def)

lemma task_dest_set_index [simp]: "task_dest (set_index r i d) s = task_dest d s"
  by (cases "r < length (ds_tasks d)") (auto simp: task_dest_def set_index_def nth_list_update list_update_beyond)

lemma task_index_set_index:
  "r < length (ds_tasks d) \<Longrightarrow> task_index (set_index r i d) s = (if s = r then i else task_index d s)"
  by (simp add: task_index_def set_index_def nth_list_update)

lemma checkDial_set_index [simp]: "checkDial H (set_index r i d) n = checkDial H d n"
  by (simp add: checkDial_def)

text \<open>What a field update leaves alone.\<close>

lemma task_simps [simp]:
  "task_index (d\<lparr>ds_staticPool := p\<rparr>) = task_index d" "task_dest (d\<lparr>ds_staticPool := p\<rparr>) = task_dest d"
  "task_index (d\<lparr>ds_static := s\<rparr>) = task_index d" "task_dest (d\<lparr>ds_static := s\<rparr>) = task_dest d"
  "task_index (d\<lparr>ds_dialing := g\<rparr>) = task_index d" "task_dest (d\<lparr>ds_dialing := g\<rparr>) = task_dest d"
  "task_index (d\<lparr>ds_peers := q\<rparr>) = task_index d" "task_dest (d\<lparr>ds_peers := q\<rparr>) = task_dest d"
  "task_index (d\<lparr>ds_dialPeers := m\<rparr>) = task_index d" "task_dest (d\<lparr>ds_dialPeers := m\<rparr>) = task_dest d"
  "task_index (d\<lparr>ds_history := h\<rparr>) = task_index d" "task_dest (d\<lparr>ds_history := h\<rparr>) = task_dest d"
  "task_index (d\<lparr>ds_lastStatsLog := t\<rparr>) = task_index d"
  "task_dest (d\<lparr>ds_lastStatsLog := t\<rparr>) = task_dest d"
  "task_index (d\<lparr>ds_doneSinceLastLog := n\<rparr>) = task_index d"
  "task_dest (d\<lparr>ds_doneSinceLastLog := n\<rparr>) = task_dest d"
  by (simp_all add: task_index_def task_dest_def fun_eq_iff)

lemma checkDial_simps [simp]:
  "checkDial H (d\<lparr>ds_staticPool := p\<rparr>) n = checkDial H d n"
  "checkDial H (d\<lparr>ds_static := s\<rparr>) n = checkDial H d n"
  "checkDial H (d\<lparr>ds_tasks := ts\<rparr>) n = checkDial H d n"
  "checkDial H (d\<lparr>ds_dialPeers := m\<rparr>) n = checkDial H d n"
  "checkDial H (d\<lparr>ds_lastStatsLog := t\<rparr>) n = checkDial H d n"
  "checkDial H (d\<lparr>ds_doneSinceLastLog := k\<rparr>) n = checkDial H d n"
  by (simp_all add: checkDial_def)

lemma pool_ok_index:
  assumes "pool_ok d" and "r < length (ds_tasks d)"
  shows "0 \<le> task_index d r \<longleftrightarrow> r \<in> set (ds_staticPool d)"
  using assms by (fastforce simp: pool_ok_def in_set_conv_nth)

lemma static_lookup:
  "tasks_ok d \<Longrightarrow> map_of (ds_static d) nid = Some r \<longleftrightarrow> (nid, r) \<in> set (ds_static d)"
  by (simp add: tasks_ok_def)

section \<open>Adding to the pool\<close>

lemma addToStaticPool_ok:
  assumes ok: "pool_ok d" and r: "r < length (ds_tasks d)" and "r \<notin> set (ds_staticPool d)"
  shows "\<exists>d'. addToStaticPool r d = Ret d' \<and> pool_ok d' \<and>
    d' = set_index r (int (length (ds_staticPool d))) (d\<lparr>ds_staticPool := ds_staticPool d @ [r]\<rparr>)"
proof -
  let ?d1 = "d\<lparr>ds_staticPool := ds_staticPool d @ [r]\<rparr>"
  let ?d = "set_index r (int (length (ds_staticPool d))) ?d1"
  have "task_index d r < 0" using pool_ok_index [OF ok r] assms(3) by simp
  then have "addToStaticPool r d = Ret ?d" by (simp add: addToStaticPool_def Let_def)
  moreover have idx: "task_index ?d s = (if s = r then int (length (ds_staticPool d)) else task_index d s)"
    for s
    using task_index_set_index [of r ?d1] r by simp
  have len: "length (ds_tasks ?d) = length (ds_tasks d)" by simp
  have "pool_ok ?d"
    unfolding pool_ok_def idx len
    using ok r assms(3) by (auto simp: pool_ok_def nth_append less_Suc_eq)
  ultimately show ?thesis by blast
qed

text \<open>Bringing the pool up to date at one id.\<close>

lemma updateStaticPool_ok:
  assumes ok: "sched_ok H X d"
  shows "\<exists>d'. updateStaticPool H nid d = Ret d' \<and> sched_ok H (X - {nid}) d' \<and>
    ds_dialing d' = ds_dialing d \<and> ds_config d' = ds_config d \<and> ds_peers d' = ds_peers d
    \<and> ds_dialPeers d' = ds_dialPeers d"
proof (cases "map_of (ds_static d) nid")
  case None
  then have "nid \<notin> fst ` set (ds_static d)" by (simp add: map_of_eq_None_iff)
  then have "sched_ok H (X - {nid}) d"
    using ok by (force simp: sched_ok_def pool_exact_def)
  with None show ?thesis by (simp add: updateStaticPool_def)
next
  case (Some r)
  have p: "pool_ok d" and t: "tasks_ok d" and e: "pool_exact H X d"
    using ok by (simp_all add: sched_ok_def)
  have mem: "(nid, r) \<in> set (ds_static d)" using Some t by (simp add: static_lookup)
  then have r: "r < length (ds_tasks d)" using t by (simp add: tasks_ok_static)
  show ?thesis
  proof (cases "task_index d r < 0 \<and> checkDial H d (task_dest d r) = None")
    case True
    then have "r \<notin> set (ds_staticPool d)" using pool_ok_index [OF p r] by simp
    from addToStaticPool_ok [OF p r this] obtain d' where add: "addToStaticPool r d = Ret d'"
      and p': "pool_ok d'"
      and d': "d' = set_index r (int (length (ds_staticPool d))) (d\<lparr>ds_staticPool := ds_staticPool d @ [r]\<rparr>)"
      by blast
    have "tasks_ok d'" using t by (simp add: tasks_ok_def d')
    moreover have "pool_exact H (X - {nid}) d'"
    proof (rule pool_exactI)
      show "set (ds_staticPool d') \<subseteq> snd ` set (ds_static d')"
        using pool_exactD(1) [OF e] mem by (force simp: d')
    next
      fix i s assume "(i, s) \<in> set (ds_static d')" and "s \<in> set (ds_staticPool d')"
      then show "checkDial H d' (task_dest d' s) = None"
        using pool_exactD(2) [OF e, of i s] True by (auto simp: d')
    next
      fix i s assume "(i, s) \<in> set (ds_static d')" and "i \<notin> X - {nid}"
        and "checkDial H d' (task_dest d' s) = None"
      then show "s \<in> set (ds_staticPool d')"
        using pool_exactD(3) [OF e, of i s] tasks_ok_static(3) [OF t mem, of s] by (auto simp: d')
    qed
    ultimately show ?thesis
      using p' Some True add by (simp add: updateStaticPool_def sched_ok_def d')
  next
    case False
    from False have here: "checkDial H d (task_dest d r) = None \<longrightarrow> r \<in> set (ds_staticPool d)"
      using pool_ok_index [OF p r] by auto
    have "pool_exact H (X - {nid}) d"
    proof (rule pool_exactI)
      fix i s assume "(i, s) \<in> set (ds_static d)" and "i \<notin> X - {nid}"
        and "checkDial H d (task_dest d s) = None"
      then show "s \<in> set (ds_staticPool d)"
        using pool_exactD(3) [OF e, of i s] tasks_ok_static(3) [OF t mem, of s] here by blast
    qed (use pool_exactD [OF e] in blast)+
    then show ?thesis using Some False p t by (auto simp: updateStaticPool_def sched_ok_def)
  qed
qed

lemma updateStaticPool_fold:
  assumes "sched_ok H X d"
  shows "\<exists>d'. ofold (updateStaticPool H) nids d = Ret d' \<and> sched_ok H (X - set nids) d' \<and>
    ds_dialing d' = ds_dialing d \<and> ds_config d' = ds_config d \<and> ds_peers d' = ds_peers d
    \<and> ds_dialPeers d' = ds_dialPeers d"
  using assms
proof (induction nids arbitrary: X d)
  case (Cons nid nids)
  from updateStaticPool_ok [OF Cons.prems, of nid] obtain d1
    where one: "updateStaticPool H nid d = Ret d1" "sched_ok H (X - {nid}) d1"
      "ds_dialing d1 = ds_dialing d" "ds_config d1 = ds_config d" "ds_peers d1 = ds_peers d"
      "ds_dialPeers d1 = ds_dialPeers d"
    by blast
  have "X - {nid} - set nids = X - set (nid # nids)" by auto
  with Cons.IH [OF one(2)] one show ?case by simp
qed simp

section \<open>Removing from the pool\<close>

text \<open>The list a swap-remove leaves: the last element in the place of the removed one.\<close>

definition swap_remove :: "nat \<Rightarrow> 'a list \<Rightarrow> 'a list" where
  "swap_remove i xs = take (length xs - 1) (xs[i := xs ! (length xs - 1)])"

lemma length_swap_remove [simp]: "length (swap_remove i xs) = length xs - 1"
  by (simp add: swap_remove_def)

lemma nth_swap_remove:
  "j < length xs - 1 \<Longrightarrow> swap_remove i xs ! j = (if j = i then xs ! (length xs - 1) else xs ! j)"
  by (auto simp: swap_remove_def nth_list_update)

lemma swap_remove_distinct:
  assumes "distinct xs" and "i < length xs"
  shows "distinct (swap_remove i xs)" and "set (swap_remove i xs) = set xs - {xs ! i}"
proof -
  let ?e = "length xs - 1"
  have inj: "xs ! a = xs ! b \<longleftrightarrow> a = b" if "a < length xs" "b < length xs" for a b
    using nth_eq_iff_index_eq [OF assms(1) that] .
  show "distinct (swap_remove i xs)"
    unfolding distinct_conv_nth using assms(2) by (auto simp: nth_swap_remove inj)
  show "set (swap_remove i xs) = set xs - {xs ! i}"
  proof (rule set_eqI)
    fix x
    have "x \<in> set (swap_remove i xs) \<longleftrightarrow> (\<exists>j < ?e. x = (if j = i then xs ! ?e else xs ! j))"
      by (auto simp: in_set_conv_nth nth_swap_remove)
    also have "\<dots> \<longleftrightarrow> (\<exists>j < length xs. j \<noteq> i \<and> x = xs ! j)"
    proof
      assume "\<exists>j < ?e. x = (if j = i then xs ! ?e else xs ! j)"
      then obtain j where "j < ?e" "x = (if j = i then xs ! ?e else xs ! j)" by blast
      then show "\<exists>j < length xs. j \<noteq> i \<and> x = xs ! j"
        by (intro exI [of _ "if j = i then ?e else j"]) auto
    next
      assume "\<exists>j < length xs. j \<noteq> i \<and> x = xs ! j"
      then obtain j where "j < length xs" "j \<noteq> i" "x = xs ! j" by blast
      then show "\<exists>j < ?e. x = (if j = i then xs ! ?e else xs ! j)"
        using assms(2) by (intro exI [of _ "if j = ?e then i else j"]) auto
    qed
    also have "\<dots> \<longleftrightarrow> x \<in> set xs - {xs ! i}"
      using assms(2) by (auto simp: in_set_conv_nth inj)
    finally show "x \<in> set (swap_remove i xs) \<longleftrightarrow> x \<in> set xs - {xs ! i}" .
  qed
qed

text \<open>What a removal leaves alone.\<close>

definition same_but_pool :: "'h dialScheduler \<Rightarrow> 'h dialScheduler \<Rightarrow> bool" where
  "same_but_pool d d' \<longleftrightarrow>
     ds_config d' = ds_config d \<and> ds_dialing d' = ds_dialing d \<and> ds_peers d' = ds_peers d \<and>
     ds_dialPeers d' = ds_dialPeers d \<and> ds_static d' = ds_static d \<and>
     ds_history d' = ds_history d \<and> length (ds_tasks d') = length (ds_tasks d) \<and>
     task_dest d' = task_dest d"

lemma same_but_pool_check: "same_but_pool d d' \<Longrightarrow> checkDial H d' n = checkDial H d n"
  by (simp add: same_but_pool_def checkDial_def)

lemma same_but_pool_tasks: "same_but_pool d d' \<Longrightarrow> tasks_ok d' \<longleftrightarrow> tasks_ok d"
  by (simp add: same_but_pool_def tasks_ok_def)

lemma removeFromStaticPool_ok:
  assumes ok: "pool_ok d" and i: "i < length (ds_staticPool d)"
  shows "\<exists>d'. removeFromStaticPool (int i) d = Ret d' \<and> pool_ok d' \<and> same_but_pool d d' \<and>
    set (ds_staticPool d') = set (ds_staticPool d) - {ds_staticPool d ! i}"
proof -
  let ?p = "ds_staticPool d" and ?e = "length (ds_staticPool d) - 1"
  let ?d1 = "set_index (?p ! ?e) (int i) (d\<lparr>ds_staticPool := ?p[i := ?p ! ?e]\<rparr>)"
  let ?d2 = "set_index (?p ! i) (-1) (?d1\<lparr>ds_staticPool := swap_remove i ?p\<rparr>)"
  have dist: "distinct ?p" and valid: "\<And>j. j < length ?p \<Longrightarrow> ?p ! j < length (ds_tasks d)"
    and idx: "\<And>j. j < length ?p \<Longrightarrow> task_index d (?p ! j) = int j"
    and only: "\<And>r. r < length (ds_tasks d) \<Longrightarrow> 0 \<le> task_index d r \<Longrightarrow> r \<in> set ?p"
    using ok by (simp_all add: pool_ok_def)
  have e: "?e < length ?p" using i by linarith
  have "?p[i := ?p ! ?e] ! i = ?p ! ?e" using i by simp
  then have run: "removeFromStaticPool (int i) d = Ret ?d2"
    using i by (simp add: removeFromStaticPool_def Let_def swap_remove_def)
  have index: "task_index ?d2 s =
      (if s = ?p ! i then -1 else if s = ?p ! ?e then int i else task_index d s)" for s
    using valid [OF i] valid [OF e] by (simp add: task_index_set_index)
  note sw = swap_remove_distinct [OF dist i]
  have inj: "?p ! a = ?p ! b \<longleftrightarrow> a = b" if "a < length ?p" "b < length ?p" for a b
    using nth_eq_iff_index_eq [OF dist that] .
  have "pool_ok ?d2"
  proof -
    have "swap_remove i ?p ! j < length (ds_tasks d) \<and> task_index ?d2 (swap_remove i ?p ! j) = int j"
      if "j < ?e" for j
      using that valid e idx unfolding index by (auto simp: nth_swap_remove inj i)
    moreover have "r \<in> set (swap_remove i ?p)"
      if "r < length (ds_tasks d)" "0 \<le> task_index ?d2 r" for r
      using that only [of r] nth_mem [OF e] unfolding index sw(2) by (auto split: if_splits)
    ultimately show ?thesis using sw(1) by (simp add: pool_ok_def)
  qed
  moreover have "same_but_pool d ?d2" by (simp add: same_but_pool_def fun_eq_iff)
  ultimately show ?thesis using run sw(2) by auto
qed

text \<open>Removing the task of an id whose node may not be dialed any more.\<close>

lemma pool_exact_removed:
  assumes "pool_exact H X d" and "tasks_ok d" and "(nid, r) \<in> set (ds_static d)"
    and "same_but_pool d d'" and "set (ds_staticPool d') = set (ds_staticPool d) - {r}"
  shows "pool_exact H (insert nid X) d'"
proof (rule pool_exactI)
  show "set (ds_staticPool d') \<subseteq> snd ` set (ds_static d')"
    using pool_exactD(1) [OF assms(1)] assms(4,5) by (auto simp: same_but_pool_def)
next
  fix i s assume "(i, s) \<in> set (ds_static d')" and "s \<in> set (ds_staticPool d')"
  then show "checkDial H d' (task_dest d' s) = None"
    using pool_exactD(2) [OF assms(1), of i s] assms(4,5) same_but_pool_check [OF assms(4)]
    by (auto simp: same_but_pool_def)
next
  fix i s assume s: "(i, s) \<in> set (ds_static d')" and i: "i \<notin> insert nid X"
    and c: "checkDial H d' (task_dest d' s) = None"
  from s have s': "(i, s) \<in> set (ds_static d)" using assms(4) by (simp add: same_but_pool_def)
  have "s \<noteq> r"
    using tasks_ok_static(2) [OF assms(2) s'] tasks_ok_static(2) [OF assms(2,3)] i by auto
  then show "s \<in> set (ds_staticPool d')"
    using pool_exactD(3) [OF assms(1) s'] i c assms(4,5) same_but_pool_check [OF assms(4)]
    by (simp add: same_but_pool_def)
qed

end
