(* ===== verification/Dialer_Runs.thy ===== *)
theory Dialer_Runs
  imports Dialer_Pool
begin

text \<open>
  Every turn of the dial loop keeps the scheduler's invariant and never panics, and the dials
  in flight stay within the configured number.
\<close>

section \<open>Events that change what may be dialed\<close>

text \<open>Two schedulers that agree on the tasks, the static set and the pool.\<close>

definition same_tasks :: "'h dialScheduler \<Rightarrow> 'h dialScheduler \<Rightarrow> bool" where
  "same_tasks d e \<longleftrightarrow>
     ds_tasks e = ds_tasks d \<and> ds_static e = ds_static d \<and> ds_staticPool e = ds_staticPool d"

lemma same_tasks_view:
  assumes "same_tasks d e"
  shows "task_dest e = task_dest d" and "task_index e = task_index d" and "pool_ok e \<longleftrightarrow> pool_ok d"
    and "ds_static e = ds_static d" and "ds_staticPool e = ds_staticPool d"
  using assms by (auto simp: same_tasks_def task_dest_def task_index_def fun_eq_iff pool_ok_def)

text \<open>An event that only lets more nodes be dialed, all of them in \<open>Y\<close>.\<close>

lemma sched_ok_easier:
  assumes ok: "sched_ok H X d" and same: "same_tasks d e" and t: "tasks_ok e"
    and keep: "\<And>n. checkDial H d n = None \<Longrightarrow> checkDial H e n = None"
    and gain: "\<And>n. checkDial H e n = None \<Longrightarrow> nd_ID n \<notin> Y \<Longrightarrow> checkDial H d n = None"
  shows "sched_ok H (X \<union> Y) e"
proof -
  have ex: "pool_exact H X d" using ok by (simp add: sched_ok_def)
  note v = same_tasks_view [OF same]
  have "pool_exact H (X \<union> Y) e"
  proof (rule pool_exactI)
    show "set (ds_staticPool e) \<subseteq> snd ` set (ds_static e)" using pool_exactD(1) [OF ex] v by simp
  next
    fix i r assume "(i, r) \<in> set (ds_static e)" and "r \<in> set (ds_staticPool e)"
    then show "checkDial H e (task_dest e r) = None"
      using pool_exactD(2) [OF ex, of i r] keep v by simp
  next
    fix i r assume m: "(i, r) \<in> set (ds_static e)" and i: "i \<notin> X \<union> Y"
      and c: "checkDial H e (task_dest e r) = None"
    have "nd_ID (task_dest e r) = i" by (rule tasks_ok_static(2) [OF t m])
    then have "checkDial H d (task_dest d r) = None" using gain [OF c] i v(1) by simp
    then show "r \<in> set (ds_staticPool e)" using pool_exactD(3) [OF ex, of i r] m i v by simp
  qed
  with ok t v(3) show ?thesis by (simp add: sched_ok_def)
qed

text \<open>An event that forbids the node of one id: its task, when it is in the pool, has to go.\<close>

lemma sched_ok_harder:
  assumes ok: "sched_ok H {} d" and same: "same_tasks d e" and t: "tasks_ok e"
    and others: "\<And>n. nd_ID n \<noteq> nid \<Longrightarrow> checkDial H e n = checkDial H d n"
    and hit: "\<And>n. nd_ID n = nid \<Longrightarrow> checkDial H e n \<noteq> None"
  shows "\<forall>r. (nid, r) \<in> set (ds_static d) \<longrightarrow> r \<notin> set (ds_staticPool d) \<Longrightarrow> sched_ok H {} e"
    and "(nid, r) \<in> set (ds_static d) \<Longrightarrow> i < length (ds_staticPool d) \<Longrightarrow> ds_staticPool d ! i = r \<Longrightarrow>
      \<exists>d'. removeFromStaticPool (int i) e = Ret d' \<and> sched_ok H {} d' \<and> same_but_pool e d'"
proof -
  have ex: "pool_exact H {} d" and p: "pool_ok d" using ok by (simp_all add: sched_ok_def)
  note v = same_tasks_view [OF same]
  have p': "pool_ok e" using p v(3) by simp
  have static_id: "nd_ID (task_dest d s) = j" if "(j, s) \<in> set (ds_static d)" for j s
    using tasks_ok_static(2) [OF t] that v by simp
  show "sched_ok H {} e" if out: "\<forall>r. (nid, r) \<in> set (ds_static d) \<longrightarrow> r \<notin> set (ds_staticPool d)"
  proof -
    have "pool_exact H {} e"
    proof (rule pool_exactI)
      show "set (ds_staticPool e) \<subseteq> snd ` set (ds_static e)" using pool_exactD(1) [OF ex] v by simp
    next
      fix j s assume m: "(j, s) \<in> set (ds_static e)" and s: "s \<in> set (ds_staticPool e)"
      then have "j \<noteq> nid" using out v by auto
      then show "checkDial H e (task_dest e s) = None"
        using pool_exactD(2) [OF ex, of j s] others [of "task_dest d s"] static_id [of j s] m s v by simp
    next
      fix j s assume m: "(j, s) \<in> set (ds_static e)" and c: "checkDial H e (task_dest e s) = None"
      then have "j \<noteq> nid" using hit [of "task_dest d s"] static_id [of j s] v by auto
      then show "s \<in> set (ds_staticPool e)"
        using pool_exactD(3) [OF ex, of j s] others [of "task_dest d s"] static_id [of j s] m c v by simp
    qed
    with p' t show ?thesis by (simp add: sched_ok_def)
  qed
  show "\<exists>d'. removeFromStaticPool (int i) e = Ret d' \<and> sched_ok H {} d' \<and> same_but_pool e d'"
    if r: "(nid, r) \<in> set (ds_static d)" and i: "i < length (ds_staticPool d)" "ds_staticPool d ! i = r"
  proof -
    from removeFromStaticPool_ok [OF p', of i] i v obtain d'
      where d': "removeFromStaticPool (int i) e = Ret d'" "pool_ok d'" "same_but_pool e d'"
        "set (ds_staticPool d') = set (ds_staticPool d) - {r}" by auto
    have w: "ds_static d' = ds_static d" "task_dest d' = task_dest d"
      using d'(3) v by (simp_all add: same_but_pool_def)
    have "pool_exact H {} d'"
    proof (rule pool_exactI)
      show "set (ds_staticPool d') \<subseteq> snd ` set (ds_static d')"
        using pool_exactD(1) [OF ex] d'(4) w by auto
    next
      fix j s assume m: "(j, s) \<in> set (ds_static d')" and s: "s \<in> set (ds_staticPool d')"
      then have "j \<noteq> nid" using tasks_ok_static(3) [OF t, of nid r s] r d'(4) w v by auto
      then show "checkDial H d' (task_dest d' s) = None"
        using pool_exactD(2) [OF ex, of j s] others [of "task_dest d s"] static_id [of j s] m s w d'(4)
          same_but_pool_check [OF d'(3)] by simp
    next
      fix j s assume m: "(j, s) \<in> set (ds_static d')" and "j \<notin> {}"
        and c: "checkDial H d' (task_dest d' s) = None"
      then have j: "j \<noteq> nid"
        using hit [of "task_dest d s"] static_id [of j s] w same_but_pool_check [OF d'(3)] by auto
      then have "s \<noteq> r" using static_id [of j s] static_id [OF r] m w by auto
      then show "s \<in> set (ds_staticPool d')"
        using pool_exactD(3) [OF ex, of j s] others [of "task_dest d s"] static_id [of j s] j m c w d'(4)
          same_but_pool_check [OF d'(3)] by simp
    qed
    with d' t same_but_pool_tasks [OF d'(3)] show ?thesis by (simp add: sched_ok_def)
  qed
qed

section \<open>Starting static dials\<close>

lemma update_fresh: "k \<notin> fst ` set al \<Longrightarrow> AList.update k v al = al @ [(k, v)]"
  by (induction al) auto

lemma pool_task_dialable:
  assumes "sched_ok H X d" and "i < length (ds_staticPool d)"
  shows "(nd_ID (task_dest d (ds_staticPool d ! i)), ds_staticPool d ! i) \<in> set (ds_static d)"
    and "checkDial H d (task_dest d (ds_staticPool d ! i)) = None"
    and "nd_ID (task_dest d (ds_staticPool d ! i)) \<notin> fst ` set (ds_dialing d)"
proof -
  let ?r = "ds_staticPool d ! i"
  have ex: "pool_exact H X d" and t: "tasks_ok d" using assms(1) by (simp_all add: sched_ok_def)
  have "?r \<in> set (ds_staticPool d)" using assms(2) by simp
  with pool_exactD(1) [OF ex] obtain j where j: "(j, ?r) \<in> set (ds_static d)" by auto
  with tasks_ok_static(2) [OF t j] show "(nd_ID (task_dest d ?r), ?r) \<in> set (ds_static d)" by simp
  show c: "checkDial H d (task_dest d ?r) = None"
    using pool_exactD(2) [OF ex j] assms(2) by simp
  then have "map_of (ds_dialing d) (nd_ID (task_dest d ?r)) = None"
    by (simp add: checkDial_def split: if_splits)
  then show "nd_ID (task_dest d ?r) \<notin> fst ` set (ds_dialing d)" by (simp add: map_of_eq_None_iff)
qed

text \<open>One dial: the task leaves the pool and its id is in flight.\<close>

lemma start_one:
  assumes ok: "sched_ok H {} d" and i: "i < length (ds_staticPool d)" and h: "history_laws H"
  shows "\<exists>d'. removeFromStaticPool (int i) (startDial H now (ds_staticPool d ! i) d) = Ret d' \<and>
    sched_ok H {} d' \<and> length (ds_dialing d') = Suc (length (ds_dialing d)) \<and>
    ds_config d' = ds_config d \<and> ds_peers d' = ds_peers d \<and> ds_dialPeers d' = ds_dialPeers d"
proof -
  let ?r = "ds_staticPool d ! i"
  let ?n = "nd_ID (task_dest d ?r)" and ?e = "startDial H now ?r d"
  note p = pool_task_dialable [OF ok i]
  have t: "tasks_ok d" using ok by (simp add: sched_ok_def)
  have r: "?r < length (ds_tasks d)" by (rule tasks_ok_static(1) [OF t p(1)])
  have dialing: "ds_dialing ?e = ds_dialing d @ [(?n, ?r)]"
    by (simp add: startDial_def Let_def update_fresh [OF p(3)])
  have same: "same_tasks d ?e" by (simp add: same_tasks_def startDial_def Let_def)
  note v = same_tasks_view [OF same]
  have "tasks_ok ?e"
    using t p(3) r v(1,4) by (auto simp: tasks_ok_def dialing same [unfolded same_tasks_def])
  moreover have "checkDial H ?e n = checkDial H d n" if "nd_ID n \<noteq> ?n" for n
    using that by (simp add: checkDial_def startDial_def Let_def update_conv'
        history_lawsD(1) [OF h])
  moreover have "checkDial H ?e n \<noteq> None" if "nd_ID n = ?n" for n
    using that by (simp add: checkDial_def startDial_def Let_def update_conv')
  ultimately obtain d' where d': "removeFromStaticPool (int i) ?e = Ret d'" "sched_ok H {} d'"
      "same_but_pool ?e d'"
    using sched_ok_harder(2) [OF ok same, of ?n ?r i] p(1) i by blast
  then have "ds_dialing d' = ds_dialing ?e" "ds_config d' = ds_config ?e" "ds_peers d' = ds_peers ?e"
      "ds_dialPeers d' = ds_dialPeers ?e"
    by (simp_all add: same_but_pool_def)
  with d' dialing show ?thesis by (simp add: startDial_def Let_def)
qed

lemma static_dials_ok:
  assumes "sched_ok H {} d" and h: "history_laws H"
  shows "\<exists>n d'. static_dials H rnd now started k d = Ret (n, d') \<and> sched_ok H {} d' \<and>
    length (ds_dialing d') \<le> length (ds_dialing d) + k \<and>
    length (ds_dialing d') = length (ds_dialing d) + (n - started) \<and> started \<le> n \<and>
    ds_config d' = ds_config d \<and> ds_peers d' = ds_peers d \<and> ds_dialPeers d' = ds_dialPeers d"
  using assms(1)
proof (induction k arbitrary: started d)
  case (Suc k)
  show ?case
  proof (cases "ds_staticPool d = []")
    case False
    let ?i = "rnd started mod length (ds_staticPool d)"
    have "?i < length (ds_staticPool d)" using False by simp
    from start_one [OF Suc.prems this h] obtain d1
      where d1: "removeFromStaticPool (int ?i) (startDial H now (ds_staticPool d ! ?i) d) = Ret d1"
        "sched_ok H {} d1" "length (ds_dialing d1) = Suc (length (ds_dialing d))"
        "ds_config d1 = ds_config d" "ds_peers d1 = ds_peers d" "ds_dialPeers d1 = ds_dialPeers d"
      by blast
    from Suc.IH [OF d1(2), of "Suc started"] obtain n d'
      where "static_dials H rnd now (Suc started) k d1 = Ret (n, d')" "sched_ok H {} d'"
        "length (ds_dialing d') \<le> length (ds_dialing d1) + k"
        "length (ds_dialing d') = length (ds_dialing d1) + (n - Suc started)" "Suc started \<le> n"
        "ds_config d' = ds_config d1" "ds_peers d' = ds_peers d1" "ds_dialPeers d' = ds_dialPeers d1"
      by blast
    with d1 False show ?thesis by (simp add: Let_def)
  qed (use Suc.prems in simp)
qed simp

section \<open>Handling an event\<close>

text \<open>What an event leaves of the fields the capacity depends on.\<close>

definition kept :: "'h dialScheduler \<Rightarrow> 'h dialScheduler \<Rightarrow> bool" where
  "kept d d' \<longleftrightarrow>
     ds_config d' = ds_config d \<and> length (ds_dialing d') \<le> length (ds_dialing d)"

lemma handle_done:
  assumes ok: "sched_ok H {} d" and task: "(nd_ID (task_dest d r), r) \<in> set (ds_dialing d)"
  shows "\<exists>d'. dial_handle H now (Done r) d = Ret d' \<and> sched_ok H {} d' \<and> kept d d' \<and>
    ds_peers d' = ds_peers d \<and> ds_dialPeers d' = ds_dialPeers d"
proof -
  let ?n = "nd_ID (task_dest d r)"
  let ?e = "d\<lparr>ds_dialing := AList.delete ?n (ds_dialing d)\<rparr>"
  have same: "same_tasks d ?e" by (simp add: same_tasks_def)
  have t: "tasks_ok d" using ok by (simp add: sched_ok_def)
  have "set (AList.delete ?n (ds_dialing d)) \<subseteq> set (ds_dialing d)" by (auto simp: AList.delete_eq)
  with t have "tasks_ok ?e" by (auto simp: tasks_ok_def distinct_delete)
  moreover have "checkDial H ?e n = None" if "checkDial H d n = None" for n
    using that by (auto simp: checkDial_def delete_conv' split: if_splits)
  moreover have "checkDial H d n = None" if "checkDial H ?e n = None" "nd_ID n \<notin> {?n}" for n
    using that by (auto simp: checkDial_def delete_conv' split: if_splits)
  ultimately have "sched_ok H ({} \<union> {?n}) ?e" by (rule sched_ok_easier [OF ok same])
  from updateStaticPool_ok [OF this, of ?n] obtain d1
    where d1: "updateStaticPool H ?n ?e = Ret d1" "sched_ok H {} d1" "ds_dialing d1 = ds_dialing ?e"
      "ds_config d1 = ds_config ?e" "ds_peers d1 = ds_peers ?e" "ds_dialPeers d1 = ds_dialPeers ?e"
    by auto
  have "sched_ok H {} (d1\<lparr>ds_doneSinceLastLog := k\<rparr>)" for k
    using d1(2) by (simp add: sched_ok_def pool_ok_def tasks_ok_def pool_exact_def)
  with d1 show ?thesis by (simp add: dial_handle_def Let_def kept_def length_delete_le)
qed

lemma sched_ok_dialPeers [simp]: "sched_ok H X (d\<lparr>ds_dialPeers := m\<rparr>) \<longleftrightarrow> sched_ok H X d"
  by (simp add: sched_ok_def pool_ok_def tasks_ok_def pool_exact_def)

lemma handle_peer_added:
  assumes ok: "sched_ok H {} d"
  shows "\<exists>d'. dial_handle H now (PeerAdded c) d = Ret d' \<and> sched_ok H {} d' \<and> kept d d' \<and>
    ds_peers d' = insert (nd_ID (cn_node c)) (ds_peers d) \<and>
    ds_dialPeers d' = ds_dialPeers d + (if dialed c then 1 else 0)"
proof -
  let ?n = "nd_ID (cn_node c)"
  let ?d1 = "d\<lparr>ds_dialPeers := ds_dialPeers d + (if dialed c then 1 else 0)\<rparr>"
  let ?e = "?d1\<lparr>ds_peers := insert ?n (ds_peers d)\<rparr>"
  have ok1: "sched_ok H {} ?d1" using ok by simp
  then have t: "tasks_ok ?d1" and p: "pool_ok ?d1" by (simp_all add: sched_ok_def)
  have run: "dial_handle H now (PeerAdded c) d = (case map_of (ds_static ?e) ?n of None \<Rightarrow> Ret ?e
      | Some r \<Rightarrow> if task_index ?e r \<ge> 0 then removeFromStaticPool (task_index ?e r) ?e else Ret ?e)"
    by (cases "dialed c"; cases "map_of (ds_static d) ?n")
      (simp_all add: dial_handle_def Let_def dialed_def)
  have same: "same_tasks ?d1 ?e" by (simp add: same_tasks_def)
  have t': "tasks_ok ?e" using t by (simp add: tasks_ok_def)
  have others: "checkDial H ?e n = checkDial H ?d1 n" if "nd_ID n \<noteq> ?n" for n
    using that by (simp add: checkDial_def)
  have hit: "checkDial H ?e n \<noteq> None" if "nd_ID n = ?n" for n
    using that by (simp add: checkDial_def)
  show ?thesis
  proof (cases "map_of (ds_static ?e) ?n")
    case None
    then have "\<forall>r. (?n, r) \<notin> set (ds_static ?d1)" by (force simp: map_of_eq_None_iff)
    then have "sched_ok H {} ?e" using sched_ok_harder(1) [OF ok1 same t' others hit] by blast
    with run None show ?thesis by (simp add: kept_def)
  next
    case (Some r)
    then have m: "(?n, r) \<in> set (ds_static ?d1)" by (auto dest: map_of_SomeD)
    have r: "r < length (ds_tasks ?d1)" by (rule tasks_ok_static(1) [OF t m])
    show ?thesis
    proof (cases "task_index ?e r \<ge> 0")
      case False
      then have "r \<notin> set (ds_staticPool ?d1)" using pool_ok_index [OF p r] by simp
      then have "\<forall>s. (?n, s) \<in> set (ds_static ?d1) \<longrightarrow> s \<notin> set (ds_staticPool ?d1)"
        using tasks_ok_static(3) [OF t m] by blast
      then have "sched_ok H {} ?e" using sched_ok_harder(1) [OF ok1 same t' others hit] by blast
      with run Some False show ?thesis by (simp add: kept_def)
    next
      case True
      then have "r \<in> set (ds_staticPool ?d1)" using pool_ok_index [OF p r] by simp
      then obtain i where i: "i < length (ds_staticPool ?d1)" "ds_staticPool ?d1 ! i = r"
        by (auto simp: in_set_conv_nth)
      then have "task_index ?e r = int i" using p by (auto simp: pool_ok_def)
      moreover obtain d' where "removeFromStaticPool (int i) ?e = Ret d'" "sched_ok H {} d'"
        "same_but_pool ?e d'"
        using sched_ok_harder(2) [OF ok1 same t' others hit m i] by blast
      ultimately show ?thesis using run Some True by (simp add: kept_def same_but_pool_def)
    qed
  qed
qed

lemma handle_peer_removed:
  assumes ok: "sched_ok H {} d"
  shows "\<exists>d'. dial_handle H now (PeerRemoved c) d = Ret d' \<and> sched_ok H {} d' \<and> kept d d' \<and>
    ds_peers d' = ds_peers d - {nd_ID (cn_node c)} \<and>
    ds_dialPeers d' = ds_dialPeers d - (if dialed c then 1 else 0)"
proof -
  let ?n = "nd_ID (cn_node c)"
  let ?d1 = "d\<lparr>ds_dialPeers := ds_dialPeers d - (if dialed c then 1 else 0)\<rparr>"
  let ?e = "?d1\<lparr>ds_peers := ds_peers d - {?n}\<rparr>"
  have run: "dial_handle H now (PeerRemoved c) d = updateStaticPool H ?n ?e"
    by (simp add: dial_handle_def Let_def dialed_def)
  have ok1: "sched_ok H {} ?d1" using ok by simp
  have same: "same_tasks ?d1 ?e" by (simp add: same_tasks_def)
  have "tasks_ok ?e" using ok1 by (simp add: sched_ok_def tasks_ok_def)
  moreover have "checkDial H ?e n = None" if "checkDial H ?d1 n = None" for n
    using that by (simp add: checkDial_def split: if_splits)
  moreover have "checkDial H ?d1 n = None" if "checkDial H ?e n = None" "nd_ID n \<notin> {?n}" for n
    using that by (simp add: checkDial_def split: if_splits)
  ultimately have "sched_ok H ({} \<union> {?n}) ?e" by (rule sched_ok_easier [OF ok1 same])
  from updateStaticPool_ok [OF this, of ?n] run show ?thesis by (auto simp: kept_def)
qed

lemma handle_add_static:
  assumes ok: "sched_ok H {} d"
  shows "\<exists>d'. dial_handle H now (AddStatic n) d = Ret d' \<and> sched_ok H {} d' \<and> kept d d' \<and>
    ds_peers d' = ds_peers d \<and> ds_dialPeers d' = ds_dialPeers d"
proof (cases "map_of (ds_static d) (nd_ID n)")
  case (Some r)
  with ok show ?thesis by (simp add: dial_handle_def Let_def kept_def)
next
  case None
  let ?k = "length (ds_tasks d)"
  let ?e = "d\<lparr>ds_tasks := ds_tasks d @ [newDialTask n staticDialedConn],
      ds_static := AList.update (nd_ID n) ?k (ds_static d)\<rparr>"
  have fresh: "nd_ID n \<notin> fst ` set (ds_static d)" using None by (simp add: map_of_eq_None_iff)
  have static: "ds_static ?e = ds_static d @ [(nd_ID n, ?k)]" by (simp add: update_fresh [OF fresh])
  have new: "task_index ?e ?k = -1" "task_dest ?e ?k = n"
    by (simp_all add: task_index_def task_dest_def newDialTask_def)
  have old: "task_index ?e r = task_index d r" "task_dest ?e r = task_dest d r" if "r < ?k" for r
    using that by (simp_all add: task_index_def task_dest_def nth_append)
  have p: "pool_ok d" and t: "tasks_ok d" and ex: "pool_exact H {} d"
    using ok by (simp_all add: sched_ok_def)
  have valid: "r < ?k" if "r \<in> set (ds_staticPool d)" for r
    using that p by (auto simp: pool_ok_def in_set_conv_nth)
  have p': "pool_ok ?e"
    using p new(1) old(1) by (auto simp: pool_ok_def less_Suc_eq)
  have t': "tasks_ok ?e"
    unfolding tasks_ok_def static
    using t fresh new(2) old(2) by (auto simp: tasks_ok_def less_Suc_eq)
  have check: "checkDial H ?e = checkDial H d" by (simp add: checkDial_def fun_eq_iff)
  have "pool_exact H {nd_ID n} ?e"
  proof (rule pool_exactI)
    show "set (ds_staticPool ?e) \<subseteq> snd ` set (ds_static ?e)"
      using pool_exactD(1) [OF ex] unfolding static by auto
  next
    fix i s assume "(i, s) \<in> set (ds_static ?e)" and s: "s \<in> set (ds_staticPool ?e)"
    then have "(i, s) \<in> set (ds_static d)" using valid [of s] unfolding static by auto
    then show "checkDial H ?e (task_dest ?e s) = None"
      using pool_exactD(2) [OF ex] s old(2) [of s] valid [of s] unfolding check by simp
  next
    fix i s assume "(i, s) \<in> set (ds_static ?e)" and "i \<notin> {nd_ID n}"
      and c: "checkDial H ?e (task_dest ?e s) = None"
    then have m: "(i, s) \<in> set (ds_static d)" unfolding static by auto
    then have "s < ?k" using t by (simp add: tasks_ok_static)
    with m c show "s \<in> set (ds_staticPool ?e)"
      using pool_exactD(3) [OF ex m] old(2) unfolding check by simp
  qed
  with p' t' have "sched_ok H {nd_ID n} ?e" by (simp add: sched_ok_def)
  from updateStaticPool_ok [OF this, of "nd_ID n"] obtain d'
    where d': "updateStaticPool H (nd_ID n) ?e = Ret d'" "sched_ok H {} d'"
      "ds_dialing d' = ds_dialing d" "ds_config d' = ds_config d" "ds_peers d' = ds_peers d"
      "ds_dialPeers d' = ds_dialPeers d"
    by auto
  have "map_of (ds_static ?e) (nd_ID n) = Some ?k" by (simp add: update_conv')
  then have "updateStaticPool H (nd_ID n) ?e = dial_handle H now (AddStatic n) d"
    using None new unfolding updateStaticPool_def dial_handle_def by (simp add: Let_def)
  with d' show ?thesis by (simp add: kept_def)
qed

lemma handle_remove_static:
  assumes ok: "sched_ok H {} d"
  shows "\<exists>d'. dial_handle H now (RemoveStatic n) d = Ret d' \<and> sched_ok H {} d' \<and> kept d d' \<and>
    ds_peers d' = ds_peers d \<and> ds_dialPeers d' = ds_dialPeers d"
proof (cases "map_of (ds_static d) (nd_ID n)")
  case None
  with ok show ?thesis by (simp add: dial_handle_def Let_def kept_def)
next
  case (Some r)
  let ?n = "nd_ID n"
  let ?e = "d\<lparr>ds_static := AList.delete ?n (ds_static d)\<rparr>"
  have p: "pool_ok d" and t: "tasks_ok d" and ex: "pool_exact H {} d"
    using ok by (simp_all add: sched_ok_def)
  have m: "(?n, r) \<in> set (ds_static d)" using Some by (rule map_of_SomeD)
  have static: "(i, s) \<in> set (ds_static ?e) \<longleftrightarrow> (i, s) \<in> set (ds_static d) \<and> i \<noteq> ?n" for i s
    by (auto simp: AList.delete_eq)
  have p': "pool_ok ?e" using p by (simp add: pool_ok_def)
  have "set (AList.delete ?n (ds_static d)) \<subseteq> set (ds_static d)" by (auto simp: AList.delete_eq)
  with t have t': "tasks_ok ?e" by (auto simp: tasks_ok_def distinct_delete)
  have final: "sched_ok H {} d'"
    if pd: "pool_ok d'" and same: "same_but_pool ?e d'"
      and pool: "set (ds_staticPool d') = set (ds_staticPool d) - {r}" for d'
  proof -
    have w: "ds_static d' = ds_static ?e" "task_dest d' = task_dest d" and c: "checkDial H d' = checkDial H d"
      using same same_but_pool_check [OF same] by (simp_all add: same_but_pool_def fun_eq_iff)
    have "pool_exact H {} d'"
    proof (rule pool_exactI)
      show "set (ds_staticPool d') \<subseteq> snd ` set (ds_static d')"
      proof
        fix s assume s: "s \<in> set (ds_staticPool d')"
        then obtain i where i: "(i, s) \<in> set (ds_static d)" using pool_exactD(1) [OF ex] pool by auto
        have "i \<noteq> ?n" using tasks_ok_static(3) [OF t m, of s] i s pool by auto
        with i have "(i, s) \<in> set (ds_static d')" unfolding w static by simp
        then show "s \<in> snd ` set (ds_static d')" by force
      qed
    next
      fix i s assume "(i, s) \<in> set (ds_static d')" and "s \<in> set (ds_staticPool d')"
      then show "checkDial H d' (task_dest d' s) = None"
        using pool_exactD(2) [OF ex, of i s] pool unfolding w c static by simp
    next
      fix i s assume "(i, s) \<in> set (ds_static d')" and "checkDial H d' (task_dest d' s) = None"
      moreover from this have "s \<noteq> r"
        using tasks_ok_static(2) [OF t m] tasks_ok_static(2) [OF t, of i s] unfolding w static by auto
      ultimately show "s \<in> set (ds_staticPool d')"
        using pool_exactD(3) [OF ex, of i s] pool unfolding w c static by simp
    qed
    with pd t' same_but_pool_tasks [OF same] show ?thesis by (simp add: sched_ok_def)
  qed
  have r: "r < length (ds_tasks d)" by (rule tasks_ok_static(1) [OF t m])
  show ?thesis
  proof (cases "task_index ?e r \<ge> 0")
    case False
    then have "r \<notin> set (ds_staticPool d)" using pool_ok_index [OF p r] by simp
    then have "sched_ok H {} ?e" by (intro final [OF p']) (simp_all add: same_but_pool_def)
    with Some False show ?thesis by (simp add: dial_handle_def Let_def kept_def)
  next
    case True
    then have "r \<in> set (ds_staticPool d)" using pool_ok_index [OF p r] by simp
    then obtain i where i: "i < length (ds_staticPool ?e)" "ds_staticPool ?e ! i = r"
      by (auto simp: in_set_conv_nth)
    then have idx: "task_index d r = int i" using p by (auto simp: pool_ok_def)
    from removeFromStaticPool_ok [OF p' i(1)] i(2) obtain d'
      where d': "removeFromStaticPool (int i) ?e = Ret d'" "pool_ok d'" "same_but_pool ?e d'"
        "set (ds_staticPool d') = set (ds_staticPool d) - {r}" by auto
    with final [OF d'(2-4)] Some idx show ?thesis
      by (simp add: dial_handle_def Let_def kept_def same_but_pool_def)
  qed
qed

lemma handle_history:
  assumes ok: "sched_ok H {} d" and h: "history_laws H"
  shows "\<exists>d'. dial_handle H now HistoryTimer d = Ret d' \<and> sched_ok H {} d' \<and> kept d d' \<and>
    ds_peers d' = ds_peers d \<and> ds_dialPeers d' = ds_dialPeers d"
proof -
  let ?keys = "fst (hp_expire H now (ds_history d))"
  let ?e = "d\<lparr>ds_history := snd (hp_expire H now (ds_history d))\<rparr>"
  have run: "dial_handle H now HistoryTimer d = ofold (updateStaticPool H) ?keys ?e"
    by (simp add: dial_handle_def expireHistory_def split: prod.split)
  have same: "same_tasks d ?e" by (simp add: same_tasks_def)
  have "tasks_ok ?e" using ok by (simp add: sched_ok_def tasks_ok_def)
  moreover have "checkDial H ?e n = None" if "checkDial H d n = None" for n
    using that history_lawsD(2) [OF h] by (auto simp: checkDial_def split: if_splits)
  moreover have "checkDial H d n = None" if "checkDial H ?e n = None" "nd_ID n \<notin> set ?keys" for n
    using that history_lawsD(3) [OF h] by (auto simp: checkDial_def split: if_splits)
  ultimately have "sched_ok H ({} \<union> set ?keys) ?e" by (rule sched_ok_easier [OF ok same])
  from updateStaticPool_fold [OF this, of ?keys] run show ?thesis by (auto simp: kept_def)
qed

section \<open>Turns and runs\<close>

text \<open>Handling any event that may occur.\<close>

lemma dial_handle_ok:
  assumes "sched_ok H {} d" and "history_laws H"
    and "\<And>r. ev = Done r \<Longrightarrow> (nd_ID (task_dest d r), r) \<in> set (ds_dialing d)"
  shows "\<exists>d'. dial_handle H now ev d = Ret d' \<and> sched_ok H {} d' \<and> kept d d'"
proof (cases ev)
  case (Done r)
  with handle_done [OF assms(1) assms(3) [OF Done]] show ?thesis by blast
next
  case (PeerAdded c)
  with handle_peer_added [OF assms(1), of now c] show ?thesis by blast
next
  case (PeerRemoved c)
  with handle_peer_removed [OF assms(1), of now c] show ?thesis by blast
next
  case (AddStatic n)
  with handle_add_static [OF assms(1), of now n] show ?thesis by blast
next
  case (RemoveStatic n)
  with handle_remove_static [OF assms(1), of now n] show ?thesis by blast
next
  case HistoryTimer
  with handle_history [OF assms(1,2), of now] show ?thesis by blast
qed

lemma sched_ok_logStats: "sched_ok H X (logStats now d) \<longleftrightarrow> sched_ok H X d"
  by (simp add: logStats_def sched_ok_def pool_ok_def tasks_ok_def pool_exact_def)

lemma logStats_simps [simp]:
  "ds_config (logStats now d) = ds_config d" "ds_dialing (logStats now d) = ds_dialing d"
  "task_dest (logStats now d) = task_dest d" "ds_peers (logStats now d) = ds_peers d"
  "ds_dialPeers (logStats now d) = ds_dialPeers d"
  by (simp_all add: logStats_def)

definition dials_bounded :: "'h dialScheduler \<Rightarrow> bool" where
  "dials_bounded d \<longleftrightarrow> int (length (ds_dialing d)) \<le> max 0 (dc_maxActiveDials (ds_config d))"

text \<open>The dials in flight only grow at the back, so a task in flight stays there.\<close>

lemma static_dials_keep:
  "static_dials H rnd now started k d = Ret (n, d') \<Longrightarrow> sched_ok H {} d \<Longrightarrow> history_laws H \<Longrightarrow>
     set (ds_dialing d) \<subseteq> set (ds_dialing d') \<and> task_dest d' = task_dest d"
proof (induction k arbitrary: started d)
  case (Suc k)
  show ?case
  proof (cases "ds_staticPool d = []")
    case False
    let ?i = "rnd started mod length (ds_staticPool d)"
    let ?r = "ds_staticPool d ! ?i"
    have i: "?i < length (ds_staticPool d)" using False by simp
    from start_one [OF Suc.prems(2) i Suc.prems(3)] obtain d1
      where d1: "removeFromStaticPool (int ?i) (startDial H now ?r d) = Ret d1" "sched_ok H {} d1"
      by blast
    have "pool_ok (startDial H now ?r d)"
      using Suc.prems(2) by (simp add: sched_ok_def pool_ok_def startDial_def Let_def)
    moreover have "?i < length (ds_staticPool (startDial H now ?r d))"
      using i by (simp add: startDial_def Let_def)
    ultimately have same: "same_but_pool (startDial H now ?r d) d1"
      using removeFromStaticPool_ok d1(1) by fastforce
    have "set (ds_dialing d) \<subseteq> set (ds_dialing (startDial H now ?r d))"
      using update_fresh [OF pool_task_dialable(3) [OF Suc.prems(2) i]]
      by (auto simp: startDial_def Let_def)
    moreover have "task_dest (startDial H now ?r d) = task_dest d"
      by (simp add: startDial_def Let_def)
    moreover have "static_dials H rnd now (Suc started) k d1 = Ret (n, d')"
      using Suc.prems(1) False d1(1) by (simp add: Let_def)
    ultimately show ?thesis
      using Suc.IH [OF _ d1(2) Suc.prems(3)] same by (auto simp: same_but_pool_def)
  qed (use Suc.prems in simp)
qed simp

lemma loop_turn_ok:
  assumes ok: "sched_ok H {} d" and h: "history_laws H" and b: "dials_bounded d"
    and legal: "\<And>r. ev = Done r \<Longrightarrow> (nd_ID (task_dest d r), r) \<in> set (ds_dialing d)"
  shows "\<exists>d'. loop_turn H rnd now ev d = Ret d' \<and> sched_ok H {} d' \<and> dials_bounded d'"
proof -
  let ?k = "nat (freeDialSlots d)"
  from static_dials_ok [OF ok h, of rnd now 0 ?k] obtain n d1
    where d1: "static_dials H rnd now 0 ?k d = Ret (n, d1)" "sched_ok H {} d1"
      "length (ds_dialing d1) \<le> length (ds_dialing d) + ?k" "ds_config d1 = ds_config d"
    by blast
  have "freeDialSlots d \<le> dc_maxActiveDials (ds_config d) - int (length (ds_dialing d))"
    by (simp add: freeDialSlots_def Let_def)
  then have "dials_bounded d1" using b d1(3,4) by (simp add: dials_bounded_def)
  moreover have "(nd_ID (task_dest (logStats now d1) r), r) \<in> set (ds_dialing (logStats now d1))"
    if "ev = Done r" for r
    using legal [OF that] static_dials_keep [OF d1(1) ok h] by auto
  then obtain d' where "dial_handle H now ev (logStats now d1) = Ret d'" "sched_ok H {} d'"
    "kept (logStats now d1) d'"
    using dial_handle_ok [of H "logStats now d1" ev] d1(2) h by (auto simp: sched_ok_logStats)
  ultimately show ?thesis
    using d1(1) by (auto simp: loop_turn_def startStaticDials_def dials_bounded_def kept_def)
qed

text \<open>A task in flight that resolves its node keeps the id when the resolver does.\<close>

definition resolver_ok :: "(Node \<Rightarrow> Node option) option \<Rightarrow> bool" where
  "resolver_ok resolver \<longleftrightarrow>
     (\<forall>f n n'. resolver = Some f \<longrightarrow> f n = Some n' \<longrightarrow> nd_ID n' = nd_ID n)"

lemma task_run_keeps:
  assumes "resolver_ok resolver"
  shows "dt_staticPoolIndex (snd (task_run resolver now t)) = dt_staticPoolIndex t"
    and "nd_ID (dt_dest (snd (task_run resolver now t))) = nd_ID (dt_dest t)"
  using assms
  by (auto simp: task_run_def resolve_def resolver_ok_def Let_def split: option.split)

lemma run_task_ok:
  assumes ok: "sched_ok H {} d" and task: "r \<in> snd ` set (ds_dialing d)" and f: "resolver_ok resolver"
  shows "sched_ok H {} (run_task resolver now r d)"
proof -
  let ?e = "run_task resolver now r d"
  have p: "pool_ok d" and t: "tasks_ok d" and ex: "pool_exact H {} d"
    using ok by (simp_all add: sched_ok_def)
  from task obtain j where j: "(j, r) \<in> set (ds_dialing d)" by auto
  then have r: "r < length (ds_tasks d)" and rid: "nd_ID (task_dest d r) = j"
    using t by (simp_all add: tasks_ok_def)
  have index: "task_index ?e = task_index d"
    using r task_run_keeps(1) [OF f] by (simp add: task_index_def run_task_def fun_eq_iff nth_list_update)
  have dest: "task_dest ?e s = task_dest d s" if "s \<noteq> r" for s
    using that by (simp add: task_dest_def run_task_def)
  have ids: "nd_ID (task_dest ?e s) = nd_ID (task_dest d s)" for s
    using r task_run_keeps(2) [OF f] by (simp add: task_dest_def run_task_def nth_list_update)
  have fields: "ds_static ?e = ds_static d" "ds_staticPool ?e = ds_staticPool d"
      "ds_dialing ?e = ds_dialing d" "length (ds_tasks ?e) = length (ds_tasks d)"
    and check: "checkDial H ?e = checkDial H d"
    by (simp_all add: run_task_def checkDial_def fun_eq_iff)
  have busy: "checkDial H d n \<noteq> None" if "nd_ID n = j" for n
    using that j by (auto simp: checkDial_def map_of_eq_None_iff image_iff)
  have same: "checkDial H ?e (task_dest ?e s) = None \<longleftrightarrow> checkDial H d (task_dest d s) = None" for s
    using dest [of s] busy [of "task_dest d r"] busy [of "task_dest ?e r"] rid ids [of r] check
    by (cases "s = r") auto
  have "pool_exact H {} ?e"
    using ex unfolding pool_exact_def fields same .
  moreover have "pool_ok ?e" using p unfolding pool_ok_def fields index .
  moreover have "tasks_ok ?e" using t unfolding tasks_ok_def fields ids .
  ultimately show ?thesis by (simp add: sched_ok_def)
qed

lemma dial_step_ok:
  assumes "dial_step H resolver d d'" and "history_laws H" and "resolver_ok resolver"
    and "sched_ok H {} d" and "dials_bounded d"
  shows "sched_ok H {} d' \<and> dials_bounded d'"
  using assms(1)
proof (cases rule: dial_step.cases)
  case (turn rnd now ev)
  then show ?thesis using loop_turn_ok [OF assms(4,2,5), of ev rnd now] by auto
next
  case (resolving task now)
  have "dials_bounded (run_task resolver now task d)"
    using assms(5) by (simp add: dials_bounded_def run_task_def)
  with resolving assms(3,4) show ?thesis by (simp add: run_task_ok)
qed

interpretation dial_run: machine "dial_step H resolver"
    "\<lambda>d. history_laws H \<and> resolver_ok resolver \<longrightarrow> sched_ok H {} d \<and> dials_bounded d"
  for H resolver
  by unfold_locales (blast dest: dial_step_ok)

lemma dial_steps_ok:
  assumes "(dial_step H resolver)\<^sup>*\<^sup>* (newDialScheduler config h now) d" and "history_laws H"
    and "resolver_ok resolver"
  shows "sched_ok H {} d \<and> dials_bounded d"
proof -
  have "sched_ok H {} (newDialScheduler config h now) \<and> dials_bounded (newDialScheduler config h now)"
    using newDialScheduler_ok by (simp add: dials_bounded_def newDialScheduler_def)
  then show ?thesis using dial_run.run_keeps [OF assms(1)] assms(2,3) by blast
qed

end
