(* ===== verification/P2P_Runs.thy ===== *)
theory P2P_Runs
  imports P2P_Server Dialer_Runs
begin

text \<open>
  The server and the dial scheduler together: the invariant of the main loop, the limits a
  connection is admitted under, and that the two agree on who is connected after every step
  of either.
\<close>

section \<open>The invariant of the main loop\<close>

definition peer_count :: "(conn \<Rightarrow> bool) \<Rightarrow> (node_id \<times> conn) list \<Rightarrow> int" where
  "peer_count P peers = int (length (filter (\<lambda>e. P (snd e)) peers))"

definition useful :: "P2PConfig \<Rightarrow> conn \<Rightarrow> bool" where
  "useful srv c \<longleftrightarrow>
     pc_Protocols srv = [] \<or> countMatchingProtocols (pc_Protocols srv) (cn_caps c) \<noteq> 0"

lemma useful_trusted [simp]: "useful srv (conn_set trustedConn val c) \<longleftrightarrow> useful srv c"
  by (simp add: useful_def)

definition server_ok :: "P2PConfig \<Rightarrow> node_id \<Rightarrow> run_state \<Rightarrow> bool" where
  "server_ok srv self st \<longleftrightarrow>
     distinct (map fst (rs_peers st)) \<and>
     (\<forall>i c. (i, c) \<in> set (rs_peers st) \<longrightarrow>
        nd_ID (cn_node c) = i \<and> i \<noteq> self \<and> useful srv c) \<and>
     rs_inboundCount st = peer_count (\<lambda>c. conn_is c inboundConn) (rs_peers st)"

lemma run_init_ok: "server_ok srv self (run_init srv)"
  by (simp add: server_ok_def run_init_def peer_count_def)

lemma peer_count_append: "peer_count P (xs @ [(i, c)]) = peer_count P xs + (if P c then 1 else 0)"
  by (simp add: peer_count_def)

lemma peer_count_delete:
  assumes "distinct (map fst peers)" and "map_of peers nid = Some c"
  shows "peer_count P (AList.delete nid peers) = peer_count P peers - (if P c then 1 else 0)"
proof -
  have gone: "AList.delete nid al = al" if "nid \<notin> fst ` set al" for al :: "(node_id \<times> conn) list"
    using that by (induction al) auto
  show ?thesis
    using assms
  proof (induction peers)
    case (Cons e peers)
    obtain i d where e: "e = (i, d)" by (cases e)
    show ?case
    proof (cases "i = nid")
      case True
      with Cons.prems e have "d = c" and "nid \<notin> fst ` set peers" by simp_all
      with gone [of peers] True e show ?thesis by (simp add: peer_count_def)
    next
      case False
      with Cons e show ?thesis by (cases "P c") (simp_all add: peer_count_def)
    qed
  qed simp
qed

lemma set_trusted_simps [simp]:
  "map fst (set_trusted nid val peers) = map fst peers"
  "length (set_trusted nid val peers) = length peers"
  by (simp_all add: set_trusted_def comp_def split_def if_distrib cong: if_cong)

lemma set_trusted_mem:
  "(i, c) \<in> set (set_trusted nid val peers) \<Longrightarrow>
     \<exists>c'. (i, c') \<in> set peers \<and> (c = c' \<or> c = conn_set trustedConn val c')"
  by (auto simp: set_trusted_def split: if_splits)

lemma set_trusted_count:
  assumes "\<And>c. P (conn_set trustedConn val c) \<longleftrightarrow> P c"
  shows "peer_count P (set_trusted nid val peers) = peer_count P peers"
  by (induction peers) (simp_all add: peer_count_def set_trusted_def split_def assms)

lemma dialed_trusted [simp]: "dialed (conn_set trustedConn val c) \<longleftrightarrow> dialed c"
  by (simp add: dialed_def)

text \<open>What an accepted connection satisfies.\<close>

lemma addPeer_accepts:
  assumes "addPeerChecks srv self peers n c = None"
  shows "nd_ID (cn_node c) \<notin> fst ` set peers" and "nd_ID (cn_node c) \<noteq> self"
    and "useful srv c"
    and "conn_is c trustedConn \<or> int (length peers) < pc_MaxPeers srv"
    and "conn_is c trustedConn \<or> \<not> conn_is c inboundConn \<or> n < maxInboundConns srv"
  using assms
  by (auto simp: addPeerChecks_def postHandshakeChecks_def map_of_eq_None_iff useful_def
      split: if_splits)

text \<open>What each event does to the peers.\<close>

lemma run_handle_cases:
  assumes "run_handle srv self ev st = (reply, evs, st')"
    and legal: "\<forall>c. ev = DelPeer c \<longrightarrow> (nd_ID (cn_node c), c) \<in> set (rs_peers st)"
  obtains
    (trust) nid val where "evs = []" "rs_peers st' = set_trusted nid val (rs_peers st)"
      "rs_inboundCount st' = rs_inboundCount st"
  | (idle) "evs = []" "st' = st"
  | (join) c where "evs = [PeerAdded c]"
      "addPeerChecks srv self (rs_peers st) (rs_inboundCount st) c = None"
      "rs_peers st' = rs_peers st @ [(nd_ID (cn_node c), c)]"
      "rs_inboundCount st' = rs_inboundCount st + (if conn_is c inboundConn then 1 else 0)"
  | (leave) c where "evs = [PeerRemoved c]" "(nd_ID (cn_node c), c) \<in> set (rs_peers st)"
      "rs_peers st' = AList.delete (nd_ID (cn_node c)) (rs_peers st)"
      "rs_inboundCount st' = rs_inboundCount st - (if conn_is c inboundConn then 1 else 0)"
proof (cases ev)
  case (AddTrusted n)
  with assms show thesis by (intro trust [of "nd_ID n" True]) (auto simp: run_handle_def)
next
  case (RemoveTrusted n)
  with assms show thesis by (intro trust [of "nd_ID n" False]) (auto simp: run_handle_def)
next
  case PeerCountOp
  with assms show thesis by (intro idle) (auto simp: run_handle_def)
next
  case (PostHandshake c)
  with assms show thesis by (intro idle) (auto simp: run_handle_def Let_def)
next
  case (AddPeer c)
  show thesis
  proof (cases "addPeerChecks srv self (rs_peers st) (rs_inboundCount st) c")
    case None
    with assms AddPeer update_fresh [OF addPeer_accepts(1) [OF None]] show thesis
      by (intro join [of c]) (auto simp: run_handle_def Let_def)
  next
    case (Some e)
    with assms AddPeer show thesis by (intro idle) (auto simp: run_handle_def Let_def)
  qed
next
  case (DelPeer c)
  with assms show thesis by (intro leave [of c]) (auto simp: run_handle_def)
qed

lemma run_handle_ok:
  assumes ok: "server_ok srv self st" and run: "run_handle srv self ev st = (reply, evs, st')"
    and legal: "\<forall>c. ev = DelPeer c \<longrightarrow> (nd_ID (cn_node c), c) \<in> set (rs_peers st)"
  shows "server_ok srv self st'"
  using run legal
proof (cases rule: run_handle_cases)
  case (trust nid val)
  have "nd_ID (cn_node c) = i \<and> i \<noteq> self \<and>
      useful srv c"
    if "(i, c) \<in> set (set_trusted nid val (rs_peers st))" for i c
    using set_trusted_mem [OF that] ok by (auto simp: server_ok_def)
  with ok trust show ?thesis by (simp add: server_ok_def set_trusted_count)
next
  case idle
  with ok show ?thesis by simp
next
  case (join c)
  note a = addPeer_accepts [OF join(2)]
  show ?thesis
    using ok join(3,4) a(1-3) by (auto simp: server_ok_def peer_count_append)
next
  case (leave c)
  have sub: "e \<in> set (rs_peers st)"
    if "e \<in> set (AList.delete (nd_ID (cn_node c)) (rs_peers st))" for e
    using that by (simp add: AList.delete_eq)
  have dist: "distinct (map fst (rs_peers st))" using ok by (simp add: server_ok_def)
  with leave(2) have "map_of (rs_peers st) (nd_ID (cn_node c)) = Some c" by simp
  note count = peer_count_delete [OF dist this]
  have "distinct (map fst (rs_peers st'))" unfolding leave(3) by (rule distinct_delete [OF dist])
  moreover have "\<forall>i c. (i, c) \<in> set (rs_peers st') \<longrightarrow> nd_ID (cn_node c) = i \<and> i \<noteq> self \<and> useful srv c"
    using ok sub unfolding leave(3) server_ok_def by blast
  moreover have "rs_inboundCount st' = peer_count (\<lambda>c. conn_is c inboundConn) (rs_peers st')"
    using ok unfolding leave(3,4) count server_ok_def by simp
  ultimately show ?thesis by (simp only: server_ok_def)
qed

section \<open>Server and dialer together\<close>

text \<open>The channels between them are unbuffered: what the server sends is handled in a turn of the
  dial loop before the server goes on.\<close>

inductive net_step ::
  "'h exp_heap \<Rightarrow> (Node \<Rightarrow> Node option) option \<Rightarrow> P2PConfig \<Rightarrow> node_id
     \<Rightarrow> run_state \<times> 'h dialScheduler \<Rightarrow> run_state \<times> 'h dialScheduler \<Rightarrow> bool"
  for H resolver srv self where
  server: "run_handle srv self ev st = (reply, evs, st') \<Longrightarrow>
     \<forall>c. ev = DelPeer c \<longrightarrow> (nd_ID (cn_node c), c) \<in> set (rs_peers st) \<Longrightarrow>
     ofold (loop_turn H rnd now) evs d = Ret d' \<Longrightarrow>
     net_step H resolver srv self (st, d) (st', d')"
| dialer: "loop_turn H rnd now ev d = Ret d' \<Longrightarrow>
     (\<And>task. ev = Done task \<Longrightarrow> (nd_ID (task_dest d task), task) \<in> set (ds_dialing d)) \<Longrightarrow>
     (\<And>c. ev \<noteq> PeerAdded c \<and> ev \<noteq> PeerRemoved c) \<Longrightarrow>
     net_step H resolver srv self (st, d) (st, d')"
| resolving: "task \<in> snd ` set (ds_dialing d) \<Longrightarrow>
     net_step H resolver srv self (st, d) (st, run_task resolver now task d)"

definition in_sync :: "run_state \<Rightarrow> 'h dialScheduler \<Rightarrow> bool" where
  "in_sync st d \<longleftrightarrow>
     ds_peers d = fst ` set (rs_peers st) \<and> ds_dialPeers d = peer_count dialed (rs_peers st)"

lemma loop_turn_split:
  assumes "loop_turn H rnd now ev d = Ret d'" and "sched_ok H {} d" and "history_laws H"
  obtains d1 where "sched_ok H {} d1" "ds_peers d1 = ds_peers d" "ds_dialPeers d1 = ds_dialPeers d"
    "set (ds_dialing d) \<subseteq> set (ds_dialing d1)" "task_dest d1 = task_dest d"
    "dial_handle H now ev d1 = Ret d'"
proof -
  from static_dials_ok [OF assms(2,3), of rnd now 0 "nat (freeDialSlots d)"] obtain n d1
    where d1: "static_dials H rnd now 0 (nat (freeDialSlots d)) d = Ret (n, d1)" "sched_ok H {} d1"
      "ds_peers d1 = ds_peers d" "ds_dialPeers d1 = ds_dialPeers d"
    by blast
  have "dial_handle H now ev (logStats now d1) = Ret d'"
    using assms(1) d1(1) by (simp add: loop_turn_def startStaticDials_def)
  with that [of "logStats now d1"] d1 static_dials_keep [OF d1(1) assms(2,3)] show thesis
    by (simp add: sched_ok_logStats)
qed

lemma loop_turn_peers:
  assumes turn: "loop_turn H rnd now ev d = Ret d'" and ok: "sched_ok H {} d" and h: "history_laws H"
    and legal: "\<And>r. ev = Done r \<Longrightarrow> (nd_ID (task_dest d r), r) \<in> set (ds_dialing d)"
  shows "ds_peers d' = (case ev of PeerAdded c \<Rightarrow> insert (nd_ID (cn_node c)) (ds_peers d)
      | PeerRemoved c \<Rightarrow> ds_peers d - {nd_ID (cn_node c)} | _ \<Rightarrow> ds_peers d) \<and>
    ds_dialPeers d' = ds_dialPeers d + (case ev of PeerAdded c \<Rightarrow> if dialed c then 1 else 0
      | PeerRemoved c \<Rightarrow> if dialed c then -1 else 0 | _ \<Rightarrow> 0)"
proof -
  from loop_turn_split [OF turn ok h] obtain d1 where ok1: "sched_ok H {} d1"
    and same: "ds_peers d1 = ds_peers d" "ds_dialPeers d1 = ds_dialPeers d"
      "set (ds_dialing d) \<subseteq> set (ds_dialing d1)" "task_dest d1 = task_dest d"
    and run: "dial_handle H now ev d1 = Ret d'" .
  show ?thesis
  proof (cases ev)
    case (Done r)
    have "(nd_ID (task_dest d1 r), r) \<in> set (ds_dialing d1)" using legal [OF Done] same by auto
    from handle_done [OF ok1 this, of now] run same Done show ?thesis by auto
  next
    case (PeerAdded c)
    from handle_peer_added [OF ok1, of now c] run same PeerAdded show ?thesis by auto
  next
    case (PeerRemoved c)
    from handle_peer_removed [OF ok1, of now c] run same PeerRemoved show ?thesis by auto
  next
    case (AddStatic n)
    from handle_add_static [OF ok1, of now n] run same AddStatic show ?thesis by auto
  next
    case (RemoveStatic n)
    from handle_remove_static [OF ok1, of now n] run same RemoveStatic show ?thesis by auto
  next
    case HistoryTimer
    from handle_history [OF ok1 h, of now] run same HistoryTimer show ?thesis by auto
  qed
qed

definition net_ok :: "'h exp_heap \<Rightarrow> P2PConfig \<Rightarrow> node_id \<Rightarrow> run_state \<times> 'h dialScheduler \<Rightarrow> bool" where
  "net_ok H srv self s \<longleftrightarrow>
     server_ok srv self (fst s) \<and> sched_ok H {} (snd s) \<and> dials_bounded (snd s) \<and>
     in_sync (fst s) (snd s)"

lemma net_step_ok:
  assumes step: "net_step H resolver srv self s s'" and h: "history_laws H"
    and f: "resolver_ok resolver" and ok: "net_ok H srv self s"
  shows "net_ok H srv self s'"
  using step
proof (cases rule: net_step.cases)
  case (server ev st reply evs st' rnd now d d')
  have so: "server_ok srv self st" and sc: "sched_ok H {} d" and db: "dials_bounded d"
    and sync: "in_sync st d"
    using ok server(1) by (simp_all add: net_ok_def)
  have so': "server_ok srv self st'" by (rule run_handle_ok [OF so server(3,4)])
  have turn: "sched_ok H {} d2 \<and> dials_bounded d2"
    if "loop_turn H rnd now e d = Ret d2" "\<And>r. e \<noteq> Done r" for e d2
    using loop_turn_ok [where rnd = rnd and now = now and ev = e, OF sc h db] that by auto
  have dist: "distinct (map fst (rs_peers st))" using so by (simp add: server_ok_def)
  from server(3,4) have "sched_ok H {} d' \<and> dials_bounded d' \<and> in_sync st' d'"
  proof (cases rule: run_handle_cases)
    case (trust nid val)
    have "fst ` set (set_trusted nid val (rs_peers st)) = fst ` set (rs_peers st)"
      by (metis list.set_map set_trusted_simps(1))
    with trust server(5) sc db sync show ?thesis by (simp add: in_sync_def set_trusted_count)
  next
    case idle
    with server(5) sc db sync show ?thesis by simp
  next
    case (join c)
    have lt: "loop_turn H rnd now (PeerAdded c) d = Ret d'"
      using server(5) by (simp add: join(1))
    from turn [OF lt] loop_turn_peers [OF lt sc h] sync join(3) show ?thesis
      by (simp add: in_sync_def peer_count_append)
  next
    case (leave c)
    have lt: "loop_turn H rnd now (PeerRemoved c) d = Ret d'"
      using server(5) by (simp add: leave(1))
    have "map_of (rs_peers st) (nd_ID (cn_node c)) = Some c" using dist leave(2) by simp
    moreover have "fst ` set (AList.delete (nd_ID (cn_node c)) (rs_peers st))
        = fst ` set (rs_peers st) - {nd_ID (cn_node c)}"
      by (auto simp: AList.delete_eq image_iff)
    ultimately show ?thesis
      using turn [OF lt] loop_turn_peers [OF lt sc h] sync leave(3) peer_count_delete [OF dist, of "nd_ID (cn_node c)" c]
      by (simp add: in_sync_def)
  qed
  with so' server(2) show ?thesis by (simp add: net_ok_def)
next
  case (dialer rnd now ev d d' st)
  have sc: "sched_ok H {} d" and db: "dials_bounded d" and sync: "in_sync st d"
    using ok dialer(1) by (simp_all add: net_ok_def)
  from loop_turn_ok [where rnd = rnd and now = now and ev = ev, OF sc h db dialer(4)] dialer(3)
  have "sched_ok H {} d' \<and> dials_bounded d'" by auto
  moreover have "ds_peers d' = ds_peers d \<and> ds_dialPeers d' = ds_dialPeers d"
    using loop_turn_peers [OF dialer(3) sc h dialer(4)] dialer(5) by (cases ev) auto
  ultimately show ?thesis using ok dialer(1,2) by (simp add: net_ok_def in_sync_def)
next
  case (resolving task d st now)
  then show ?thesis
    using ok run_task_ok [OF _ resolving(3) f, of H now]
    by (simp add: net_ok_def in_sync_def dials_bounded_def run_task_def)
qed

interpretation net_run: machine "net_step H resolver srv self"
    "\<lambda>s. history_laws H \<and> resolver_ok resolver \<longrightarrow> net_ok H srv self s"
  for H resolver srv self
  by unfold_locales (blast dest: net_step_ok)

lemma net_steps_ok:
  assumes "(net_step H resolver srv self)\<^sup>*\<^sup>* (run_init srv, newDialScheduler config h now) s"
    and "history_laws H" and "resolver_ok resolver"
  shows "net_ok H srv self s"
proof -
  have "net_ok H srv self (run_init srv, newDialScheduler config h now)"
    using run_init_ok [of srv self] newDialScheduler_ok [of H config h now]
    by (simp add: net_ok_def) (simp add: dials_bounded_def in_sync_def peer_count_def run_init_def
        newDialScheduler_def)
  then show ?thesis using net_run.run_keeps [OF assms(1)] assms(2,3) by blast
qed

end
