(* ===== verification/Peer_Info.thy ===== *)
theory Peer_Info
  imports P2P_Server Go_Std "HOL-Library.Char_ord" "HOL-Library.List_Lexorder"
begin

text \<open>
  What the network reports about itself: \<open>Info\<close> of \<open>internal/p2p/peer.go\<close> and \<open>NodeInfo\<close> and
  \<open>PeersInfo\<close> of \<open>internal/p2p/server.go\<close>. \<open>PeersInfo\<close> sorts by exchanging pairs that are out of
  order; Go compares strings byte by byte, as the lexicographic order here does. The URLs and
  addresses, \<open>Cap.String\<close> and what a protocol's own query returns are parameters.
\<close>

section \<open>One peer\<close>

datatype 'm proto_info = UnknownInfo | HandshakeInfo | Metadata 'm

record 'm PeerInfo =
  pi_Enode :: string
  pi_ID :: string
  pi_Name :: string
  pi_Caps :: "string list"
  pi_LocalAddress :: string
  pi_RemoteAddress :: string
  pi_Inbound :: bool
  pi_Trusted :: bool
  pi_Static :: bool
  pi_Protocols :: "(string \<times> 'm proto_info) list"

text \<open>\<open>query\<close> is the protocol's \<open>PeerInfo\<close> field: absent, or a function that may return nothing.\<close>

definition proto_peer_info :: "(node_id \<Rightarrow> 'm option) option \<Rightarrow> node_id \<Rightarrow> 'm proto_info" where
  "proto_peer_info query nid =
     (case query of
        None \<Rightarrow> UnknownInfo
      | Some q \<Rightarrow> (case q nid of None \<Rightarrow> HandshakeInfo | Some m \<Rightarrow> Metadata m))"

definition Info ::
  "(Node \<Rightarrow> string) \<Rightarrow> (Cap \<Rightarrow> string) \<Rightarrow> (Protocol \<Rightarrow> (node_id \<Rightarrow> 'm option) option)
     \<Rightarrow> string \<Rightarrow> string \<Rightarrow> Peer \<Rightarrow> 'm PeerInfo" where
  "Info url capString query local remote p =
     \<lparr>pi_Enode = url (Peer_Node p),
      pi_ID = hex_encode (Peer_ID p),
      pi_Name = Peer_Fullname p,
      pi_Caps = map capString (Peer_Caps p),
      pi_LocalAddress = local,
      pi_RemoteAddress = remote,
      pi_Inbound = conn_is (pe_rw p) inboundConn,
      pi_Trusted = conn_is (pe_rw p) trustedConn,
      pi_Static = conn_is (pe_rw p) staticDialedConn,
      pi_Protocols = foldl (\<lambda>infos (_, rw). AList.update (pr_Name (rw_proto rw))
          (proto_peer_info (query (rw_proto rw)) (Peer_ID p)) infos) [] (pe_running p)\<rparr>"

section \<open>All peers, sorted\<close>

text \<open>The body of the inner loop: entries \<open>i\<close> and \<open>j\<close> are exchanged when they are out of order.\<close>

definition swap_step :: "('a \<Rightarrow> 'k::linorder) \<Rightarrow> nat \<Rightarrow> nat \<Rightarrow> 'a list \<Rightarrow> 'a list" where
  "swap_step key i j infos =
     (if key (infos ! i) > key (infos ! j) then infos[i := infos ! j, j := infos ! i] else infos)"

definition swap_sort :: "('a \<Rightarrow> 'k::linorder) \<Rightarrow> 'a list \<Rightarrow> 'a list" where
  "swap_sort key infos =
     fold (\<lambda>i infos. fold (swap_step key i) [i + 1..<length infos] infos) [0..<length infos] infos"

text \<open>\<open>info\<close> is \<open>Info\<close> with its parameters; the peers are those \<open>Peers\<close> returns.\<close>

definition PeersInfo :: "('p \<Rightarrow> 'm PeerInfo) \<Rightarrow> 'p list \<Rightarrow> 'm PeerInfo list" where
  "PeersInfo info peers = swap_sort pi_ID (map info peers)"

section \<open>The node itself\<close>

text \<open>Of protocols with the same name, the first one's information is kept; \<open>query\<close> is a
  protocol's \<open>NodeInfo\<close> field.\<close>

definition node_protocols :: "(Protocol \<Rightarrow> 'm option) \<Rightarrow> Protocol list \<Rightarrow> (string \<times> 'm proto_info) list" where
  "node_protocols query protocols =
     foldl (\<lambda>infos proto.
         case map_of infos (pr_Name proto) of
           Some _ \<Rightarrow> infos
         | None \<Rightarrow> AList.update (pr_Name proto)
             (case query proto of None \<Rightarrow> UnknownInfo | Some m \<Rightarrow> Metadata m) infos)
       [] protocols"

record 'm NodeInfo =
  ni_ID :: string
  ni_Name :: string
  ni_Enode :: string
  ni_ENR :: string
  ni_IP :: string
  ni_Discovery :: int
  ni_Listener :: int
  ni_ListenAddr :: string
  ni_Protocols :: "(string \<times> 'm proto_info) list"

text \<open>What a node says of itself, which the repository has only stubs of.\<close>

record node_text =
  nt_ID :: string
  nt_URLv4 :: string
  nt_String :: string
  nt_IPAddr :: string
  nt_UDP :: int
  nt_TCP :: int

definition NodeInfo ::
  "(Protocol \<Rightarrow> 'm option) \<Rightarrow> string \<Rightarrow> node_text \<Rightarrow> P2PConfig \<Rightarrow> 'm NodeInfo" where
  "NodeInfo query name node srv =
     \<lparr>ni_ID = nt_ID node, ni_Name = name, ni_Enode = nt_URLv4 node, ni_ENR = nt_String node,
      ni_IP = nt_IPAddr node, ni_Discovery = nt_UDP node, ni_Listener = nt_TCP node,
      ni_ListenAddr = pc_ListenAddr srv,
      ni_Protocols = node_protocols query (pc_Protocols srv)\<rparr>"

section \<open>The exchange sort\<close>

text \<open>The state of the inner loop at \<open>j\<close>, started from \<open>xs\<close>: position \<open>i\<close> holds the least of the
  entries from \<open>i\<close> up to \<open>j\<close>, and only positions from \<open>i\<close> on have changed, among themselves.\<close>

definition inner_inv :: "('a \<Rightarrow> 'k::linorder) \<Rightarrow> 'a list \<Rightarrow> nat \<Rightarrow> nat \<Rightarrow> 'a list \<Rightarrow> bool" where
  "inner_inv key xs i j ys \<longleftrightarrow>
     mset ys = mset xs \<and> length ys = length xs \<and> take i ys = take i xs \<and>
     set (drop i ys) = set (drop i xs) \<and>
     (\<forall>k. i < k \<and> k < j \<longrightarrow> key (ys ! i) \<le> key (ys ! k))"

lemma set_drop_swap:
  assumes "i < length ys" and "i < j" and "j < length ys"
  shows "set (drop i (ys[i := ys ! j, j := ys ! i])) = set (drop i ys)"
proof -
  have "drop i (ys[i := ys ! j, j := ys ! i])
      = (drop i ys)[0 := drop i ys ! (j - i), j - i := drop i ys ! 0]"
    using assms by (simp add: drop_update_swap)
  moreover have "mset \<dots> = mset (drop i ys)"
    using assms by (intro mset_swap) simp_all
  ultimately show ?thesis by (metis set_mset_mset)
qed

lemma swap_step_inv:
  assumes "inner_inv key xs i j ys" and "i < j" and "j < length xs"
  shows "inner_inv key xs i (Suc j) (swap_step key i j ys)"
proof (cases "key (ys ! i) > key (ys ! j)")
  case True
  let ?zs = "ys[i := ys ! j, j := ys ! i]"
  have len: "length ys = length xs" using assms(1) by (simp add: inner_inv_def)
  have "mset ?zs = mset ys" using assms(2,3) len by (intro mset_swap) simp_all
  moreover have "take i ?zs = take i ys" using assms(2) by simp
  moreover have "set (drop i ?zs) = set (drop i ys)"
    using assms(2,3) len by (intro set_drop_swap) simp_all
  moreover have "key (?zs ! i) \<le> key (?zs ! k)" if "i < k" "k < Suc j" for k
  proof (cases "k = j")
    case False
    then have "key (ys ! i) \<le> key (ys ! k)" using assms(1) that by (simp add: inner_inv_def)
    with True False that assms(2,3) len show ?thesis by simp
  qed (use True assms(2,3) len in simp)
  ultimately show ?thesis using True assms(1) len by (simp add: swap_step_def inner_inv_def)
next
  case False
  with assms show ?thesis by (auto simp: swap_step_def inner_inv_def less_Suc_eq not_less)
qed

lemma inner_loop:
  assumes "i < length xs" and "i + 1 \<le> n" and "n \<le> length xs"
  shows "inner_inv key xs i n (fold (swap_step key i) [i + 1..<n] xs)"
  using assms(2,3)
proof (induction n rule: dec_induct)
  case base
  show ?case by (auto simp: inner_inv_def)
next
  case (step n)
  then show ?case by (simp add: swap_step_inv)
qed

text \<open>After \<open>m\<close> turns of the outer loop the first \<open>m\<close> entries are sorted and least.\<close>

definition outer_inv :: "('a \<Rightarrow> 'k::linorder) \<Rightarrow> 'a list \<Rightarrow> nat \<Rightarrow> 'a list \<Rightarrow> bool" where
  "outer_inv key xs m ys \<longleftrightarrow>
     mset ys = mset xs \<and> length ys = length xs \<and> sorted (map key (take m ys)) \<and>
     (\<forall>a \<in> set (take m ys). \<forall>b \<in> set (drop m ys). key a \<le> key b)"

lemma least_of_drop:
  assumes "inner_inv key xs i (length xs) ys" and "i < length xs"
  shows "\<forall>b \<in> set (drop i ys). key (ys ! i) \<le> key b"
proof
  fix b assume "b \<in> set (drop i ys)"
  then obtain k where "k < length (drop i ys)" "b = drop i ys ! k" by (auto simp: in_set_conv_nth)
  then have "i + k < length ys" "b = ys ! (i + k)" by simp_all
  with assms show "key (ys ! i) \<le> key b"
    by (cases "k = 0") (simp_all add: inner_inv_def)
qed

lemma outer_step:
  assumes inv: "outer_inv key xs i ys" and i: "i < length xs"
  shows "outer_inv key xs (Suc i) (fold (swap_step key i) [i + 1..<length ys] ys)"
proof -
  define zs where "zs = fold (swap_step key i) [i + 1..<length ys] ys"
  have len: "length ys = length xs" using inv by (simp add: outer_inv_def)
  have inner: "inner_inv key ys i (length ys) zs"
    unfolding zs_def using i len by (intro inner_loop) simp_all
  then have same: "take i zs = take i ys" "set (drop i zs) = set (drop i ys)"
    and lz: "length zs = length ys" and mz: "mset zs = mset ys"
    by (simp_all add: inner_inv_def)
  have least: "\<forall>b \<in> set (drop i zs). key (zs ! i) \<le> key b"
    using least_of_drop [OF inner] i len by simp
  have iz: "i < length zs" using i len lz by simp
  have split: "take (Suc i) zs = take i ys @ [zs ! i]"
    using iz same(1) by (simp add: take_Suc_conv_app_nth)
  have sub: "set (drop (Suc i) zs) \<subseteq> set (drop i zs)"
    by (simp add: set_drop_subset_set_drop)
  have zi: "zs ! i \<in> set (drop i ys)"
    using iz by (simp flip: same(2)) (metis Cons_nth_drop_Suc list.set_intros(1))
  have below: "\<forall>a \<in> set (take i ys). \<forall>b \<in> set (drop i ys). key a \<le> key b"
    and sorted: "sorted (map key (take i ys))"
    using inv by (simp_all add: outer_inv_def)
  have "sorted (map key (take (Suc i) zs))"
    using sorted below zi by (simp add: split sorted_append)
  moreover have "\<forall>a \<in> set (take (Suc i) zs). \<forall>b \<in> set (drop (Suc i) zs). key a \<le> key b"
    using below least sub same(2) by (auto simp: split)
  ultimately show ?thesis unfolding zs_def [symmetric] using inv mz lz by (simp add: outer_inv_def)
qed

lemma outer_loop:
  assumes "m \<le> length xs"
  shows "outer_inv key xs m
    (fold (\<lambda>i infos. fold (swap_step key i) [i + 1..<length infos] infos) [0..<m] xs)"
  using assms
proof (induction m)
  case (Suc m)
  then show ?case using outer_step by fastforce
qed (simp add: outer_inv_def)

lemma swap_sort_correct: "mset (swap_sort key xs) = mset xs \<and> sorted (map key (swap_sort key xs))"
proof -
  have "outer_inv key xs (length xs) (swap_sort key xs)"
    unfolding swap_sort_def by (rule outer_loop) simp
  moreover from this have "take (length xs) (swap_sort key xs) = swap_sort key xs"
    by (simp add: outer_inv_def)
  ultimately show ?thesis by (simp add: outer_inv_def)
qed

end
