(* ===== verification/Network_Props.thy ===== *)
theory Network_Props
  imports Bootstrap P2P_Runs Peer_Info
begin

text \<open>
  Properties of the plain network server and its address table, of the peer reports, and of
  how the peer-to-peer server winds down.
\<close>

section \<open>The address table\<close>

text \<open>The steps either leave the table alone or add an address to it.\<close>

lemma network_step_cases:
  assumes "network_step encode home sd sd'"
  obtains
    (same) ps where "ns_AddrManager (fst sd') = ns_AddrManager (fst sd)" "ns_Peers (fst sd') = ps"
      "distinct (map fst (ns_Peers (fst sd))) \<Longrightarrow> distinct (map fst ps)"
  | (learns) ip port now d d' where
      "AddAddress encode ip port now (ns_AddrManager (fst sd)) d = Ret (ns_AddrManager (fst sd'), d')"
      "distinct (map fst (ns_Peers (fst sd))) \<Longrightarrow> distinct (map fst (ns_Peers (fst sd')))"
  using assms
proof (cases rule: network_step.cases)
  case (accepted now remote c)
  show thesis
  proof (cases remote)
    case None
    with accepted show thesis by (intro same) (simp_all add: accept_turn_def)
  next
    case (Some r)
    obtain ip port key where r: "r = (ip, port, key)" by (cases r)
    from accepted Some obtain am d
      where am: "AddAddress encode ip port now (ns_AddrManager (fst sd)) (snd sd) = Ret (am, d)"
      and sd': "fst sd' = (let s1 = (fst sd)\<lparr>ns_AddrManager := am\<rparr> in
        if map_of (ns_Peers s1) key = None
        then s1\<lparr>ns_Peers := AList.update key c (ns_Peers s1)\<rparr> else s1)"
      by (auto simp: accept_turn_def obind_Ret_iff Let_def r)
    show thesis
      by (rule learns [of ip port now "snd sd" d]) (use am sd' in \<open>auto simp: Let_def intro: distinct_update\<close>)
  qed
next
  case (ended remoteAddr)
  then show thesis
    by (intro same [of "AList.delete remoteAddr (ns_Peers (fst sd))"])
      (simp_all add: connection_ends_def Let_def distinct_delete)
next
  case (connected now dial peerAddr e)
  show thesis
  proof (cases "map_of (ns_Peers (fst sd)) peerAddr \<noteq> None \<or> dial = None")
    case True
    with connected show thesis
      by (intro same) (auto simp: ConnectToPeer_def split: option.splits if_splits)
  next
    case False
    then obtain c where c: "dial = Some c" by auto
    let ?s1 = "(fst sd)\<lparr>ns_Peers := AList.update peerAddr c (ns_Peers (fst sd))\<rparr>"
    show thesis
    proof (cases "SplitHostPort peerAddr")
      case None
      with connected False c show thesis
        by (intro same [of "ns_Peers (fst sd')"]) (auto simp: ConnectToPeer_def Let_def intro: distinct_update)
    next
      case (Some hp)
      with connected False c obtain host port d1 am d2
        where am: "AddAddress encode host port now (ns_AddrManager ?s1) d1 = Ret (am, d2)"
        and "fst sd' = ?s1\<lparr>ns_AddrManager := am\<rparr>"
        by (cases hp) (auto simp: ConnectToPeer_def Let_def obind_Ret_iff)
      then show thesis
        by (intro learns [of host port now d1 d2]) (simp_all add: distinct_update)
    qed
  qed
next
  case (broadcast w t payload s sent s' d)
  then show thesis
    by (intro same [of "ns_Peers (fst sd')"]) (auto simp: Broadcast_def broadcast_fold Let_def distinct_map_filter)
qed

lemma network_step_lists:
  assumes "network_step encode home sd sd'" and "network_lists (fst sd)"
  shows "network_lists (fst sd')"
  using assms(1)
proof (cases rule: network_step_cases)
  case (learns ip port now d d')
  from learns(1) obtain as e where "am_Addresses (ns_AddrManager (fst sd)) = Some as"
    and "ns_AddrManager (fst sd') = (ns_AddrManager (fst sd))
      \<lparr>am_Addresses := Some (AList.update (address_key ip port) (Some e) as)\<rparr>" by (rule AddAddress_RetE)
  with learns(2) assms(2) show ?thesis by (simp add: network_lists_def distinct_update)
qed (use assms(2) in \<open>simp_all add: network_lists_def\<close>)

lemma network_step_table:
  assumes "network_step encode home sd sd'" and "table_ok (ns_AddrManager (fst sd))"
  shows "table_ok (ns_AddrManager (fst sd'))"
  using assms(1)
proof (cases rule: network_step_cases)
  case (learns ip port now d d')
  from learns(1) obtain as e where "am_Addresses (ns_AddrManager (fst sd)) = Some as"
    and "ns_AddrManager (fst sd') = (ns_AddrManager (fst sd))
      \<lparr>am_Addresses := Some (AList.update (address_key ip port) (Some e) as)\<rparr>" by (rule AddAddress_RetE)
  with assms(2) update_no_nil show ?thesis by (fastforce simp: table_ok_def)
qed (use assms(2) in simp)

lemma network_step_nil:
  assumes "network_step encode home sd sd'" and "am_Addresses (ns_AddrManager (fst sd)) = None"
  shows "am_Addresses (ns_AddrManager (fst sd')) = None"
  using assms(1)
proof (cases rule: network_step_cases)
  case (learns ip port now d d')
  with assms(2) show ?thesis by (simp add: AddAddress_nil)
qed (use assms(2) in simp)

interpretation network_run: machine "network_step encode home" "\<lambda>sd. network_lists (fst sd)"
  for encode home
  by unfold_locales (rule network_step_lists)

interpretation table_run: machine "network_step encode home" "\<lambda>sd. table_ok (ns_AddrManager (fst sd))"
  for encode home
  by unfold_locales (rule network_step_table)

interpretation nil_run: machine "network_step encode home"
    "\<lambda>sd. am_Addresses (ns_AddrManager (fst sd)) = None" for encode home
  by unfold_locales (rule network_step_nil)

lemma accept_turn_total:
  assumes "table_ok (ns_AddrManager s)"
  shows "\<exists>sd'. accept_turn encode home now remote c (s, d) = Ret sd'"
proof (cases remote)
  case (Some r)
  obtain ip port key where r: "r = (ip, port, key)" by (cases r)
  from AddAddress_total [OF assms] obtain am d'
    where "AddAddress encode ip port now (ns_AddrManager s) d = Ret (am, d')" by blast
  then show ?thesis by (simp add: accept_turn_def Some r Let_def)
qed (simp add: accept_turn_def)

lemma ConnectToPeer_total:
  assumes "table_ok (ns_AddrManager s)"
  shows "\<exists>r. ConnectToPeer encode home now dial peerAddr (s, d) = Ret r"
proof (cases "map_of (ns_Peers s) peerAddr \<noteq> None \<or> dial = None \<or> SplitHostPort peerAddr = None")
  case True
  then show ?thesis by (auto simp: ConnectToPeer_def Let_def split: option.splits)
next
  case False
  then obtain c host portStr where c: "dial = Some c" "SplitHostPort peerAddr = Some (host, portStr)"
    by auto
  let ?port = "case Sscan_int portStr of None \<Rightarrow> 0 | Some p \<Rightarrow> p"
    and ?d = "savePeersToDisk home (s\<lparr>ns_Peers := AList.update peerAddr c (ns_Peers s)\<rparr>) d"
  from AddAddress_total [OF assms] obtain am d'
    where "AddAddress encode host ?port now (ns_AddrManager s) ?d = Ret (am, d')" by blast
  with False c show ?thesis by (simp add: ConnectToPeer_def Let_def)
qed

lemma network_lists_new:
  assumes "\<forall>data as. decode data = Some as \<longrightarrow> distinct (map fst as)"
  shows "network_lists (NewServer decode home address d)"
  using assms
  by (auto simp: network_lists_def NewServer_def NewAddrManager_def am_LoadFromDisk_def
      split: option.splits)

text \<open>C29. In every state a run of accepts, disconnections, dials and broadcasts reaches, no peer address
  and no known address of the network server is listed twice. If the address file gave it a map
  without nil pointers when it was started (or there was no file), the next accept or dial returns
  in every such state; if the file held \<open>null\<close>, which leaves a nil map, no address is ever known and
  the next accept of a TCP connection panics, in every such state.\<close>

theorem network_keeps:
  assumes "\<forall>data as. decode data = Some as \<longrightarrow> distinct (map fst as)"
    and "(network_step encode home)\<^sup>*\<^sup>* (NewServer decode home address d0, d0) (s, d)"
  shows "distinct (GetPeerList s) \<and> distinct (GetKnownAddresses (ns_AddrManager s)) \<and>
    (case am_Addresses (NewAddrManager decode (getDataDirInternal home) d0) of
       Some as \<Rightarrow> None \<in> snd ` set as \<or>
         (\<exists>sd'. accept_turn encode home now remote c (s, d) = Ret sd') \<and>
         (\<exists>r. ConnectToPeer encode home now dial peerAddr (s, d) = Ret r)
     | None \<Rightarrow> GetKnownAddresses (ns_AddrManager s) = [] \<and>
         accept_turn encode home now (Some (ip, port, key)) c (s, d)
           = Panic ''assignment to entry in nil map'')"
proof -
  let ?am = "NewAddrManager decode (getDataDirInternal home) d0"
  have am: "ns_AddrManager (fst (NewServer decode home address d0, d0)) = ?am" by (simp add: NewServer_def)
  have "network_lists s" using network_run.run_keeps [OF assms(2)] network_lists_new [OF assms(1)] by simp
  moreover have "(\<exists>sd'. accept_turn encode home now remote c (s, d) = Ret sd') \<and>
      (\<exists>r. ConnectToPeer encode home now dial peerAddr (s, d) = Ret r)" if "table_ok ?am"
    using table_run.run_keeps [OF assms(2)] that accept_turn_total ConnectToPeer_total am by simp
  moreover have "GetKnownAddresses (ns_AddrManager s) = [] \<and>
      accept_turn encode home now (Some (ip, port, key)) c (s, d) = Panic ''assignment to entry in nil map''"
    if "am_Addresses ?am = None"
    using nil_run.run_keeps [OF assms(2)] that am
    by (simp add: GetKnownAddresses_def accept_turn_def AddAddress_nil)
  ultimately show ?thesis
    by (auto simp: network_lists_def GetPeerList_def GetKnownAddresses_def table_ok_def split: option.splits)
qed

text \<open>A server started without an address file, and one whose file holds \<open>null\<close>.\<close>

definition null_decode :: "bytes \<Rightarrow> addresses option" where
  "null_decode data = (if data = ''null'' then None else Some [])"

theorem network_keeps_witness:
  "(\<exists>s d. accept_turn (\<lambda>_. ''{}'') None 7 (Some (''10.0.0.1'', 80, ''10.0.0.1:80'')) 1
       (NewServer null_decode None '':9333'' empty_disk, empty_disk) = Ret (s, d) \<and>
     GetPeerList s = [''10.0.0.1:80''] \<and>
     (\<exists>r. ConnectToPeer (\<lambda>_. ''{}'') None 8 (Some 2) ''10.0.0.1:80'' (s, d) = Ret r)) \<and>
   (\<exists>d. accept_turn (\<lambda>_. ''{}'') None 7 (Some (''10.0.0.1'', 80, ''10.0.0.1:80'')) 1
       (NewServer null_decode None '':9333'' d, d) = Panic ''assignment to entry in nil map'')"
proof (intro conjI)
  have decode: "\<forall>data as. null_decode data = Some as \<longrightarrow> distinct (map fst as)"
    by (simp add: null_decode_def)
  let ?s0 = "NewServer null_decode None '':9333'' empty_disk"
  have none: "am_Addresses (NewAddrManager null_decode (getDataDirInternal None) empty_disk) = Some []"
    by (simp add: NewAddrManager_def am_LoadFromDisk_def ReadFile_def empty_disk_def)
  then have "table_ok (ns_AddrManager ?s0)" by (simp add: NewServer_def table_ok_def)
  from accept_turn_total [OF this] obtain s d where step: "accept_turn (\<lambda>_. ''{}'') None 7
      (Some (''10.0.0.1'', 80, ''10.0.0.1:80'')) 1 (?s0, empty_disk) = Ret (s, d)" by fast
  then have run: "(network_step (\<lambda>_. ''{}'') None)\<^sup>*\<^sup>* (?s0, empty_disk) (s, d)"
    by (intro r_into_rtranclp network_step.accepted)
  have "GetPeerList s = [''10.0.0.1:80'']"
    using step by (auto simp: accept_turn_def obind_Ret_iff Let_def NewServer_def GetPeerList_def)
  with step network_keeps [OF decode run] none
  show "\<exists>s d. accept_turn (\<lambda>_. ''{}'') None 7 (Some (''10.0.0.1'', 80, ''10.0.0.1:80'')) 1
       (?s0, empty_disk) = Ret (s, d) \<and> GetPeerList s = [''10.0.0.1:80''] \<and>
     (\<exists>r. ConnectToPeer (\<lambda>_. ''{}'') None 8 (Some 2) ''10.0.0.1:80'' (s, d) = Ret r)" by fastforce
  let ?path = "Join (getDataDirInternal None) ''peers_addrman.json''"
  let ?d = "empty_disk\<lparr>dk_file := [?path \<mapsto> ''null'']\<rparr>"
  have "am_Addresses (NewAddrManager null_decode (getDataDirInternal None) ?d) = None"
    by (simp add: NewAddrManager_def am_LoadFromDisk_def ReadFile_def empty_disk_def null_decode_def)
  moreover have "(network_step (\<lambda>_. ''{}'') None)\<^sup>*\<^sup>* (NewServer null_decode None '':9333'' ?d, ?d)
      (NewServer null_decode None '':9333'' ?d, ?d)" by simp
  note network_keeps [OF decode this]
  ultimately show "\<exists>d. accept_turn (\<lambda>_. ''{}'') None 7 (Some (''10.0.0.1'', 80, ''10.0.0.1:80'')) 1
       (NewServer null_decode None '':9333'' d, d) = Panic ''assignment to entry in nil map''"
    by (intro exI [of _ ?d]) simp
qed

section \<open>Reports and shutdown\<close>

text \<open>The peer report lists every peer once, in the order of their identities.\<close>

theorem peers_info_sorted:
  "mset (PeersInfo info peers) = image_mset info (mset peers) \<and>
   sorted (map pi_ID (PeersInfo info peers))"
  using swap_sort_correct [of pi_ID "map info peers"] by (simp add: PeersInfo_def)

lemma drain_removes:
  assumes "distinct drops"
  shows "map fst (drain_peers peers drops) = filter (\<lambda>k. k \<notin> set drops) (map fst peers)"
  using assms
proof (induction drops arbitrary: peers)
  case (Cons n drops)
  have "map fst (AList.delete n peers) = filter (\<lambda>k. k \<noteq> n) (map fst peers)"
    by (auto simp: AList.delete_eq filter_map comp_def case_prod_unfold intro!: arg_cong [where f = "map fst"] filter_cong)
  with Cons show ?case
    by (cases "peers = []") (simp_all add: conj_commute)
qed simp

text \<open>Shutdown ends, and not early: when every peer reports once that it is gone, in whatever order,
  the wait at the end of the server loop is over with the last report and not before it.\<close>

theorem shutdown_drains:
  assumes "mset drops = mset (map fst peers)" and "distinct (map fst peers)"
  shows "drain_peers peers drops = [] \<and>
    (\<forall>k < length drops. drain_peers peers (take k drops) \<noteq> [])"
proof -
  have d: "distinct drops" and eq: "set drops = set (map fst peers)"
    using assms by (metis mset_eq_imp_distinct_iff, metis mset_eq_setD)
  have "map fst (drain_peers peers drops) = []"
    unfolding drain_removes [OF d] using eq by (simp add: filter_empty_conv)
  moreover have "drain_peers peers (take k drops) \<noteq> []" if "k < length drops" for k
  proof -
    have "drops ! k \<notin> set (take k drops)"
      using d that by (auto simp: in_set_conv_nth nth_eq_iff_index_eq)
    moreover have "drops ! k \<in> set (map fst peers)" using that eq by (metis nth_mem)
    ultimately have "drops ! k \<in> set (map fst (drain_peers peers (take k drops)))"
      unfolding drain_removes [OF distinct_take [OF d]] by simp
    then show ?thesis by auto
  qed
  ultimately show ?thesis by simp
qed

definition sample_peer :: "node_id \<Rightarrow> conn" where
  "sample_peer nid = \<lparr>cn_node = \<lparr>nd_ID = nid, nd_IP = None, nd_TCPPort = 0\<rparr>, cn_flags = inboundConn,
     cn_caps = [], cn_name = ''peer''\<rparr>"

theorem shutdown_drains_witness:
  "drain_peers [(''a'', sample_peer ''a''), (''b'', sample_peer ''b'')] [''b'', ''a''] = [] \<and>
   drain_peers [(''a'', sample_peer ''a''), (''b'', sample_peer ''b'')] [''b''] \<noteq> []"
  using shutdown_drains [of "[''b'', ''a'']" "[(''a'', sample_peer ''a''), (''b'', sample_peer ''b'')]"]
  by (auto dest: spec [of _ 1])

section \<open>Finding peers\<close>

text \<open>Bootstrap attempts, in any order and with any outcome, keep the network server's table and
  never panic.\<close>

lemma connect_all_ok:
  assumes "table_ok (ns_AddrManager s)"
  shows "\<exists>s' d'. connect_all encode home attempts (s, d) = Ret (s', d') \<and> table_ok (ns_AddrManager s')"
  using assms
proof (induction attempts arbitrary: s d)
  case (Cons a attempts)
  obtain target now dial where a: "a = (target, now, dial)" by (cases a)
  obtain e s1 d1 where one: "ConnectToPeer encode home now dial target (s, d) = Ret (e, s1, d1)"
    using ConnectToPeer_total [OF Cons.prems] by (metis prod_cases3)
  then have "table_ok (ns_AddrManager s1)"
    using network_step_table [OF network_step.connected [OF one]] Cons.prems by simp
  from Cons.IH [OF this, of d1] show ?case by (simp add: a one)
qed simp

text \<open>Connecting the daemon to a named peer has no effect: an address that resolves is accepted
  without an error, but the node built from it has lost the address, so the dial scheduler,
  whatever its state, neither dials it nor queues it.\<close>

theorem connect_has_no_effect:
  "(fst (SyncEngine_ConnectToPeer resolveTCPAddr peerAddr) \<longleftrightarrow> resolveTCPAddr peerAddr = None) \<and>
   (\<exists>d'. ofold (dial_handle H now) (snd (SyncEngine_ConnectToPeer resolveTCPAddr peerAddr)) d = Ret d' \<and>
      ds_staticPool d' = ds_staticPool d \<and> ds_dialing d' = ds_dialing d \<and> ds_peers d' = ds_peers d)"
proof (cases "resolveTCPAddr peerAddr")
  case None
  then show ?thesis by (simp add: SyncEngine_ConnectToPeer_def)
next
  case (Some r)
  obtain ip port where "r = (ip, port)" by (cases r)
  with Some add_stub_node [of H now d] show ?thesis
    by (auto simp: SyncEngine_ConnectToPeer_def NewNodeV4_def)
qed

section \<open>Starting and accepting\<close>

text \<open>The sync engine's server never comes up, whatever the sockets do: it is built without a
  logger, so its start returns an error, waits for ever on the port-mapping channel that is
  never made, or crashes at its first log message. It crashes exactly when both sockets open on
  addresses that are not announced before that message.\<close>

lemma sync_engine_never_starts:
  "start_up env running (NewSyncEngine port) \<noteq> Went (None, cfg) \<and>
   ((\<exists>s. start_up env False (NewSyncEngine port) = Crashes s) \<longleftrightarrow>
      (\<exists>b. se_udp env (if port = [] then [] else ba_text (the (se_listen env port))) = Some b) \<and>
      (port = [] \<or> (\<exists>a. se_listen env port = Some a \<and> ba_local a \<noteq> Some False)))"
proof
  show "start_up env running (NewSyncEngine port) \<noteq> Went (None, cfg)"
    using start_up_iff [of env running "NewSyncEngine port"] by (auto simp: NewSyncEngine_def)
  show "(\<exists>s. start_up env False (NewSyncEngine port) = Crashes s) \<longleftrightarrow>
      (\<exists>b. se_udp env (if port = [] then [] else ba_text (the (se_listen env port))) = Some b) \<and>
      (port = [] \<or> (\<exists>a. se_listen env port = Some a \<and> ba_local a \<noteq> Some False))"
    by (auto simp: start_up_def NewSyncEngine_def setupListening_def setupDiscovery_def
        setupUDPListening_def with_logger_def announce_def Let_def
        split: option.splits)
qed

text \<open>The accept loop never holds more set-ups than its slots: whatever connections arrive, fail
  or finish, the free and the busy slots add up to the configured number and neither is
  negative, and once the busy ones report, all slots are free, so the wait that ends the loop
  is over.\<close>

theorem listener_bounded:
  assumes "listen_run H netRestrict isLAN evs (listen_init srv history) = Some l"
  shows "li_free l + li_busy l = (if pc_MaxPendingPeers srv > 0 then pc_MaxPendingPeers srv else 50) \<and>
    0 \<le> li_free l \<and> 0 \<le> li_busy l \<and>
    (\<exists>l'. listen_run H netRestrict isLAN (replicate (nat (li_busy l)) SetupDone) l = Some l' \<and>
       li_busy l' = 0 \<and> li_free l' = li_free l + li_busy l \<and> li_open l' = li_open l)"
proof -
  have ok: "slots_ok (li_free (listen_init srv history)) l"
    by (rule listen_run_slots [OF assms listen_init_slots])
  with setups_drain [OF ok, of H netRestrict isLAN] show ?thesis
    by (auto simp: slots_ok_def listen_init_def defaultMaxPendingPeers_def)
qed

definition sample_listening :: P2PConfig where
  "sample_listening =
     \<lparr>pc_MaxPeers = 50, pc_MaxPendingPeers = 2, pc_DialRatio = 0, pc_NoDial = False,
      pc_ListenAddr = '':0'', pc_HasPrivateKey = True, pc_StaticNodes = [], pc_TrustedNodes = [],
      pc_Protocols = []\<rparr>"

lemma sample_listen_run:
  "listen_run list_heap None (\<lambda>_. False) [Accept None 0, Accept (Some ''a'') 1, SetupDone, AcceptError]
     (listen_init sample_listening []) =
   Some \<lparr>li_free = 1, li_busy = 1, li_history = [(''a'', 1 + inboundThrottleTime)], li_open = False\<rparr>"
  by (simp add: listen_init_def sample_listening_def listen_handle_def checkInboundConn_def list_heap_def)

theorem listener_bounded_witness:
  "\<exists>l. listen_run list_heap None (\<lambda>_. False) [Accept None 0, Accept (Some ''a'') 1, SetupDone, AcceptError]
       (listen_init sample_listening []) = Some l \<and> li_free l + li_busy l = 2 \<and> li_busy l = 1"
  using listener_bounded [OF sample_listen_run] sample_listen_run
  by (simp add: sample_listening_def)

end
