(* ===== verification/System_Props.thy ===== *)
theory System_Props
  imports Daemon_Runs Mempool_Props Network_Props
begin

text \<open>
  Properties of the running system: the daemon with its loops, the requests, the command line and other
  processes, all at once, and the ledger with several miners at once.
\<close>

section \<open>The daemon's books\<close>

lemma fresh_ledger:
  assumes "GetLastIndex (ne_ldb E) d = None"
    and "InitializeLedger E (\<lambda>_. Some d) mined path difficulty miner = Ret lc"
  shows "length (lc_Chain lc) = 1" and "lc_State lc = Map.empty"
  using assms(2) unfolding InitializeLedger_empty [OF assms(1)]
  by (auto simp: SpawnGenesis_def with_storage_def Let_def)

text \<open>C5. A daemon started on an empty store, whose miner, requests, exporter and other processes run
  at once, with panics of handlers recovered: in every state it reaches, its chain is the one it started with
  followed by more blocks, each of which the validator accepted after an earlier block of the chain
  (whatever supply it was given). If the cost of no queued transfer it reads wraps and the rewards of those
  blocks fit in 64 bits, all accounts together with the fees of the jobs in flight hold no more than
  those rewards: neither a race nor a recovered panic makes a coin.\<close>

theorem daemon_keeps_books:
  assumes "daemon_start C rnd now port d = Ret (p, rp, cfg, lc0, d0)"
    and "ce_open C = (\<lambda>_. Some sd)" and "GetLastIndex (ne_ldb (daemon_node C)) sd = None"
    and "(daemon_step conv C (Some cfg))\<^sup>*\<^sup>* (daemon_up lc0 d0) s"
  shows "\<exists>bs. lc_Chain (dm_Ledger s) = lc_Chain lc0 @ bs \<and>
    (\<forall>i < length (lc_Chain (dm_Ledger s)). 0 < i \<longrightarrow>
       (\<exists>j < i. \<exists>supply. ValidateBlockConsensus (lc_Chain (dm_Ledger s) ! i)
          (Some (lc_Chain (dm_Ledger s) ! j)) supply = None)) \<and>
    ((\<lambda>s t. daemon_step conv C (Some cfg) s t \<and> queues_fit s)\<^sup>*\<^sup>* (daemon_up lc0 d0) s \<and>
       (\<Sum>b \<leftarrow> bs. unat (blk_Reward b)) < 2 ^ 64 \<longrightarrow>
     (\<Sum>a \<in> dom (lc_State (dm_Ledger s)). unat (bal (lc_State (dm_Ledger s)) a))
       + (\<Sum>j \<in># jobs (dm_Threads s). unat (job_fees j)) \<le> (\<Sum>b \<leftarrow> bs. unat (blk_Reward b)))"
proof -
  obtain path where init: "InitializeLedger (daemon_node C) (\<lambda>_. Some sd) (ce_genesis C) path 3
      (daemon_miner C (RecordStartTime (ce_home C) now d)) = Ret lc0"
    using assms(1,2) by (auto simp: daemon_start_def cli_ledger_def Let_def obind_Ret_iff split: prod.splits)
  note fresh = fresh_ledger [OF assms(3) init]
  have up: "mining_view (daemon_up lc0 d0) = (lc0, {#})" by (simp add: mining_view_def daemon_up_def)
  have "rooted (lc_Chain lc0)" using fresh(1) by (auto simp: rooted_def)
  then have root: "rooted_inv (lc_Chain lc0) (mining_view s)"
    using daemon_chain.run_keeps [OF assms(4), of "lc_Chain lc0"] up by (simp add: rooted_inv_def)
  have "funds_within 0 (lc_Chain lc0) (lc0, {#})"
    using fresh(2) by (simp add: funds_within_def funds_def coins_def)
  then have "funds_within 0 (lc_Chain lc0) (mining_view s)"
    if "(\<lambda>s t. daemon_step conv C (Some cfg) s t \<and> queues_fit s)\<^sup>*\<^sup>* (daemon_up lc0 d0) s"
    using daemon_funds.run_keeps [OF that, of 0 "lc_Chain lc0"] up by simp
  with root show ?thesis
    by (auto simp: rooted_inv_def rooted_def accepted_after_def mining_view_def funds_within_def funds_def
        coins_def fees_out_def issued_def)
qed

text \<open>Alice's daemon, without a home directory, answers a request to mine.\<close>

definition daemon_disk :: disk where
  "daemon_disk = empty_disk\<lparr>dk_file := [[''.xcosh'', ''wallet.dat''] \<mapsto> wallet_json alice_wallet]\<rparr>"

lemma alice_daemon:
  "\<exists>p rp cfg lc0 d0 g sd. daemon_start sending_env [] 7 '':19333'' daemon_disk = Ret (p, rp, cfg, lc0, d0) \<and>
     cfg_RPCUser cfg = ''__cookie__'' \<and>
     lc_Chain lc0 = [g] \<and> lc_Mempool lc0 = [] \<and> lc_Storage lc0 = Some sd \<and> lc_MinerAddress lc0 = alice \<and>
     blk_Timestamp g = genesisTimestamp \<and> length (elems (blk_Hash g)) \<le> 32 \<and> blk_Difficulty g = 3"
proof -
  let ?d = "RecordStartTime (ce_home sending_env) 7 daemon_disk"
  have fresh: "GetLastIndex (ne_ldb (daemon_node sending_env)) [] = None"
    by (simp add: GetLastIndex_def mem_ldb_def)
  have "LoadWallet (ce_home sending_env) ?d = Some alice_wallet"
    using UnmarshalWallet_saved [OF alice_wallet_texts]
    by (simp add: LoadWallet_def LoadWalletCustom_def ReadFile_def RecordStartTime_def WriteFile_def
        getUptimeFilePath_def wallet_getDataDir_def GetDataDir_def Join_def daemon_disk_def empty_disk_def Let_def)
  then have miner: "daemon_miner sending_env ?d = alice"
    by (simp add: daemon_miner_def first_account_def alice_wallet_def alice_account_def)
  have genesis: "snd (ce_genesis sending_env) = []" by (simp add: sending_env_def trusting_env_def)
  have "ce_open sending_env = (\<lambda>_. Some [])" by (simp add: fun_eq_iff)
  then have "\<exists>lc g sd. cli_ledger sending_env 3 alice = Ret lc \<and> lc_Chain lc = [g] \<and> lc_Mempool lc = [] \<and>
      lc_Storage lc = Some sd \<and> lc_MinerAddress lc = alice \<and> blk_Timestamp g = genesisTimestamp \<and>
      length (elems (blk_Hash g)) \<le> 32 \<and> blk_Difficulty g = 3"
    unfolding cli_ledger_def
    by (simp add: InitializeLedger_empty [OF fresh] SpawnGenesis_def with_storage_def Let_def
        genesis_template_def Mine_prepare_def NewConsensusEngine_def genesis)
  moreover have "cfg_RPCUser (fst (snd (LoadConfig [] (GetDataDir (ce_home sending_env)) ?d))) = ''__cookie__''"
    by (simp add: LoadConfig_def Let_def MkdirAll_def empty_disk_def daemon_disk_def ReadFile_def WriteFile_def
        IsNotExist_def config_file_def default_config_def use_cookie_def cookie_split RecordStartTime_def
        getUptimeFilePath_def GetDataDir_def Join_def)
  ultimately show ?thesis using miner by (auto simp: daemon_start_def Let_def split: prod.split)
qed
theorem daemon_keeps_books_witness:
  "\<exists>p rp cfg lc0 d0 lc d. daemon_start sending_env [] 7 '':19333'' daemon_disk = Ret (p, rp, cfg, lc0, d0) \<and>
     (daemon_step (\<lambda>_. 0) sending_env (Some cfg))\<^sup>*\<^sup>* (daemon_up lc0 d0) (daemon_up lc d) \<and>
     length (lc_Chain lc) = 2 \<and>
     (\<exists>supply. ValidateBlockConsensus (lc_Chain lc ! 1) (Some (lc_Chain lc ! 0)) supply = None) \<and>
     (\<Sum>a \<in> dom (lc_State lc). unat (bal (lc_State lc) a)) \<le> unat (blk_Reward (lc_Chain lc ! 1))"
proof -
  obtain p rp cfg lc0 d0 g sd where start: "daemon_start sending_env [] 7 '':19333'' daemon_disk = Ret (p, rp, cfg, lc0, d0)"
    and user: "cfg_RPCUser cfg = ''__cookie__''"
    and lc0: "lc_Chain lc0 = [g]" "lc_Mempool lc0 = []" "lc_Storage lc0 = Some sd" "lc_MinerAddress lc0 = alice"
    and g: "blk_Timestamp g = genesisTimestamp" "length (elems (blk_Hash g)) \<le> 32" "blk_Difficulty g = 3"
    using alice_daemon by blast
  have "ValidatePoW ''01'' (ucast (ucast (CalculateNextDifficulty genesisTimestamp (genesisTimestamp + 50) 3) :: u32))"
    by code_simp
  then obtain lc where mine: "MineBlock (daemon_node sending_env) (genesisTimestamp + 50) (7, [CHR 0x01]) lc0 = Ret lc"
    and len: "length (lc_Chain lc) = 2"
    using mine_after_genesis [OF lc0 g(1,2), of "daemon_node sending_env"] g(3) by auto
  let ?body = "request_json ''generate'' [PNumber 1]" and ?rounds = "\<lambda>_. (genesisTimestamp + 50, 7, [CHR 0x01])"
  let ?req = "\<lparr>rq_Method = ''generate'', rq_Params = [PNumber 1], rq_ID = JNumber (int_text 1)\<rparr>"
  have req: "UnmarshalRequest (\<lambda>_. 0) ?body = Some ?req"
    by (rule request_understood) (simp_all add: sendable_def valid_utf8_ascii)
  have auth: "authorized (Some cfg) (client_header (Some cfg))" by (rule client_authorized) (simp_all add: user)
  obtain r d where "rpc_generate ((ce_rpc sending_env)\<lparr>re_rounds := ?rounds\<rparr>) [PNumber 1] (lc0, d0) = Ret (r, lc, d)"
    using mine by (simp add: rpc_generate_def generate_count_def)
  then have run: "daemon_run True (\<lambda>_. 0) sending_env (Some cfg) (daemon_up lc0 d0) (daemon_up lc d)"
    using uninterrupted_request [OF auth refl req, where C = sending_env and rounds = ?rounds and lc = lc0 and d = d0
        and r = r and lc' = lc and d' = d and fit = True] lc0(2)
    by (simp add: costs_fit_def)
  have env: "ce_open sending_env = (\<lambda>_. Some [])" "GetLastIndex (ne_ldb (daemon_node sending_env)) [] = None"
    by (simp_all add: fun_eq_iff GetLastIndex_def mem_ldb_def)
  obtain bs where chain: "lc_Chain lc = lc_Chain lc0 @ bs"
    and all: "\<forall>i < length (lc_Chain lc). 0 < i \<longrightarrow> (\<exists>j < i. \<exists>supply.
      ValidateBlockConsensus (lc_Chain lc ! i) (Some (lc_Chain lc ! j)) supply = None)"
    and c: "(\<Sum>b \<leftarrow> bs. unat (blk_Reward b)) < 2 ^ 64 \<longrightarrow>
      (\<Sum>a \<in> dom (lc_State lc). unat (bal (lc_State lc) a)) \<le> (\<Sum>b \<leftarrow> bs. unat (blk_Reward b))"
    using daemon_keeps_books [OF start env daemon_run_plain [OF run]] run by (auto simp: daemon_up_def)
  have ok: "\<exists>supply. ValidateBlockConsensus (lc_Chain lc ! 1) (Some (lc_Chain lc ! 0)) supply = None"
    using all [rule_format, of 1] len by simp
  from chain len lc0(1) have "bs = [lc_Chain lc ! 1]" by (cases bs) auto
  with c have "(\<Sum>a \<in> dom (lc_State lc). unat (bal (lc_State lc) a)) \<le> unat (blk_Reward (lc_Chain lc ! 1))"
    using unsigned_less [of "blk_Reward (lc_Chain lc ! 1)", where 'a = nat] by simp
  with start daemon_run_plain [OF run] len ok show ?thesis by blast
qed

section \<open>Start-up\<close>

text \<open>C40. The daemon never comes to its loops: once its ledger is open, whatever the sockets do, the start
  of the sync engine it has built without a logger returns an error, waits for ever on a channel
  that is never made, or crashes at its first message. It crashes exactly when both sockets open
  and the first is not on an address to be announced.\<close>

theorem daemon_never_runs:
  "daemon_main C env rnd now port connectPeer d \<noteq> Ret (DaemonRuns cfg lc d1 peer) \<and>
   ((\<exists>s. daemon_main C env rnd now port connectPeer d = Ret (DaemonCrashed s)) \<longleftrightarrow>
      (\<exists>serverPort rp c l d2. daemon_start C rnd now port d = Ret (serverPort, rp, c, l, d2) \<and>
         (\<exists>b. se_udp env (if serverPort = [] then [] else ba_text (the (se_listen env serverPort))) = Some b) \<and>
         (serverPort = [] \<or> (\<exists>a. se_listen env serverPort = Some a \<and> ba_local a \<noteq> Some False))))"
proof (cases "daemon_start C rnd now port d")
  case (Ret r)
  obtain serverPort rp c l d2 where r: "r = (serverPort, rp, c, l, d2)" by (metis prod_cases5)
  let ?up = "start_up env False (NewSyncEngine serverPort)"
  note main = daemon_main_def [of C env rnd now port connectPeer d, unfolded Ret r, simplified]
  have never: "?up \<noteq> Went (None, x)" for x by (cases x) (simp add: sync_engine_never_starts)
  have "(\<exists>s. daemon_main C env rnd now port connectPeer d = Ret (DaemonCrashed s)) \<longleftrightarrow> (\<exists>s. ?up = Crashes s)"
    unfolding main using never by (cases ?up) (auto split: option.split prod.split)
  moreover have "daemon_main C env rnd now port connectPeer d \<noteq> Ret (DaemonRuns cfg lc d1 peer)"
    unfolding main using never by (cases ?up) (auto split: option.split prod.split)
  ultimately show ?thesis
    unfolding Ret r using sync_engine_never_starts [of env False serverPort "NewSyncEngine serverPort"] by auto
qed (simp add: daemon_main_def)

section \<open>Several miners\<close>

text \<open>C6. However the critical sections of any number of \<open>MineBlock\<close> calls are interleaved, with queueing
  and reloading between them, the chain only grows. If no queued cost wraps along the way, and what is
  held with the rewards of the blocks appended fits in 64 bits, the balances together with the fees of the jobs in flight
  grow by exactly those rewards, as numbers: no interleaving loses or makes a coin.\<close>

theorem interleaved_mining_conserves:
  assumes "(\<lambda>s t. threads_step E s t \<and> (\<forall>tx \<in> set (lc_Mempool (fst s)). cost_fits tx))\<^sup>*\<^sup>* (lc, J) (lc', J')"
    and "finite (dom (lc_State lc))"
  shows "\<exists>bs. lc_Chain lc' = lc_Chain lc @ bs \<and>
    ((\<Sum>a \<in> dom (lc_State lc). unat (bal (lc_State lc) a)) + (\<Sum>j \<in># J. unat (job_fees j))
       + (\<Sum>b \<leftarrow> bs. unat (blk_Reward b)) < 2 ^ 64 \<longrightarrow>
     (\<Sum>a \<in> dom (lc_State lc'). unat (bal (lc_State lc') a)) + (\<Sum>j \<in># J'. unat (job_fees j)) =
     (\<Sum>a \<in> dom (lc_State lc). unat (bal (lc_State lc) a)) + (\<Sum>j \<in># J. unat (job_fees j))
       + (\<Sum>b \<leftarrow> bs. unat (blk_Reward b)))"
proof -
  have "funds_inv (funds (lc, J)) (lc_Chain lc) (lc, J)"
    using assms(2) by (simp add: funds_inv_def issued_def)
  from threads_funds.run_keeps [OF assms(1) [folded costs_fit_def] this] show ?thesis
    by (simp add: funds_inv_def funds_def coins_def fees_out_def issued_def)
qed

text \<open>Modulo \<open>2 ^ 64\<close>, in the arithmetic of the code, that holds without a condition.\<close>

theorem interleaved_mining_modular:
  assumes "(threads_step E)\<^sup>*\<^sup>* (lc, J) (lc', J')" and "finite (dom (lc_State lc))"
  shows "held (lc_State lc') + in_flight J' + rewards (lc_Chain lc) =
    held (lc_State lc) + in_flight J + rewards (lc_Chain lc')"
proof -
  have "coins_inv (held (lc_State lc) + in_flight J - rewards (lc_Chain lc)) (lc, J)"
    using assms(2) by (simp add: coins_inv_def)
  from threads_coins.run_keeps [OF assms(1) this] show ?thesis by (simp add: coins_inv_def)
qed

text \<open>Two miners that started on the same parent commit one after the other.\<close>

theorem interleaved_mining_conserves_witness:
  "\<exists>lc'. (threads_step sample_env)\<^sup>*\<^sup>*
      (sample_ledger [], {# Mined sample_block BlockReward sample_child 0, Mined sample_block BlockReward sample_child 0 #})
      (lc', {#}) \<and>
    (\<Sum>a \<in> dom (lc_State lc'). unat (bal (lc_State lc') a)) = 3 * unat BlockReward"
proof -
  let ?j = "Mined sample_block BlockReward sample_child 0"
  let ?fit = "\<lambda>s t. threads_step sample_env s t \<and> (\<forall>tx \<in> set (lc_Mempool (fst s)). cost_fits tx)"
  obtain lc1 where one: "MineBlock_commit sample_env sample_block BlockReward sample_child 0 (sample_ledger []) = Ret lc1"
    and "lc_Storage lc1 \<noteq> None"
    using commit_accepted [OF sample_child_accepted, of "sample_ledger []" sample_env 0] by auto
  then obtain lc2 where two: "MineBlock_commit sample_env sample_block BlockReward sample_child 0 lc1 = Ret lc2"
    using commit_accepted [OF sample_child_accepted, of lc1 sample_env 0] by auto
  have "threads_step sample_env (sample_ledger [], {# ?j, ?j #}) (lc1, {# ?j #})"
    and "threads_step sample_env (lc1, {# ?j #}) (lc2, {#})"
    using one two by (auto intro: threads_step.commit)
  moreover have "lc_Mempool lc1 = []" using commit_mempool [OF one] by simp
  ultimately have "?fit (sample_ledger [], {# ?j, ?j #}) (lc1, {# ?j #})" "?fit (lc1, {# ?j #}) (lc2, {#})" by simp_all
  then have run: "?fit\<^sup>*\<^sup>* (sample_ledger [], {# ?j, ?j #}) (lc2, {#})"
    by (rule converse_rtranclp_into_rtranclp [where r = ?fit, OF _ r_into_rtranclp])
  then have "(threads_step sample_env)\<^sup>*\<^sup>* (sample_ledger [], {# ?j, ?j #}) (lc2, {#})"
    by (rule rtranclp_mono [THEN predicate2D, rotated]) auto
  moreover have "lc_Chain lc2 = lc_Chain (sample_ledger []) @ [sample_child, sample_child]"
    using commit_Ret(2) [OF one] commit_Ret(2) [OF two] by simp
  moreover have "dom (lc_State (sample_ledger [])) = {alice}" "bal (lc_State (sample_ledger [])) alice = BlockReward"
    by (simp_all add: sample_ledger_def bal_def)
  moreover have "blk_Reward sample_child = BlockReward" "unat BlockReward = 5000000000"
    by (simp_all add: sample_child_def sample_block_def BlockReward_def CoinUnit_def)
  ultimately show ?thesis using interleaved_mining_conserves [OF run] by auto
qed

section \<open>The file of peers\<close>

text \<open>C38. The peers that the network server saves are the ones the command line lists; but once the
  daemon's exporter has had a turn the command lists none, since it writes its status over the
  same file, whatever peers were saved there.\<close>

theorem peers_file_overwritten:
  assumes "ce_home C = Some dir"
    and "dk_writable d (peers_file (Some dir))" and "dk_readable d (peers_file (Some dir))"
  shows "HandleCheckPeers (Some dir) (savePeersToDisk (Some dir) s d) = Some (map replace_invalid (GetPeerList s)) \<and>
    HandleCheckPeers (Some dir) (daemon_export C port updated (savePeersToDisk (Some dir) s d)) = Some []"
  using assms
  by (simp add: HandleCheckPeers_def savePeersToDisk_def daemon_export_def peers_file_def getDataDirInternal_def
      GetDataDir_def ReadFile_def WriteFile_def UnmarshalPeers_saved UnmarshalPeers_status GetPeerList_def)

theorem peers_file_overwritten_witness:
  "\<exists>s. HandleCheckPeers (Some []) (savePeersToDisk (Some []) s empty_disk) = Some [''10.0.0.1:19333''] \<and>
     HandleCheckPeers (Some []) (daemon_export (sending_env\<lparr>ce_rpc := (ce_rpc sending_env)\<lparr>re_home := Some []\<rparr>\<rparr>)
       '':19333'' ''now'' (savePeersToDisk (Some []) s empty_disk)) = Some []"
proof -
  let ?s = "\<lparr>ns_Address = '':19333'', ns_Peers = [(''10.0.0.1:19333'', 1)],
       ns_AddrManager = \<lparr>am_Addresses = Some [], am_FilePath = []\<rparr>\<rparr>"
  let ?C = "sending_env\<lparr>ce_rpc := (ce_rpc sending_env)\<lparr>re_home := Some []\<rparr>\<rparr>"
  have home: "ce_home ?C = Some []" by (simp add: ce_home_def)
  have "replace_invalid ''10.0.0.1:19333'' = ''10.0.0.1:19333''" by code_simp
  then have "map replace_invalid (GetPeerList ?s) = [''10.0.0.1:19333'']"
    by (simp add: GetPeerList_def del: replace_invalid.simps)
  moreover have "dk_writable empty_disk p" "dk_readable empty_disk p" for p by (simp_all add: empty_disk_def)
  note peers_file_overwritten [OF home this, of ?s "'':19333''" "''now''"]
  ultimately show ?thesis by metis
qed

end
