(* ===== verification/Restart_Props.thy ===== *)
theory Restart_Props
  imports Ledger_Props
begin

text \<open>
  Restarts of a node whose blocks hold texts that are not UTF-8: the encoding replaces their
  invalid bytes, so the chain that comes back pays others.
\<close>

section \<open>What a stored chain pays\<close>

lemma pay_other:
  assumes "bal St a = 0" and "a \<noteq> tx_Recipient tx" and "rebuild_tx tx St = Ret St'"
  shows "bal St' a = 0"
  using assms by (auto elim!: rebuild_tx_Ret simp: pay_def Let_def)

lemma stored_block_pays_valid:
  assumes "\<not> valid_utf8 a" and "bal St a = 0" and "RebuildState (stored_block b) St = Ret St'"
  shows "bal St' a = 0"
proof (cases "ofold rebuild_tx (elems (blk_Transfers (stored_block b))) St")
  case (Panic e)
  with assms(3) show ?thesis by (simp add: RebuildState_def)
next
  case (Ret St1)
  let ?b = "stored_block b"
  have credit: "a = m \<or> bal (credit m v St1) a = bal St1 a" for m v by (simp add: bal_credit)
  have "RebuildState ?b St = Ret St' \<Longrightarrow> bal St' a = bal St1 a \<or> a = blk_Miner ?b"
    using credit by (simp only: RebuildState_def Ret obind_simps outcome.inject Let_def split: if_split_asm) blast+
  then have St': "bal St' a = bal St1 a \<or> a = blk_Miner ?b" using assms(3) by blast
  have "bal St1 a = 0"
  proof (rule ofold_invariant [OF Ret, of "\<lambda>St. bal St a = 0"])
    fix tx s t
    assume "tx \<in> set (elems (blk_Transfers ?b))" and s: "bal s a = 0" "rebuild_tx tx s = Ret t"
    then obtain u where "tx = stored_transfer u"
      by (cases "blk_Transfers b") (auto simp: stored_block_def)
    then have "a \<noteq> tx_Recipient tx" using assms(1) by (auto simp: stored_transfer_def)
    from pay_other [OF s(1) this s(2)] show "bal t a = 0" .
  qed (rule assms(2))
  moreover have "a \<noteq> blk_Miner ?b" using assms(1) by (auto simp: stored_block_def)
  ultimately show ?thesis using St' by simp
qed

lemma stored_chain_pays_valid:
  assumes "\<not> valid_utf8 a" and "rebuild_chain (stored_chain bs) = Ret St"
  shows "bal St a = 0"
proof -
  have run: "ofold RebuildState (stored_chain bs) Map.empty = Ret St"
    using assms(2) by (simp add: rebuild_chain_def)
  show ?thesis
  proof (rule ofold_invariant [OF run, of "\<lambda>St. bal St a = 0"])
    fix b s t
    assume "b \<in> set (stored_chain bs)" "bal s a = 0" "RebuildState b s = Ret t"
    then show "bal t a = 0"
      using stored_block_pays_valid [OF assms(1)] by (auto simp: stored_chain_def)
  qed (simp add: bal_def)
qed

section \<open>Restarts\<close>

text \<open>C35. An address that is not UTF-8 holds nothing after a restart, whatever it held before: a
  block is stored with the invalid bytes of its recipients and of its miner replaced, so what
  it paid them is paid to other addresses when the chain is loaded again.\<close>

theorem restart_forgets_invalid:
  assumes "stored_node E lc" and "lc_Storage lc = Some d" and "genesis_matches (hd (lc_Chain lc))"
    and "InitializeLedger E (\<lambda>_. Some d) mined path difficulty miner = Ret lc'"
    and "\<not> valid_utf8 a"
  shows "bal (lc_State lc') a = 0"
proof -
  from assms(4) obtain St where "rebuild_chain (stored_chain (lc_Chain lc)) = Ret St" and "lc_State lc' = St"
    unfolding InitializeLedger_stored [OF assms(1,3,2)] by (auto elim!: obind_RetE split: if_splits)
  with stored_chain_pays_valid [OF assms(5)] show ?thesis by blast
qed

text \<open>A miner whose address ends in a byte that no UTF-8 sequence has.\<close>

definition odd_miner :: string where "odd_miner = ''xcosh'' @ [CHR 0xFF]"

lemma odd_miner: "\<not> valid_utf8 odd_miner" "HasPrefix odd_miner AddressPrefix"
  "odd_miner \<noteq> ''SYSTEM_GENESIS''" "odd_miner \<noteq> []"
  by (code_simp, simp_all add: odd_miner_def HasPrefix_def AddressPrefix_def)

definition odd_block :: LedgerBlock where
  "odd_block = sample_block\<lparr>blk_Index := 1, blk_Timestamp := genesisTimestamp + 600,
     blk_PrevHash := Some good_hash, blk_Miner := odd_miner\<rparr>"

lemma odd_block_simps [simp]:
  "blk_PrevHash odd_block = Some good_hash" "blk_Hash odd_block = Some [CHR 0x01]"
  "blk_Transfers odd_block = Some []" "blk_Miner odd_block = odd_miner"
  "blk_Message odd_block = []" "blk_Index odd_block = 1" "blk_Timestamp odd_block = genesisTimestamp + 600"
  "blk_Difficulty odd_block = 1" "blk_MaxSupply odd_block = MaxSupply"
  "blk_HalvingInterval odd_block = HalvingInterval" "blk_Reward odd_block = BlockReward"
  by (simp_all add: odd_block_def sample_block_def)

lemma sample_genesis_simps [simp]:
  "blk_Index (sample_genesis h) = 0" "blk_Timestamp (sample_genesis h) = genesisTimestamp"
  "blk_Hash (sample_genesis h) = Some h" "blk_Reward (sample_genesis h) = BlockReward"
  by (simp_all add: sample_genesis_def genesis_template_def Mine_prepare_def Let_def
      node_CalculateBlockReward_def reward_at_start)

lemma odd_block_accepted: "ValidateBlockConsensus odd_block (Some (sample_genesis good_hash)) BlockReward = None"
proof -
  have "length good_hash = 32" by code_simp
  then have "length (MarshalBlock odd_block) \<le> 1000000"
    using length_MarshalBlock_le [of odd_block] by (simp add: odd_miner_def)
  then have "(of_nat (length (MarshalBlock odd_block)) :: u64) \<le> MaxBlockSizeBytes"
    by (rule small_length)
  moreover have "expected_reward 1 BlockReward = BlockReward"
    by (simp add: expected_reward_def CalculateBlockReward_def Let_def consensus_constants)
  ultimately show ?thesis
    unfolding validate_accepts_iff follows_def header_ok_def
    using sample_pow odd_miner by (simp add: word_sless_alt genesisTimestamp_def)
qed

lemma odd_append:
  assumes "lc_Chain lc = [sample_genesis good_hash]" and "lc_State lc = Map.empty"
  shows "\<exists>lc1. AppendBlockDirectly sample_env odd_block lc = Ret (None, lc1) \<and>
    lc_Chain lc1 = [sample_genesis good_hash, odd_block] \<and> bal (lc_State lc1) odd_miner = BlockReward"
proof -
  have reward: "blk_Reward odd_block > 0" by (simp add: BlockReward_def CoinUnit_def)
  have "RebuildState odd_block Map.empty = Ret (credit odd_miner BlockReward Map.empty)"
    using reward odd_miner by (simp add: RebuildState_def Let_def)
  moreover have "bal (credit odd_miner BlockReward Map.empty) odd_miner = BlockReward"
    by (simp add: bal_credit) (simp add: bal_def)
  ultimately show ?thesis
    using odd_block_accepted assms
    by (auto simp: AppendBlockDirectly_def GetLatestBlock_def GetTotalCirculatingSupply_def Let_def
        split: option.splits)
qed

theorem restart_forgets_invalid_witness:
  "\<exists>lc0 lc d lc'. AppendBlockDirectly sample_env odd_block lc0 = Ret (None, lc) \<and> lc_Storage lc = Some d \<and>
     bal (lc_State lc) odd_miner = BlockReward \<and>
     InitializeLedger sample_env (\<lambda>_. Some d) (0, []) [] 1 alice = Ret lc' \<and>
     bal (lc_State lc') odd_miner = 0"
proof -
  obtain lc0 where init: "InitializeLedger sample_env (\<lambda>_. Some []) (0, good_hash) [] 1 alice = Ret lc0"
    and lc0: "lc_Chain lc0 = [sample_genesis good_hash]" "lc_State lc0 = Map.empty"
    by (auto simp: InitializeLedger_empty [OF sample_env_empty] SpawnGenesis_def with_storage_def Let_def
        sample_genesis_def)
  have node0: "stored_node sample_env lc0"
    by (rule fresh_stored [OF sample_env_laws(1) reliable_SaveBlock [OF sample_env_laws(2)] sample_env_empty init])
  obtain lc where app: "AppendBlockDirectly sample_env odd_block lc0 = Ret (None, lc)"
    and lc: "lc_Chain lc = [sample_genesis good_hash, odd_block]" "bal (lc_State lc) odd_miner = BlockReward"
    using odd_append [OF lc0] by blast
  have node: "stored_node sample_env lc"
    using ledger_step.append [OF app] reliable_writes [OF sample_env_laws(2)]
    by (intro step_stored_node [OF _ sample_env_laws(1) node0]) (simp add: clean_step_def)
  then obtain d where d: "lc_Storage lc = Some d" by (auto simp: stored_node_def persisted_def)
  have gen: "genesis_matches (hd (lc_Chain lc))"
    using genesis_block_matches by (simp add: lc(1) sample_genesis_def)
  have no_txs: "\<exists>St'. RebuildState (stored_block b) St = Ret St'" if "elems (blk_Transfers b) = []" for b St
    using that by (cases "blk_Transfers b") (simp_all add: RebuildState_def stored_block_def)
  have gen_txs: "elems (blk_Transfers (sample_genesis good_hash)) = []"
    by (simp add: sample_genesis_def genesis_template_def Mine_prepare_def Let_def)
  obtain St1 where one: "RebuildState (stored_block (sample_genesis good_hash)) Map.empty = Ret St1"
    using no_txs [OF gen_txs] by blast
  obtain St where two: "RebuildState (stored_block odd_block) St1 = Ret St"
    using no_txs [of odd_block] by auto
  have "rebuild_chain (stored_chain (lc_Chain lc)) = Ret St"
    by (simp add: lc(1) stored_chain_def rebuild_chain_def one two)
  then obtain lc' where restart: "InitializeLedger sample_env (\<lambda>_. Some d) (0, []) [] 1 alice = Ret lc'"
    unfolding InitializeLedger_stored [OF node gen d] using good_hash by (simp add: lc(1))
  show ?thesis
    using app d lc(2) restart restart_forgets_invalid [OF node d gen restart odd_miner(1)] by blast
qed

end
