(* ===== verification/Net_Props.thy ===== *)
theory Net_Props
  imports P2P_Runs "HOL-Library.Char_ord" "HOL-Library.List_Lexorder"
begin

text \<open>
  The properties of the peer-to-peer layer: the dial scheduler's pool, the server's bookkeeping
  and limits, and the message codes of the protocols on one connection.
\<close>

section \<open>The dial scheduler\<close>

text \<open>C20. In every state the dial scheduler reaches, through any events, random choices and
  resolved nodes: the pool holds each task once, at the position the task carries; it holds
  exactly the static tasks \<open>checkDial\<close> lets through; and the dials in flight are at most the
  configured number.\<close>

theorem dial_pool_exact:
  assumes "history_laws H" and "resolver_ok resolver"
    and "(dial_step H resolver)\<^sup>*\<^sup>* (newDialScheduler config h now) d"
  shows "distinct (ds_staticPool d) \<and>
    (\<forall>i < length (ds_staticPool d). dt_staticPoolIndex (ds_tasks d ! (ds_staticPool d ! i)) = int i) \<and>
    set (ds_staticPool d) =
      {r. (\<exists>nid. (nid, r) \<in> set (ds_static d)) \<and> checkDial H d (dt_dest (ds_tasks d ! r)) = None} \<and>
    int (length (ds_dialing d)) \<le> max 0 (dc_maxActiveDials (ds_config d))"
proof -
  have ok: "sched_ok H {} d" and b: "dials_bounded d" using dial_steps_ok [OF assms(3,1,2)] by simp_all
  then have ex: "pool_exact H {} d" and p: "pool_ok d" by (simp_all add: sched_ok_def)
  have "set (ds_staticPool d) =
      {r. (\<exists>nid. (nid, r) \<in> set (ds_static d)) \<and> checkDial H d (task_dest d r) = None}"
  proof (intro set_eqI iffI)
    fix r assume r: "r \<in> set (ds_staticPool d)"
    then obtain nid where "(nid, r) \<in> set (ds_static d)" using pool_exactD(1) [OF ex] by auto
    with r pool_exactD [OF ex] show "r \<in> {r. (\<exists>nid. (nid, r) \<in> set (ds_static d)) \<and>
        checkDial H d (task_dest d r) = None}" by auto
  qed (use pool_exactD [OF ex] in auto)
  with p b show ?thesis by (simp add: pool_ok_def dials_bounded_def task_index_def task_dest_def)
qed

text \<open>A scheduler with one static node: adding it, then a turn that starts the dial.\<close>

definition sample_node :: Node where
  "sample_node = \<lparr>nd_ID = ''node'', nd_IP = Some [], nd_TCPPort = 19333\<rparr>"

definition sample_config :: dialConfig where
  "sample_config = \<lparr>dc_self = ''self'', dc_maxDialPeers = 5, dc_maxActiveDials = 0\<rparr>"

definition sample_sched :: "(string \<times> int) list dialScheduler" where
  "sample_sched = (newDialScheduler sample_config [] 0)
     \<lparr>ds_tasks := [(newDialTask sample_node staticDialedConn)\<lparr>dt_staticPoolIndex := 0\<rparr>],
      ds_static := [(''node'', 0)], ds_staticPool := [0]\<rparr>"

lemma sample_slots: "freeDialSlots (newDialScheduler sample_config h 0) = 10"
  by (simp add: freeDialSlots_def newDialScheduler_def withDefaults_def sample_config_def
      defaultMaxPendingPeers_def)

lemma sample_add:
  "loop_turn list_heap (\<lambda>_. 0) 0 (AddStatic sample_node) (newDialScheduler sample_config [] 0)
     = Ret sample_sched"
  unfolding loop_turn_def sample_slots
  by (simp add: startStaticDials_def numeral_eq_Suc newDialScheduler_def logStats_def sample_sched_def
      dialStatsLogInterval_def second_def dial_handle_def Let_def checkDial_def sample_node_def
      sample_config_def withDefaults_def list_heap_def addToStaticPool_def task_index_def
      newDialTask_def set_index_def)

lemma sample_step: "(dial_step list_heap None)\<^sup>*\<^sup>* (newDialScheduler sample_config [] 0) sample_sched"
  by (rule r_into_rtranclp, rule dial_step.turn [OF sample_add]) simp

theorem dial_pool_exact_witness:
  "(dial_step list_heap None)\<^sup>*\<^sup>* (newDialScheduler sample_config [] 0) sample_sched \<and>
     checkDial list_heap sample_sched (dt_dest (ds_tasks sample_sched ! 0)) = None"
proof -
  have "resolver_ok None" by (simp add: resolver_ok_def)
  from dial_pool_exact [OF list_heap_laws this sample_step]
  have "set (ds_staticPool sample_sched) = {r. (\<exists>nid. (nid, r) \<in> set (ds_static sample_sched)) \<and>
      checkDial list_heap sample_sched (dt_dest (ds_tasks sample_sched ! r)) = None}" by blast
  moreover have "0 \<in> set (ds_staticPool sample_sched)" by (simp add: sample_sched_def)
  ultimately show ?thesis using sample_step by blast
qed

text \<open>C21. The loop never panics: in every state it reaches, a turn with any event that can occur
  returns, so no task is added twice and no index is out of range.\<close>

theorem dial_loop_never_panics:
  assumes "history_laws H" and "resolver_ok resolver"
    and "(dial_step H resolver)\<^sup>*\<^sup>* (newDialScheduler config h now0) d"
    and "\<forall>task. ev = Done task \<longrightarrow> (nd_ID (task_dest d task), task) \<in> set (ds_dialing d)"
  shows "\<exists>d'. loop_turn H rnd now ev d = Ret d'"
  using loop_turn_ok [of H d ev rnd now] dial_steps_ok [OF assms(3,1,2)] assms(1,4) by blast

theorem dial_loop_never_panics_witness:
  "\<exists>d'. loop_turn list_heap (\<lambda>_. 7) 5 (RemoveStatic sample_node) sample_sched = Ret d'"
proof -
  have "resolver_ok None" by (simp add: resolver_ok_def)
  from dial_loop_never_panics [OF list_heap_laws this sample_step, of "RemoveStatic sample_node"]
  show ?thesis by simp
qed

section \<open>The history on the repository's heap\<close>


text \<open>What the operations on the pool leave alone.\<close>

definition same_nodes :: "'h dialScheduler \<Rightarrow> 'h dialScheduler \<Rightarrow> bool" where
  "same_nodes d d' \<longleftrightarrow> ds_static d' = ds_static d \<and> task_dest d' = task_dest d \<and>
     ds_peers d' = ds_peers d \<and> ds_config d' = ds_config d"

lemma same_nodes_refl [simp]: "same_nodes d d"
  by (simp add: same_nodes_def)












text \<open>What the history holds, it keeps until a timer event.\<close>

lemma pool_ops_history:
  "addToStaticPool r d = Ret d' \<Longrightarrow> ds_history d' = ds_history d"
  "removeFromStaticPool i d = Ret d' \<Longrightarrow> ds_history d' = ds_history d"
  "updateStaticPool H nid d = Ret d' \<Longrightarrow> ds_history d' = ds_history d"
  by (auto simp: addToStaticPool_def removeFromStaticPool_def updateStaticPool_def Let_def
      split: if_splits option.splits)

lemma dial_handle_history:
  assumes "dial_handle H now ev d = Ret d'" and "ev \<noteq> HistoryTimer"
  shows "ds_history d' = ds_history d"
  using assms
  by (auto simp: dial_handle_def Let_def obind_Ret_iff split: dial_event.splits if_splits option.splits
      dest!: pool_ops_history)

lemma static_dials_history:
  assumes "expiring H entries" and "hp_contains H nid (ds_history d)"
    and "static_dials H rnd now started k d = Ret (n, d')"
  shows "hp_contains H nid (ds_history d')"
  using assms(2,3)
proof (induction k arbitrary: started d)
  case (Suc k)
  show ?case
  proof (cases "ds_staticPool d = []")
    case False
    with Suc.prems(2) obtain d1 task where rem: "removeFromStaticPool (int (rnd started mod length (ds_staticPool d)))
        (startDial H now task d) = Ret d1" and rest: "static_dials H rnd now (Suc started) k d1 = Ret (n, d')"
      by (auto simp: Let_def obind_Ret_iff)
    have "ds_history d1 = ds_history (startDial H now task d)" by (rule pool_ops_history(2)) fact
    then have "hp_contains H nid (ds_history d1)"
      using Suc.prems(1) by (simp add: startDial_def Let_def expiring_contains_add [OF assms(1)])
    then show ?thesis using Suc.IH rest by blast
  qed (use Suc.prems in simp)
qed simp

lemma loop_turn_history:
  assumes "expiring H entries" and "hp_contains H nid (ds_history d)"
    and "loop_turn H rnd now ev d = Ret d'" and "ev \<noteq> HistoryTimer"
  shows "hp_contains H nid (ds_history d')"
proof -
  from assms(3) obtain n d1 where d1: "startStaticDials H rnd now (freeDialSlots d) d = Ret (n, d1)"
    and h: "dial_handle H now ev (logStats now d1) = Ret d'"
    by (auto simp: loop_turn_def obind_Ret_iff)
  have "hp_contains H nid (ds_history d1)"
    using d1 unfolding startStaticDials_def by (rule static_dials_history [OF assms(1,2)])
  then show ?thesis using dial_handle_history [OF h assms(4)] by (simp add: logStats_def)
qed

text \<open>With a heap that holds what is added, the history keeps a node until a timer event: through any turns
  without one, at any times, no dial to it is let through. (The timer is set when the scheduler is
  made, and \<open>rearmHistoryTimer\<close> is never called.)\<close>

theorem no_redial_without_timer:
  assumes "expiring H entries" and "hp_contains H nid (ds_history d)"
    and "ofold (\<lambda>(rnd, now, ev). loop_turn H rnd now ev) turns d = Ret d'"
    and "HistoryTimer \<notin> (snd \<circ> snd) ` set turns"
  shows "hp_contains H nid (ds_history d') \<and> (nd_ID n = nid \<longrightarrow> checkDial H d' n \<noteq> None)"
proof -
  have "hp_contains H nid (ds_history d')"
    using assms(2-4)
  proof (induction turns arbitrary: d)
    case (Cons t turns)
    obtain rnd now ev where t: "t = (rnd, now, ev)" by (cases t)
    from Cons.prems(2) t obtain d1 where d1: "loop_turn H rnd now ev d = Ret d1"
      "ofold (\<lambda>(rnd, now, ev). loop_turn H rnd now ev) turns d1 = Ret d'"
      by (auto simp: obind_Ret_iff)
    have "ev \<noteq> HistoryTimer" using Cons.prems(3) t by auto
    with Cons.IH [OF loop_turn_history [OF assms(1) Cons.prems(1) d1(1)] d1(2)] Cons.prems(3)
    show ?case by simp
  qed simp
  then show ?thesis by (auto simp: checkDial_def)
qed

text \<open>The node is dialed, the dial ends, and a day later the node is still refused.\<close>

lemma sample_dialed:
  "\<exists>d. loop_turn list_heap (\<lambda>_. 0) 1 (AddStatic sample_node) sample_sched = Ret d \<and>
     hp_contains list_heap ''node'' (ds_history d)"
  unfolding loop_turn_def
  by (simp add: freeDialSlots_def startStaticDials_def numeral_eq_Suc newDialScheduler_def logStats_def
      sample_sched_def dialStatsLogInterval_def second_def dial_handle_def Let_def sample_node_def
      sample_config_def withDefaults_def defaultMaxPendingPeers_def list_heap_def startDial_def
      removeFromStaticPool_def task_dest_def newDialTask_def set_index_def)

theorem no_redial_without_timer_witness:
  "\<exists>d d'. loop_turn list_heap (\<lambda>_. 0) 1 (AddStatic sample_node) sample_sched = Ret d \<and>
     loop_turn list_heap (\<lambda>_. 0) (86400 * second) (AddStatic sample_node) d = Ret d' \<and>
     checkDial list_heap d' sample_node \<noteq> None"
proof -
  from sample_dialed obtain d where d: "loop_turn list_heap (\<lambda>_. 0) 1 (AddStatic sample_node) sample_sched = Ret d"
    and h: "hp_contains list_heap ''node'' (ds_history d)" by blast
  have "resolver_ok None" by (simp add: resolver_ok_def)
  have "(dial_step list_heap None)\<^sup>*\<^sup>* (newDialScheduler sample_config [] 0) d"
    using sample_step by (rule rtranclp.rtrancl_into_rtrancl) (rule dial_step.turn [OF d], simp)
  from dial_steps_ok [OF this list_heap_laws \<open>resolver_ok None\<close>]
  have "sched_ok list_heap {} d" "dials_bounded d" by simp_all
  from loop_turn_ok [OF this(1) list_heap_laws this(2), of "AddStatic sample_node"] obtain d'
    where d': "loop_turn list_heap (\<lambda>_. 0) (86400 * second) (AddStatic sample_node) d = Ret d'" by blast
  from no_redial_without_timer [OF list_heap_expiring h, of "[(\<lambda>_. 0, 86400 * second, AddStatic sample_node)]"
      d' sample_node] d d'
  show ?thesis by (auto simp: ofold_single sample_node_def)
qed

section \<open>The server\<close>

text \<open>C19. The server and the dial scheduler agree in every state the two reach together: the
  peers are filed once, under their own ids; none is the node itself or useless; the count of
  inbound peers is exact; and the scheduler knows exactly the connected ids and how many of
  them were dialed.\<close>

theorem net_in_sync:
  assumes "history_laws H" and "resolver_ok resolver"
    and "(net_step H resolver srv self)\<^sup>*\<^sup>* (run_init srv, newDialScheduler config h now) (st, d)"
  shows "distinct (map fst (rs_peers st)) \<and>
    (\<forall>(i, c) \<in> set (rs_peers st). nd_ID (cn_node c) = i \<and> i \<noteq> self \<and>
       (pc_Protocols srv = [] \<or> countMatchingProtocols (pc_Protocols srv) (cn_caps c) \<noteq> 0)) \<and>
    rs_inboundCount st = int (length (filter (\<lambda>(i, c). conn_is c inboundConn) (rs_peers st))) \<and>
    ds_peers d = fst ` set (rs_peers st) \<and>
    ds_dialPeers d = int (length (filter (\<lambda>(i, c). dialed c) (rs_peers st)))"
proof -
  have so: "server_ok srv self st" and sync: "in_sync st d"
    using net_steps_ok [OF assms(3,1,2)] by (simp_all add: net_ok_def)
  from so have "\<forall>(i, c) \<in> set (rs_peers st). nd_ID (cn_node c) = i \<and> i \<noteq> self \<and>
      (pc_Protocols srv = [] \<or> countMatchingProtocols (pc_Protocols srv) (cn_caps c) \<noteq> 0)"
    unfolding server_ok_def useful_def by blast
  with so sync show ?thesis by (simp add: server_ok_def in_sync_def peer_count_def split_def)
qed

text \<open>A connection joins a server that has room for one.\<close>

definition sample_server :: P2PConfig where
  "sample_server = \<lparr>pc_MaxPeers = 1, pc_MaxPendingPeers = 0, pc_DialRatio = 0, pc_NoDial = True,
     pc_ListenAddr = '':19333'', pc_HasPrivateKey = True, pc_StaticNodes = [],
     pc_TrustedNodes = [], pc_Protocols = []\<rparr>"

definition sample_conn :: conn where
  "sample_conn = \<lparr>cn_node = sample_node, cn_flags = inboundConn, cn_caps = [], cn_name = ''peer''\<rparr>"

lemma sample_inbound:
  "conn_is sample_conn inboundConn" "\<not> conn_is sample_conn trustedConn" "\<not> dialed sample_conn"
  by (simp_all add: conn_is_def sample_conn_def connFlag_defs dialed_def)

lemma sample_join:
  "run_handle sample_server ''self'' (AddPeer sample_conn) (run_init sample_server) =
     (Verdict None sample_conn, [PeerAdded sample_conn],
      \<lparr>rs_peers = [(''node'', sample_conn)], rs_inboundCount = 1, rs_trusted = {}\<rparr>)"
  by (simp add: run_handle_def run_init_def addPeerChecks_def postHandshakeChecks_def sample_inbound
      maxInboundConns_def maxDialedConns_def) (simp add: sample_server_def sample_conn_def sample_node_def)

theorem net_in_sync_witness:
  "\<exists>st d. (net_step list_heap None sample_server ''self'')\<^sup>*\<^sup>*
       (run_init sample_server, newDialScheduler sample_config [] 0) (st, d) \<and>
     ds_peers d = {''node''} \<and> rs_inboundCount st = 1"
proof -
  let ?d = "newDialScheduler sample_config [] 0 :: (string \<times> int) list dialScheduler"
  have no: "resolver_ok None" by (simp add: resolver_ok_def)
  from dial_steps_ok [where d = ?d, OF rtranclp.rtrancl_refl list_heap_laws no]
  have "sched_ok list_heap {} ?d" "dials_bounded ?d" by simp_all
  from loop_turn_ok [OF this(1) list_heap_laws this(2), of "PeerAdded sample_conn"] obtain d
    where turn: "loop_turn list_heap (\<lambda>_. 0) 0 (PeerAdded sample_conn) ?d = Ret d" by blast
  let ?st = "\<lparr>rs_peers = [(''node'', sample_conn)], rs_inboundCount = 1, rs_trusted = {}\<rparr>"
  have run: "(net_step list_heap None sample_server ''self'')\<^sup>*\<^sup>* (run_init sample_server, ?d) (?st, d)"
    by (rule r_into_rtranclp, rule net_step.server [OF sample_join, where rnd = "\<lambda>_. 0" and now = 0])
      (simp_all add: turn ofold_single)
  have "ds_peers d = {''node''}"
    using net_in_sync [OF list_heap_laws no run] by (simp only: run_state.select_convs) simp
  moreover have "rs_inboundCount ?st = 1" by simp
  ultimately show ?thesis using run by blast
qed

text \<open>C23. A connection is admitted exactly when it matches one of the server's protocols (if it has
  any), is trusted or within the limits (fewer peers than \<open>MaxPeers\<close>, and fewer inbound ones than
  \<open>maxInboundConns\<close> if it is inbound), is not of a peer already connected and not of the node itself.
  It is then filed, counted and announced to the dialer; a refused one changes nothing and
  announces nothing.\<close>

theorem admission:
  assumes "run_handle srv self (AddPeer c) st = (reply, evs, st')"
  shows "(reply = Verdict None c \<longleftrightarrow>
        (pc_Protocols srv = [] \<or> countMatchingProtocols (pc_Protocols srv) (cn_caps c) \<noteq> 0) \<and>
        (conn_is c trustedConn \<or>
           int (length (rs_peers st)) < pc_MaxPeers srv \<and>
           (conn_is c inboundConn \<longrightarrow> rs_inboundCount st < maxInboundConns srv)) \<and>
        nd_ID (cn_node c) \<notin> insert self (fst ` set (rs_peers st))) \<and>
    (if reply = Verdict None c then
        evs = [PeerAdded c] \<and> rs_peers st' = rs_peers st @ [(nd_ID (cn_node c), c)] \<and>
        rs_inboundCount st' = rs_inboundCount st + (if conn_is c inboundConn then 1 else 0)
      else st' = st \<and> evs = [] \<and> (\<exists>r. reply = Verdict (Some r) c))"
proof (cases "addPeerChecks srv self (rs_peers st) (rs_inboundCount st) c")
  case None
  note a = addPeer_accepts [OF None]
  from None a update_fresh [OF a(1)] assms show ?thesis
    by (auto simp: run_handle_def useful_def Let_def)
next
  case (Some r)
  then have "\<not> ((pc_Protocols srv = [] \<or> countMatchingProtocols (pc_Protocols srv) (cn_caps c) \<noteq> 0) \<and>
        (conn_is c trustedConn \<or>
           int (length (rs_peers st)) < pc_MaxPeers srv \<and>
           (conn_is c inboundConn \<longrightarrow> rs_inboundCount st < maxInboundConns srv)) \<and>
        nd_ID (cn_node c) \<notin> insert self (fst ` set (rs_peers st)))"
    by (auto simp: addPeerChecks_def postHandshakeChecks_def map_of_eq_None_iff split: if_splits)
  with Some assms show ?thesis by (auto simp: run_handle_def Let_def)
qed

theorem admission_witness:
  "(''node'', sample_conn) \<in> set (rs_peers (snd (snd
       (run_handle sample_server ''self'' (AddPeer sample_conn) (run_init sample_server))))) \<and>
     ''node'' \<noteq> ''self''"
  using admission [OF sample_join] sample_join by (simp add: sample_conn_def sample_node_def)

text \<open>The dialed and the inbound slots divide \<open>MaxPeers\<close>: with at least one peer allowed and a
  ratio that is not negative, a dialing server dials at least one peer and at most
  \<open>MaxPeers\<close>, a server that does not dial leaves every slot to inbound peers, and no slot is
  lost or counted twice.\<close>

lemma sdiv_pos:
  fixes m r :: int
  assumes "1 \<le> m" and "1 \<le> r"
  shows "0 \<le> m sdiv r \<and> m sdiv r \<le> m"
  using assms
  by (simp add: signed_divide_int_def sgn_if div_le_dividend pos_imp_zdiv_nonneg_iff int_div_le_self
      nonneg1_imp_zdiv_pos_iff split: if_splits)

theorem peer_slots:
  assumes "1 \<le> pc_MaxPeers srv" and "0 \<le> pc_DialRatio srv"
  shows "maxDialedConns srv + maxInboundConns srv = pc_MaxPeers srv \<and>
    0 \<le> maxInboundConns srv \<and>
    (if pc_NoDial srv then maxDialedConns srv = 0 else 1 \<le> maxDialedConns srv)"
proof -
  let ?r = "if pc_DialRatio srv = 0 then defaultDialRatio else pc_DialRatio srv"
  have "1 \<le> ?r" using assms(2) by (simp add: defaultDialRatio_def)
  from sdiv_pos [OF assms(1) this] assms show ?thesis
    by (auto simp: maxInboundConns_def maxDialedConns_def Let_def)
qed

theorem peer_slots_witness:
  "maxDialedConns (sample_server\<lparr>pc_MaxPeers := 50, pc_NoDial := False\<rparr>) = 16 \<and>
     0 \<le> maxInboundConns (sample_server\<lparr>pc_MaxPeers := 50, pc_NoDial := False\<rparr>)"
  using peer_slots [of "sample_server\<lparr>pc_MaxPeers := 50, pc_NoDial := False\<rparr>"]
  by (simp add: sample_server_def maxDialedConns_def defaultDialRatio_def)

section \<open>Message codes\<close>

lemma find_unique:
  assumes "x \<in> set xs" and "P x" and "\<And>y. y \<in> set xs \<Longrightarrow> P y \<Longrightarrow> y = x"
  shows "find P xs = Some x"
proof (cases "find P xs")
  case None
  with assms(1,2) show ?thesis by (simp add: find_None_iff)
next
  case (Some y)
  then have "y \<in> set xs" "P y" by (auto simp: find_Some_iff)
  with assms(3) Some show ?thesis by simp
qed

lemma getProto_unique:
  assumes lay: "laid_out o0 rws"
    and small: "unat o0 + (\<Sum>e\<leftarrow>rws. unat (pr_Length (rw_proto (snd e)))) < 2 ^ 64"
    and "(name, rw) \<in> set rws" and "in_range code rw" and "set running = set rws"
  shows "getProto running code = Inr rw"
proof -
  have one: "e = (name, rw)" if "e \<in> set rws" "in_range code (snd e)" for e
  proof -
    from that(1) assms(3) obtain i j where ij: "i < length rws" "j < length rws"
      "rws ! i = e" "rws ! j = (name, rw)" by (auto simp: in_set_conv_nth)
    with ranges_disjoint [OF lay small ij(1,2), of code] that(2) assms(4) have "i = j" by simp
    with ij show ?thesis by simp
  qed
  have "find (\<lambda>(_, rw). in_range code rw) running = Some (name, rw)"
  proof (rule find_unique)
    show "(name, rw) \<in> set running" "case (name, rw) of (_, rw) \<Rightarrow> in_range code rw"
      using assms(3-5) by simp_all
    show "e = (name, rw)" if "e \<in> set running" "case e of (_, rw) \<Rightarrow> in_range code rw" for e
      using one [of e] that assms(5) by (simp add: split_def)
  qed
  then show ?thesis by (simp add: getProto_def)
qed

text \<open>C24. A message a protocol writes comes back to it: with capabilities sorted and protocol
  lengths that fit in 64 bits, the code on the wire is outside the base protocol's, only the
  same protocol's range holds it, whatever order the running protocols are searched in, and
  what the protocol reads is the message that was written.\<close>

theorem message_routing:
  assumes "caps_sort sortf"
    and "16 + (\<Sum>e\<leftarrow>matchProtocols sortf protocols caps. unat (pr_Length (rw_proto (snd e)))) < 2 ^ 64"
    and "(name, rw) \<in> set (matchProtocols sortf protocols caps)"
    and "set running = set (matchProtocols sortf protocols caps)"
    and "WriteMsg write False rw msg = (err, Some wire)"
  shows "baseProtocolLength \<le> msg_Code wire \<and> getProto running (msg_Code wire) = Inr rw \<and>
    ReadMsg False rw wire = Inr msg"
proof -
  let ?rws = "matchProtocols sortf protocols caps"
  note lay = matchProtocols_laid_out(1) [OF assms(1), of protocols caps]
  have small: "unat baseProtocolLength + (\<Sum>e\<leftarrow>?rws. unat (pr_Length (rw_proto (snd e)))) < 2 ^ 64"
    using assms(2) by (simp add: baseProtocolLength_def)
  from assms(5) have code: "msg_Code msg < pr_Length (rw_proto rw)"
    and wire: "wire = msg\<lparr>msg_Code := msg_Code msg + rw_offset rw\<rparr>"
    by (auto simp: WriteMsg_def not_le Let_def split: if_splits)
  from assms(3) obtain i where i: "i < length ?rws" "?rws ! i = (name, rw)"
    by (auto simp: in_set_conv_nth)
  note off = laid_out_bounds [OF lay small i(1)] and upto = range_within [OF lay small i(1)]
  have "(\<Sum>e\<leftarrow>take (Suc i) ?rws. unat (pr_Length (rw_proto (snd e))))
      \<le> (\<Sum>e\<leftarrow>?rws. unat (pr_Length (rw_proto (snd e))))"
    using sum_take_mono [of "Suc i" "length ?rws" "\<lambda>e. unat (pr_Length (rw_proto (snd e)))" ?rws] i(1)
    by simp
  then have top: "unat (rw_offset rw) + unat (pr_Length (rw_proto rw)) < 2 ^ 64"
    using upto small i(2) by simp
  have less: "unat (msg_Code msg) < unat (pr_Length (rw_proto rw))"
    using code by (simp add: word_less_nat_alt)
  have sum: "unat (msg_Code wire) = unat (msg_Code msg) + unat (rw_offset rw)"
    using top less by (simp add: wire unat_plus_no_wrap)
  then have "in_range (msg_Code wire) rw" using in_range_iff [OF top] less by simp
  from getProto_unique [OF lay small assms(3) this assms(4)]
  have "getProto running (msg_Code wire) = Inr rw" .
  moreover have "baseProtocolLength \<le> msg_Code wire"
    using sum off i(2) by (simp add: word_le_nat_alt)
  ultimately show ?thesis by (simp add: wire ReadMsg_def)
qed

text \<open>A sort of the capabilities that does what \<open>Cap.Cmp\<close> asks for: by name, then by version.\<close>

definition sort_caps :: "Cap list \<Rightarrow> Cap list" where
  "sort_caps caps = sort_key cap_Name (sort_key cap_Version caps)"

lemma between_neq: "b \<le> d \<Longrightarrow> a \<le> b \<Longrightarrow> b \<noteq> a \<Longrightarrow> d \<noteq> a"
  for a :: "'a::order"
  by auto

lemma sorted_grouped: "sorted (map cap_Name caps) \<Longrightarrow> grouped caps"
proof (induction caps)
  case (Cons c caps)
  have "cap_Name d \<noteq> cap_Name c"
    if d: "d \<in> set (dropWhile (\<lambda>d. cap_Name d = cap_Name c) caps)" for d
  proof -
    let ?rest = "dropWhile (\<lambda>d. cap_Name d = cap_Name c) caps"
    have ne: "?rest \<noteq> []"
      using length_pos_if_in_set [OF d] by (rule length_greater_0_conv [THEN iffD1])
    have "sorted (map cap_Name ?rest)"
      using Cons.prems by (simp add: sorted_wrt_map sorted_wrt_dropWhile)
    with d have "cap_Name (hd ?rest) \<le> cap_Name d" by (cases ?rest) auto
    moreover have "hd ?rest \<in> set caps"
      by (rule set_dropWhileD [OF hd_in_set [OF ne]])
    then have "cap_Name c \<le> cap_Name (hd ?rest)"
      using Cons.prems by (simp only: list.map sorted_simps(2) list.set_map ball_simps)
    moreover have "cap_Name (hd ?rest) \<noteq> cap_Name c" using ne by (rule hd_dropWhile)
    ultimately show ?thesis by (rule between_neq)
  qed
  then have "cap_Name c \<notin> cap_Name ` set (dropWhile (\<lambda>d. cap_Name d = cap_Name c) caps)"
    by (metis imageE)
  moreover have "grouped caps" using Cons by simp
  ultimately show ?case by (rule grouped.simps(2) [THEN iffD2, OF conjI])
qed simp

lemma sorted_within:
  assumes "\<And>k. sorted (map g (filter (\<lambda>c. f c = k) xs))"
  shows "sorted_wrt (\<lambda>a b. f a = f b \<longrightarrow> g a \<le> g b) xs"
  using assms
proof (induction xs)
  case (Cons x xs)
  have "sorted (map g (filter (\<lambda>c. f c = k) xs))" for k
    using Cons.prems [of k] by (auto split: if_splits)
  moreover have "g x \<le> g b" if "b \<in> set xs" "f x = f b" for b
    using Cons.prems [of "f x"] that by auto
  ultimately show ?case using Cons.IH by simp
qed simp

lemma sort_caps_sort: "caps_sort sort_caps"
  unfolding caps_sort_def
proof (intro allI conjI)
  fix caps
  show "mset (sort_caps caps) = mset caps" by (simp add: sort_caps_def)
  show "grouped (sort_caps caps)" by (rule sorted_grouped) (simp add: sort_caps_def)
  have "sorted (map cap_Version (filter (\<lambda>c. cap_Name c = k) (sort_caps caps)))" for k
    by (simp add: sort_caps_def sort_key_stable sorted_filter)
  then show "sorted_wrt (\<lambda>a b. cap_Name a = cap_Name b \<longrightarrow> cap_Version a \<le> cap_Version b) (sort_caps caps)"
    by (rule sorted_within)
qed

text \<open>Two protocols; the peer offers two versions of the first one, and the higher one is run.\<close>

definition sample_protocols :: "Protocol list" where
  "sample_protocols = [\<lparr>pr_Name = ''blk'', pr_Version = 1, pr_Length = 8\<rparr>,
     \<lparr>pr_Name = ''blk'', pr_Version = 2, pr_Length = 10\<rparr>,
     \<lparr>pr_Name = ''txs'', pr_Version = 1, pr_Length = 4\<rparr>]"

definition sample_caps :: "Cap list" where
  "sample_caps = [\<lparr>cap_Name = ''txs'', cap_Version = 1\<rparr>, \<lparr>cap_Name = ''blk'', cap_Version = 2\<rparr>,
     \<lparr>cap_Name = ''blk'', cap_Version = 1\<rparr>]"

lemma sample_match:
  "matchProtocols sort_caps sample_protocols sample_caps =
     [(''blk'', \<lparr>rw_proto = \<lparr>pr_Name = ''blk'', pr_Version = 2, pr_Length = 10\<rparr>, rw_offset = 16\<rparr>),
      (''txs'', \<lparr>rw_proto = \<lparr>pr_Name = ''txs'', pr_Version = 1, pr_Length = 4\<rparr>, rw_offset = 26\<rparr>)]"
  by code_simp

theorem message_routing_witness:
  "getProto (rev (matchProtocols sort_caps sample_protocols sample_caps)) 29 =
     Inr \<lparr>rw_proto = \<lparr>pr_Name = ''txs'', pr_Version = 1, pr_Length = 4\<rparr>, rw_offset = 26\<rparr>"
  using message_routing [OF sort_caps_sort, of sample_protocols sample_caps "''txs''"
    "\<lparr>rw_proto = \<lparr>pr_Name = ''txs'', pr_Version = 1, pr_Length = 4\<rparr>, rw_offset = 26\<rparr>"
    "rev (matchProtocols sort_caps sample_protocols sample_caps)" "\<lambda>_. None"
    "\<lparr>msg_Code = 3, msg_Payload = []\<rparr>" None "\<lparr>msg_Code = 29, msg_Payload = []\<rparr>"]
  by (simp add: sample_match WriteMsg_def insert_commute)

end
