(* ===== verification/Server_Go.thy ===== *)
theory Server_Go
  imports P2P_Start
begin

text \<open>
  \<open>internal/p2p/server.go\<close> declares the server of \<open>p2p.go\<close> again as \<open>Server\<close>. Here are the
  operations in which it differs: it has a channel for port mappings, tries again after a temporary
  accept error, sorts its capabilities, and asks a node for a secp256k1 key. \<open>NewLogger\<close>, \<open>OpenDB\<close>,
  \<open>FromECDSAPub\<close>, \<open>IsTemporaryError\<close>, \<open>Cap.Cmp\<close> and \<open>Node.Load\<close> are not in the repository and are
  parameters. The error texts of its log are left out.
\<close>

section \<open>Port mappings\<close>

record portMapping =
  pm_protocol :: string
  pm_name :: string
  pm_port :: int

text \<open>A send to the buffered channel \<open>setupPortMapping\<close> makes, which nothing reads: it waits when the
  buffer is full.\<close>

definition setupPortMapping :: "portMapping list" where
  "setupPortMapping = []"

definition portMapping_register :: "portMapping \<Rightarrow> portMapping list \<Rightarrow> portMapping list progress" where
  "portMapping_register m q = (if length q < 10 then Went (q @ [m]) else Waits)"

fun and_then :: "'a progress \<Rightarrow> ('a \<Rightarrow> 'b progress) \<Rightarrow> 'b progress" where
  "and_then (Went x) k = k x"
| "and_then Waits k = Waits"
| "and_then (Crashes s) k = Crashes s"

section \<open>Start\<close>

text \<open>\<open>hasLog\<close>: whether \<open>srv.log\<close> is a logger. The accept loop begins with a message to it.\<close>

definition Server_setupListening ::
  "bool \<Rightarrow> start_env \<Rightarrow> StartConfig \<Rightarrow> portMapping list
     \<Rightarrow> (start_error option \<times> StartConfig \<times> portMapping list) progress" where
  "Server_setupListening hasLog env cfg q =
     (case se_listen env (pc_ListenAddr cfg) of
        None \<Rightarrow> Went (Some ListenError, cfg, q)
      | Some a \<Rightarrow>
          let cfg1 = cfg\<lparr>pc_ListenAddr := ba_text a\<rparr> in
          and_then (if ba_local a = Some False
                    then portMapping_register
                      \<lparr>pm_protocol = ''TCP'', pm_name = ''xcosh p2p'', pm_port = ba_port a\<rparr> q
                    else Went q)
            (\<lambda>q1. if hasLog then Went (None, cfg1, q1) else Crashes ''nil pointer dereference''))"

definition Server_setupUDPListening ::
  "bool \<Rightarrow> start_env \<Rightarrow> StartConfig \<Rightarrow> portMapping list
     \<Rightarrow> (start_error option \<times> portMapping list) progress" where
  "Server_setupUDPListening hasLog env cfg q =
     (let listenAddr = (if pc_DiscAddr cfg \<noteq> [] then pc_DiscAddr cfg else pc_ListenAddr cfg) in
      case se_udp env listenAddr of
        None \<Rightarrow> Went (Some DiscoveryError, q)
      | Some a \<Rightarrow>
          if \<not> hasLog then Crashes ''nil pointer dereference''
          else and_then (if ba_local a = Some False
                         then portMapping_register
                           \<lparr>pm_protocol = ''UDP'', pm_name = ''xcosh peer discovery'', pm_port = ba_port a\<rparr> q
                         else Went q)
                 (\<lambda>q1. Went (None, q1)))"

text \<open>The discovery listeners are stubs that succeed.\<close>

definition Server_setupDiscovery ::
  "bool \<Rightarrow> start_env \<Rightarrow> StartConfig \<Rightarrow> portMapping list
     \<Rightarrow> (start_error option \<times> portMapping list) progress" where
  "Server_setupDiscovery hasLog env cfg q =
     (if pc_NoDiscovery cfg then Went (None, q) else Server_setupUDPListening hasLog env cfg q)"

definition Server_Start ::
  "bool \<Rightarrow> bool \<Rightarrow> start_env \<Rightarrow> bool \<Rightarrow> StartConfig
     \<Rightarrow> (start_error option \<times> StartConfig \<times> portMapping list) progress" where
  "Server_Start newLogger openDB env running cfg =
     (let hasLog = (pc_HasLogger cfg \<or> newLogger) in
      if running then Went (Some AlreadyRunning, cfg, [])
      else if pc_NoDial cfg \<and> pc_ListenAddr cfg = [] \<and> \<not> hasLog
      then Crashes ''nil pointer dereference''
      else if \<not> pc_HasPrivateKey cfg then Went (Some NoPrivateKey, cfg, [])
      else if \<not> openDB then Went (Some LocalNodeError, cfg, [])
      else
        and_then
          (if pc_ListenAddr cfg \<noteq> [] then Server_setupListening hasLog env cfg setupPortMapping
           else Went (None, cfg, setupPortMapping))
          (\<lambda>(err, cfg1, q1).
             if err \<noteq> None then Went (err, cfg1, q1)
             else
               and_then
                 (Server_setupDiscovery hasLog env cfg1 q1)
                 (\<lambda>(err, q2).
                    if err \<noteq> None then Went (err, cfg1, q2)
                    else if hasLog then Went (None, cfg1, q2)
                    else Crashes ''nil pointer dereference'')))"

lemmas Server_start_defs = Server_Start_def Server_setupDiscovery_def Server_setupListening_def Server_setupUDPListening_def
  portMapping_register_def setupPortMapping_def Let_def

lemma Server_Start_never_waits: "Server_Start newLogger openDB env running cfg \<noteq> Waits"
  by (auto simp: Server_start_defs split: option.splits)

lemma Server_setupListening_from:
  "setupListening env cfg = Went (None, cfg1) \<Longrightarrow>
   Server_setupListening True env cfg q = Went (None, cfg1, q)"
  by (auto simp: setupListening_def Server_setupListening_def announce_def Let_def split: option.splits if_splits)

lemma Server_setupUDPListening_from:
  "setupUDPListening env cfg = Went None \<Longrightarrow>
   Server_setupUDPListening True env cfg q = Went (None, q)"
  by (auto simp: setupUDPListening_def Server_setupUDPListening_def announce_def with_logger_def Let_def
      split: option.splits if_splits)

lemma Server_Start_from_start_up:
  assumes up: "start_up env running cfg = Went (None, cfg')"
  shows "Server_Start newLogger True env running cfg = Went (None, cfg', [])"
proof -
  have basic: "\<not> running" "pc_HasPrivateKey cfg" "pc_HasLogger cfg"
    using start_up_iff [of env running cfg] up by auto
  let ?listening = "if pc_ListenAddr cfg \<noteq> [] then setupListening env cfg else Went (None, cfg)"
  obtain cfg1 where l: "?listening = Went (None, cfg1)" and d: "setupDiscovery env cfg1 = Went None"
    and c: "cfg' = cfg1"
    using up basic unfolding start_up_def with_logger_def
    by (auto split: progress.splits option.splits prod.splits if_splits)
  have "(if pc_ListenAddr cfg \<noteq> [] then Server_setupListening True env cfg setupPortMapping
           else Went (None, cfg, setupPortMapping)) = Went (None, cfg1, setupPortMapping)"
    using l Server_setupListening_from by (auto split: if_splits)
  moreover have "Server_setupDiscovery True env cfg1 q = Went (None, q)" for q
    using d Server_setupUDPListening_from
    by (auto simp: setupDiscovery_def Server_setupDiscovery_def split: if_splits)
  ultimately show ?thesis
    using basic c by (simp add: Server_Start_def setupPortMapping_def)
qed

section \<open>The accept loop\<close>

text \<open>An attempt to accept gives a connection or an error; a temporary error is slept over with the
  slot in hand.\<close>

datatype 'e accept_event = Took "string option" int | Failed 'e | Ended

definition Server_listen_handle ::
  "'h exp_heap \<Rightarrow> (string \<Rightarrow> bool) option \<Rightarrow> (string \<Rightarrow> bool) \<Rightarrow> ('e \<Rightarrow> bool) \<Rightarrow> 'e accept_event
     \<Rightarrow> 'h listener \<Rightarrow> 'h listener option" where
  "Server_listen_handle H netRestrict isLAN isTemporary ev l =
     (case ev of
        Failed err \<Rightarrow>
          if li_open l \<and> li_free l > 0
          then Some (if isTemporary err then l else l\<lparr>li_open := False\<rparr>)
          else None
      | Took remoteIP now \<Rightarrow>
          if li_open l \<and> li_free l > 0 then
            (case checkInboundConn H netRestrict isLAN now remoteIP (li_history l) of
               (Some err, history) \<Rightarrow> Some (l\<lparr>li_history := history\<rparr>)
             | (None, history) \<Rightarrow>
                 Some (l\<lparr>li_free := li_free l - 1, li_busy := li_busy l + 1, li_history := history\<rparr>))
          else None
      | Ended \<Rightarrow>
          if li_busy l > 0 then Some (l\<lparr>li_free := li_free l + 1, li_busy := li_busy l - 1\<rparr>)
          else None)"

fun Server_listen_run ::
  "'h exp_heap \<Rightarrow> (string \<Rightarrow> bool) option \<Rightarrow> (string \<Rightarrow> bool) \<Rightarrow> ('e \<Rightarrow> bool) \<Rightarrow> 'e accept_event list
     \<Rightarrow> 'h listener \<Rightarrow> 'h listener option" where
  "Server_listen_run H netRestrict isLAN isTemporary [] l = Some l"
| "Server_listen_run H netRestrict isLAN isTemporary (ev # evs) l =
     (case Server_listen_handle H netRestrict isLAN isTemporary ev l of
        None \<Rightarrow> None
      | Some l1 \<Rightarrow> Server_listen_run H netRestrict isLAN isTemporary evs l1)"

text \<open>What the loop of \<open>p2p.go\<close> would have to see for the same effect.\<close>

fun without_temporary :: "('e \<Rightarrow> bool) \<Rightarrow> 'e accept_event \<Rightarrow> listen_event list" where
  "without_temporary isTemporary (Took remoteIP now) = [Accept remoteIP now]"
| "without_temporary isTemporary (Failed err) = (if isTemporary err then [] else [AcceptError])"
| "without_temporary isTemporary Ended = [SetupDone]"

lemma Server_listen_handle_step:
  assumes "Server_listen_handle H netRestrict isLAN isTemporary ev l = Some l1"
  shows "listen_run H netRestrict isLAN (without_temporary isTemporary ev @ evs) l =
      listen_run H netRestrict isLAN evs l1 \<and>
    (li_open l1 \<longleftrightarrow> li_open l \<and> (\<forall>err. ev = Failed err \<longrightarrow> isTemporary err))"
  using assms
  by (cases ev) (auto simp: Server_listen_handle_def listen_handle_def split: if_splits prod.splits option.splits)

section \<open>The handshake\<close>

definition stub_cap :: Cap where
  "stub_cap = \<lparr>cap_Name = [], cap_Version = 0\<rparr>"

text \<open>\<open>Protocol.cap\<close> is a stub; \<open>pubkey[1:]\<close> panics on an empty key.\<close>

definition Server_setupLocalNode ::
  "(Cap list \<Rightarrow> Cap list) \<Rightarrow> bytes \<Rightarrow> string \<Rightarrow> Protocol list \<Rightarrow> protoHandshake outcome" where
  "Server_setupLocalNode sortFunc pubkey name protocols =
     (if pubkey = [] then Panic ''slice bounds out of range''
      else Ret \<lparr>ph_Name = name, ph_Caps = sortFunc (map (\<lambda>p. stub_cap) protocols), ph_ID = tl pubkey\<rparr>)"

definition Server_setupConn ::
  "bool \<Rightarrow> (bytes \<Rightarrow> node_id) \<Rightarrow> (bytes \<Rightarrow> Node) \<Rightarrow> (Node \<Rightarrow> bool)
     \<Rightarrow> string + bytes \<Rightarrow> (conn \<Rightarrow> setup_error option \<times> conn) \<Rightarrow> string + protoHandshake
     \<Rightarrow> (conn \<Rightarrow> setup_error option \<times> conn) \<Rightarrow> connFlag \<Rightarrow> Node option \<Rightarrow> setup_error option" where
  "Server_setupConn running keccak nodeFromConn loadsKey enc postHandshake proto addPeer flags dialDest =
     (if \<not> running then Some ServerStopped
      else if (case dialDest of None \<Rightarrow> False | Some n \<Rightarrow> \<not> loadsKey n)
      then Some (EncHandshakeError ''dial destination doesn't have a secp256k1 public key'')
      else
        case enc of
          Inl err \<Rightarrow> Some (EncHandshakeError err)
        | Inr remotePubkey \<Rightarrow>
            let node = (case dialDest of Some n \<Rightarrow> n | None \<Rightarrow> nodeFromConn remotePubkey) in
            case postHandshake \<lparr>cn_node = node, cn_flags = flags, cn_caps = [], cn_name = []\<rparr> of
              (Some err, _) \<Rightarrow> Some err
            | (None, c1) \<Rightarrow>
                (case proto of
                   Inl err \<Rightarrow> Some (ProtoHandshakeError err)
                 | Inr phs \<Rightarrow>
                     if keccak (ph_ID phs) \<noteq> nd_ID (cn_node c1) then Some UnexpectedIdentity
                     else fst (addPeer (c1\<lparr>cn_caps := ph_Caps phs, cn_name := ph_Name phs\<rparr>))))"

text \<open>The two servers set a connection up alike, up to the text of one error.\<close>

lemma setupConn_alike:
  "Server_setupConn running keccak nodeFromConn (\<lambda>n. pubkey n \<noteq> None) enc postHandshake proto addPeer flags dialDest =
   (if running \<and> (\<exists>n. dialDest = Some n \<and> pubkey n = None)
    then Some (EncHandshakeError ''dial destination doesn't have a secp256k1 public key'')
    else setupConn running keccak nodeFromConn pubkey enc postHandshake proto addPeer flags dialDest)"
  by (auto simp: Server_setupConn_def setupConn_def Let_def split: option.splits sum.splits prod.splits)

end
