(* ===== verification/Peer_Feed.thy ===== *)
theory Peer_Feed
  imports P2P_Server Peer
begin

text \<open>
  The life of a peer as others see it: \<open>launchPeer\<close> and \<open>runPeer\<close> of \<open>internal/p2p/p2p.go\<close> with the event
  feed, and the wait of \<open>RemovePeer\<close> for the end of a peer. The type of feeds is a stub; a
  subscriber sees the events of all peers in some interleaving.
\<close>

datatype PeerEventType = PeerEventTypeAdd | PeerEventTypeDrop

record PeerEvent =
  ev_Type :: PeerEventType
  ev_Peer :: node_id
  ev_Error :: string
  ev_RemoteAddress :: string
  ev_LocalAddress :: string

text \<open>What \<open>runPeer\<close> sends to the feed, and what it reports to the main loop when the peer ends: the
  error and whether the remote end asked for it. \<open>evs\<close> is what the peer's own loop receives.\<close>

record peerDrop =
  pd_ID :: node_id
  pd_err :: peer_error
  pd_requested :: bool

definition runPeer ::
  "(peer_error \<Rightarrow> DiscReason) \<Rightarrow> (peer_error \<Rightarrow> string) \<Rightarrow> string \<Rightarrow> string \<Rightarrow> node_id \<Rightarrow> peer_event list
     \<Rightarrow> PeerEvent list \<times> peerDrop option" where
  "runPeer discReasonForError errorText remote local nid evs =
     (let added = \<lparr>ev_Type = PeerEventTypeAdd, ev_Peer = nid, ev_Error = [],
                   ev_RemoteAddress = remote, ev_LocalAddress = local\<rparr>
      in case Peer_run discReasonForError evs of
           None \<Rightarrow> ([added], None)
         | Some (remoteRequested, err, reason) \<Rightarrow>
             ([added, \<lparr>ev_Type = PeerEventTypeDrop, ev_Peer = nid, ev_Error = errorText err,
                       ev_RemoteAddress = remote, ev_LocalAddress = local\<rparr>],
              Some \<lparr>pd_ID = nid, pd_err = err, pd_requested = remoteRequested\<rparr>))"

text \<open>The wait of \<open>RemovePeer\<close> over the events it is sent: what is left of them when it returns.\<close>

fun await_drop :: "node_id \<Rightarrow> PeerEvent list \<Rightarrow> PeerEvent list option" where
  "await_drop nid [] = None"
| "await_drop nid (ev # evs) =
     (if ev_Peer ev = nid \<and> ev_Type ev = PeerEventTypeDrop then Some evs else await_drop nid evs)"

lemma await_drop_iff:
  "await_drop nid evs \<noteq> None \<longleftrightarrow> (\<exists>ev\<in>set evs. ev_Peer ev = nid \<and> ev_Type ev = PeerEventTypeDrop)"
  by (induction evs) auto

text \<open>Only a write error without an error and silence keep a peer running.\<close>

lemma Peer_run_ends: "Peer_run disc evs = None \<longleftrightarrow> set evs \<subseteq> {WriteErr None}"
  by (induction disc evs rule: Peer_run.induct) (auto split: peer_error.splits)

lemma disconnect_ends: "DiscReq r \<in> set evs \<Longrightarrow> Peer_run disc evs \<noteq> None"
  by (auto simp: Peer_run_ends)

lemma runPeer_drop:
  assumes "DiscReq r \<in> set evs"
  shows "\<exists>ev d. runPeer disc errorText remote local nid evs =
      ([\<lparr>ev_Type = PeerEventTypeAdd, ev_Peer = nid, ev_Error = [], ev_RemoteAddress = remote,
         ev_LocalAddress = local\<rparr>, ev], Some d) \<and>
    ev_Type ev = PeerEventTypeDrop \<and> ev_Peer ev = nid \<and> pd_ID d = nid"
  using disconnect_ends [OF assms, of disc] by (auto simp: runPeer_def Let_def)

end
