(* ===== verification/Server_Loop.thy ===== *)
theory Server_Loop
  imports Server_Go P2P_Runs Peer_Feed
begin

text \<open>
  The rest of \<open>internal/p2p/server.go\<close>: the operations it declares for \<open>Server\<close> as \<open>p2p.go\<close> does for
  \<open>P2PServer\<close>, translated from its own text (without the log), and the proof that the two agree,
  so that what is shown of the runs of the one holds of the other.
\<close>

section \<open>Slots and checks\<close>

definition Server_maxDialedConns :: "P2PConfig \<Rightarrow> int" where
  "Server_maxDialedConns srv =
     (if pc_NoDial srv \<or> pc_MaxPeers srv = 0 then 0
      else
        let limit = (if pc_DialRatio srv = 0 then pc_MaxPeers srv sdiv defaultDialRatio
                     else pc_MaxPeers srv sdiv pc_DialRatio srv)
        in if limit = 0 then 1 else limit)"

definition Server_maxInboundConns :: "P2PConfig \<Rightarrow> int" where
  "Server_maxInboundConns srv = pc_MaxPeers srv - Server_maxDialedConns srv"

definition Server_setupDialScheduler ::
  "P2PConfig \<Rightarrow> node_id \<Rightarrow> 'h \<Rightarrow> int \<Rightarrow> 'h dialScheduler \<times> dial_event list" where
  "Server_setupDialScheduler srv self history now =
     (newDialScheduler
        \<lparr>dc_self = self, dc_maxDialPeers = Server_maxDialedConns srv,
         dc_maxActiveDials = pc_MaxPendingPeers srv\<rparr> history now,
      map AddStatic (pc_StaticNodes srv))"

definition Server_postHandshakeChecks ::
  "P2PConfig \<Rightarrow> node_id \<Rightarrow> (node_id \<times> conn) list \<Rightarrow> int \<Rightarrow> conn \<Rightarrow> DiscReason option" where
  "Server_postHandshakeChecks srv self peers inboundCount c =
     (let isTrusted = conn_is c trustedConn in
      if \<not> isTrusted \<and> int (length peers) \<ge> pc_MaxPeers srv then Some DiscTooManyPeers
      else if \<not> isTrusted \<and> conn_is c inboundConn \<and> inboundCount \<ge> Server_maxInboundConns srv
      then Some DiscTooManyPeers
      else if nd_ID (cn_node c) \<in> fst ` set peers then Some DiscAlreadyConnected
      else if nd_ID (cn_node c) = self then Some DiscSelf
      else None)"

definition Server_addPeerChecks ::
  "P2PConfig \<Rightarrow> node_id \<Rightarrow> (node_id \<times> conn) list \<Rightarrow> int \<Rightarrow> conn \<Rightarrow> DiscReason option" where
  "Server_addPeerChecks srv self peers inboundCount c =
     (if pc_Protocols srv \<noteq> [] \<and> countMatchingProtocols (pc_Protocols srv) (cn_caps c) = 0
      then Some DiscUselessPeer
      else Server_postHandshakeChecks srv self peers inboundCount c)"

definition Server_checkInboundConn ::
  "'h exp_heap \<Rightarrow> (string \<Rightarrow> bool) option \<Rightarrow> (string \<Rightarrow> bool) \<Rightarrow> int \<Rightarrow> string option \<Rightarrow> 'h
     \<Rightarrow> inbound_error option \<times> 'h" where
  "Server_checkInboundConn H netRestrict isLAN now remoteIP history =
     (case remoteIP of
        None \<Rightarrow> (None, history)
      | Some ip \<Rightarrow>
          if netRestrict \<noteq> None \<and> \<not> the netRestrict ip then (Some NotInNetRestrict, history)
          else
            let history1 = snd (hp_expire H now history) in
            if \<not> isLAN ip \<and> hp_contains H ip history1 then (Some TooManyAttempts, history1)
            else (None, hp_add H ip (now + inboundThrottleTime) history1))"

section \<open>The main loop\<close>

definition Server_run_handle ::
  "P2PConfig \<Rightarrow> node_id \<Rightarrow> run_event \<Rightarrow> run_state \<Rightarrow> run_reply \<times> dial_event list \<times> run_state" where
  "Server_run_handle srv self ev st =
     (let peers = rs_peers st; inboundCount = rs_inboundCount st; trusted = rs_trusted st in
      case ev of
        AddTrusted n \<Rightarrow>
          (NoReply, [], st\<lparr>rs_trusted := insert (nd_ID n) trusted,
                           rs_peers := set_trusted (nd_ID n) True peers\<rparr>)
      | RemoveTrusted n \<Rightarrow>
          (NoReply, [], st\<lparr>rs_trusted := trusted - {nd_ID n},
                           rs_peers := set_trusted (nd_ID n) False peers\<rparr>)
      | PeerCountOp \<Rightarrow> (Count (length peers), [], st)
      | PostHandshake c \<Rightarrow>
          let c1 = (if nd_ID (cn_node c) \<in> trusted then conn_set trustedConn True c else c)
          in (Verdict (Server_postHandshakeChecks srv self peers inboundCount c1) c1, [], st)
      | AddPeer c \<Rightarrow>
          (case Server_addPeerChecks srv self peers inboundCount c of
             None \<Rightarrow>
               (Verdict None c, [PeerAdded c],
                st\<lparr>rs_peers := AList.update (nd_ID (cn_node c)) c peers,
                   rs_inboundCount := (if conn_is c inboundConn then inboundCount + 1 else inboundCount)\<rparr>)
           | Some err \<Rightarrow> (Verdict (Some err) c, [], st))
      | DelPeer c \<Rightarrow>
          (NoReply, [PeerRemoved c],
           st\<lparr>rs_peers := AList.delete (nd_ID (cn_node c)) peers,
              rs_inboundCount := (if conn_is c inboundConn then inboundCount - 1 else inboundCount)\<rparr>))"

fun Server_drain_peers :: "(node_id \<times> conn) list \<Rightarrow> node_id list \<Rightarrow> (node_id \<times> conn) list" where
  "Server_drain_peers [] drops = []"
| "Server_drain_peers peers [] = peers"
| "Server_drain_peers peers (nid # drops) = Server_drain_peers (AList.delete nid peers) drops"

section \<open>Calls into the loop\<close>

text \<open>\<open>doPeerOp\<close> runs the operation in the loop, or gives up when the server quits.\<close>

definition Server_doPeerOp :: "bool \<Rightarrow> ((node_id \<times> conn) list \<Rightarrow> 'a) \<Rightarrow> 'a \<Rightarrow> run_state \<Rightarrow> 'a" where
  "Server_doPeerOp quit fn unset st = (if quit then unset else fn (rs_peers st))"

definition Server_Peers :: "bool \<Rightarrow> run_state \<Rightarrow> conn list" where
  "Server_Peers quit st = Server_doPeerOp quit (map snd) [] st"

definition Server_PeerCount :: "bool \<Rightarrow> run_state \<Rightarrow> nat" where
  "Server_PeerCount quit st = Server_doPeerOp quit length 0 st"

definition Server_RemovePeer :: "bool \<Rightarrow> Node \<Rightarrow> run_state \<Rightarrow> dial_event list \<times> conn option" where
  "Server_RemovePeer quit node st =
     Server_doPeerOp quit (\<lambda>peers. ([RemoveStatic node], map_of peers (nd_ID node))) ([], None) st"

definition Server_checkpoint ::
  "P2PConfig \<Rightarrow> node_id \<Rightarrow> run_state \<Rightarrow> (conn \<Rightarrow> run_event) \<Rightarrow> bool \<Rightarrow> conn \<Rightarrow> setup_error option \<times> conn"
where
  "Server_checkpoint srv self st stage quit c =
     (if quit then (Some ServerStopped, c)
      else case fst (Server_run_handle srv self (stage c) st) of
             Verdict v c1 \<Rightarrow> (map_option Refused v, c1)
           | _ \<Rightarrow> (None, c))"

definition Server_SetupConn :: "connFlag \<Rightarrow> setup_error option \<Rightarrow> setup_error option \<times> bool \<times> bool" where
  "Server_SetupConn flags err =
     (case err of
        None \<Rightarrow> (None, False, False)
      | Some e \<Rightarrow> (Some e, flags AND inboundConn = 0, True))"

definition Server_Stop :: "P2PServer \<Rightarrow> P2PServer" where
  "Server_Stop srv =
     (if sv_running srv then srv\<lparr>sv_running := False, sv_listening := False, sv_quit := True\<rparr> else srv)"

definition Server_runPeer ::
  "(peer_error \<Rightarrow> DiscReason) \<Rightarrow> (peer_error \<Rightarrow> string) \<Rightarrow> string \<Rightarrow> string \<Rightarrow> node_id \<Rightarrow> peer_event list
     \<Rightarrow> PeerEvent list \<times> peerDrop option" where
  "Server_runPeer discReasonForError errorText remote local nid evs =
     (let event = (\<lambda>t err. \<lparr>ev_Type = t, ev_Peer = nid, ev_Error = err,
                           ev_RemoteAddress = remote, ev_LocalAddress = local\<rparr>);
          added = [event PeerEventTypeAdd []]
      in case Peer_run discReasonForError evs of
           None \<Rightarrow> (added, None)
         | Some (remoteRequested, err, reason) \<Rightarrow>
             (added @ [event PeerEventTypeDrop (errorText err)],
              Some \<lparr>pd_ID = nid, pd_err = err, pd_requested = remoteRequested\<rparr>))"

section \<open>The two servers agree\<close>

lemma Server_limits: "Server_maxDialedConns = maxDialedConns" "Server_maxInboundConns = maxInboundConns"
  by (simp_all add: fun_eq_iff Server_maxDialedConns_def maxDialedConns_def Server_maxInboundConns_def
      maxInboundConns_def)

lemma Server_checks:
  "Server_postHandshakeChecks = postHandshakeChecks" "Server_addPeerChecks = addPeerChecks"
  "Server_checkInboundConn H netRestrict isLAN now remoteIP history
     = checkInboundConn H netRestrict isLAN now remoteIP history"
proof -
  show post: "Server_postHandshakeChecks = postHandshakeChecks"
    by (simp add: fun_eq_iff Server_postHandshakeChecks_def postHandshakeChecks_def Server_limits Let_def
        map_of_eq_None_iff)
  show "Server_addPeerChecks = addPeerChecks"
    by (simp add: fun_eq_iff Server_addPeerChecks_def addPeerChecks_def post)
  show "Server_checkInboundConn H netRestrict isLAN now remoteIP history
     = checkInboundConn H netRestrict isLAN now remoteIP history"
    by (simp add: Server_checkInboundConn_def checkInboundConn_def split: option.split)
qed

lemma Server_loop: "Server_run_handle srv self ev st = run_handle srv self ev st"
  by (simp add: Server_run_handle_def run_handle_def Server_checks Let_def split: run_event.split option.split)

lemma Server_drain: "Server_drain_peers peers drops = drain_peers peers drops"
proof (induction peers drops rule: Server_drain_peers.induct)
  case (1 drops)
  then show ?case by (cases drops) simp_all
qed simp_all

lemma Server_calls:
  "Server_Peers = Peers" "Server_PeerCount = PeerCount" "Server_RemovePeer = RemovePeer"
  "Server_checkpoint = checkpoint" "Server_Stop = Stop" "Server_runPeer = runPeer"
  "Server_SetupConn = SetupConn"
  "Server_setupDialScheduler srv self history now = setupDialScheduler srv self history now"
  by (simp_all add: fun_eq_iff Server_Peers_def Peers_def Server_PeerCount_def PeerCount_def
      Server_RemovePeer_def RemovePeer_def Server_doPeerOp_def Server_checkpoint_def checkpoint_def
      Server_loop Server_Stop_def Stop_def Server_runPeer_def runPeer_def Server_SetupConn_def
      SetupConn_def Server_setupDialScheduler_def setupDialScheduler_def dial_config_def Server_limits
      Let_def split: option.split)

section \<open>Runs of the second server\<close>

inductive Server_step ::
  "'h exp_heap \<Rightarrow> (Node \<Rightarrow> Node option) option \<Rightarrow> P2PConfig \<Rightarrow> node_id
     \<Rightarrow> run_state \<times> 'h dialScheduler \<Rightarrow> run_state \<times> 'h dialScheduler \<Rightarrow> bool"
  for H resolver srv self where
  loop: "Server_run_handle srv self ev st = (reply, evs, st') \<Longrightarrow>
     \<forall>c. ev = DelPeer c \<longrightarrow> (nd_ID (cn_node c), c) \<in> set (rs_peers st) \<Longrightarrow>
     ofold (loop_turn H rnd now) evs d = Ret d' \<Longrightarrow>
     Server_step H resolver srv self (st, d) (st', d')"
| dialing: "loop_turn H rnd now ev d = Ret d' \<Longrightarrow>
     (\<And>task. ev = Done task \<Longrightarrow> (nd_ID (task_dest d task), task) \<in> set (ds_dialing d)) \<Longrightarrow>
     (\<And>c. ev \<noteq> PeerAdded c \<and> ev \<noteq> PeerRemoved c) \<Longrightarrow>
     Server_step H resolver srv self (st, d) (st, d')"
| resolving: "task \<in> snd ` set (ds_dialing d) \<Longrightarrow>
     Server_step H resolver srv self (st, d) (st, run_task resolver now task d)"

lemma Server_step_net: "Server_step H resolver srv self s t \<Longrightarrow> net_step H resolver srv self s t"
  by (induction rule: Server_step.induct) (auto simp: Server_loop intro: net_step.intros)

interpretation Server_run: implementation "Server_step H resolver srv self" "net_step H resolver srv self"
    "\<lambda>s. s" "\<lambda>s. history_laws H \<and> resolver_ok resolver \<longrightarrow> net_ok H srv self s"
  for H resolver srv self
  by unfold_locales (blast intro: Server_step_net)

lemma second_server_ok:
  assumes "(Server_step H resolver srv self)\<^sup>*\<^sup>*
      (run_init srv, fst (Server_setupDialScheduler srv self history now)) s"
    and "history_laws H" and "resolver_ok resolver"
  shows "net_ok H srv self s"
  using Server_run.run_simulates [OF assms(1)] assms(2,3)
  by (intro net_steps_ok) (simp_all add: Server_setupDialScheduler_def)

end
