(* ===== verification/Server_Props.thy ===== *)
theory Server_Props
  imports Server_Loop
begin

text \<open>
  Properties of the second server (\<open>internal/p2p/server.go\<close>) against the first, and of the removal
  of a peer, which goes through the dial scheduler, the peer's own loop, the main loop and an
  event feed that delivers.
\<close>

section \<open>The second server\<close>

text \<open>The second server never waits while it starts, and comes up wherever the first does, with the
  same configuration and without a port mapping asked for.\<close>

lemma server_comes_up:
  "Server_Start newLogger openDB env running cfg \<noteq> Waits \<and>
   (start_up env running cfg = Went (None, cfg') \<longrightarrow>
    Server_Start newLogger True env running cfg = Went (None, cfg', []))"
  using Server_Start_never_waits Server_Start_from_start_up by blast

text \<open>The accept loop of the second server survives temporary errors: a run of it is a run of the
  first server's loop from which they are left out, so it keeps the same slots and history, and
  it still accepts at the end exactly when no other error came.\<close>

theorem temporary_errors_survived:
  assumes "Server_listen_run H netRestrict isLAN isTemporary evs l = Some l'"
  shows "listen_run H netRestrict isLAN (concat (map (without_temporary isTemporary) evs)) l = Some l' \<and>
    (li_open l' \<longleftrightarrow> li_open l \<and> (\<forall>err. Failed err \<in> set evs \<longrightarrow> isTemporary err))"
  using assms
proof (induction evs arbitrary: l)
  case (Cons ev evs)
  then obtain l1 where l1: "Server_listen_handle H netRestrict isLAN isTemporary ev l = Some l1"
    and rest: "Server_listen_run H netRestrict isLAN isTemporary evs l1 = Some l'"
    by (auto split: option.splits)
  from Server_listen_handle_step [OF l1, of "concat (map (without_temporary isTemporary) evs)"]
    Cons.IH [OF rest]
  show ?case by auto
qed simp

definition sample_listener :: "(string \<times> int) list listener" where
  "sample_listener = \<lparr>li_free = 1, li_busy = 0, li_history = [], li_open = True\<rparr>"

lemma sample_accepts_run:
  "Server_listen_run list_heap None (\<lambda>_. False) (\<lambda>err. err = ''try again'')
     [Failed ''try again'', Took None 0, Ended, Failed ''try again'', Took None 1] sample_listener =
   Some (sample_listener\<lparr>li_free := 0, li_busy := 1\<rparr>)"
  by (simp add: sample_listener_def Server_listen_handle_def checkInboundConn_def)

theorem temporary_errors_survived_witness:
  "listen_run list_heap None (\<lambda>_. False) [Accept None 0, SetupDone, Accept None 1] sample_listener =
   Some (sample_listener\<lparr>li_free := 0, li_busy := 1\<rparr>)"
  using temporary_errors_survived [OF sample_accepts_run] by simp

section \<open>Removing a peer\<close>

text \<open>With a feed that delivers, removing a connected peer returns: the static node goes from the dial
  scheduler, and once the request to disconnect reaches the peer's loop, the peer reports itself to
  the main loop, which drops it from the map, and then its drop event ends the wait, however the
  events of other peers are mixed with it and whether or not the subscription came in time for its
  first event. (The feed of \<open>types.go\<close> delivers nothing: \<open>stub_feed_silent\<close>.)\<close>

theorem remove_peer_returns:
  assumes "RemovePeer False node st = (out, Some c)" and "nd_ID (cn_node c) = nd_ID node"
    and "DiscReq r \<in> set evs" and "k \<le> 1"
    and "feed \<in> shuffles (drop k (fst (runPeer disc errorText remote local (nd_ID node) evs))) others"
  shows "out = [RemoveStatic node] \<and>
    (\<exists>d. snd (runPeer disc errorText remote local (nd_ID node) evs) = Some d \<and> pd_ID d = nd_ID node) \<and>
    map_of (rs_peers (snd (snd (run_handle srv self (DelPeer c) st)))) (nd_ID node) = None \<and>
    await_drop (nd_ID node) feed \<noteq> None"
proof -
  obtain ev d where run: "runPeer disc errorText remote local (nd_ID node) evs =
      ([\<lparr>ev_Type = PeerEventTypeAdd, ev_Peer = nd_ID node, ev_Error = [], ev_RemoteAddress = remote,
         ev_LocalAddress = local\<rparr>, ev], Some d)"
    and ev: "ev_Type ev = PeerEventTypeDrop" "ev_Peer ev = nd_ID node" and d: "pd_ID d = nd_ID node"
    using runPeer_drop [OF assms(3)] by metis
  have "ev \<in> set feed"
    using set_shuffles [OF assms(5)] assms(4) run by (cases k) auto
  with ev have "await_drop (nd_ID node) feed \<noteq> None" unfolding await_drop_iff by blast
  moreover have "map_of (rs_peers (snd (snd (run_handle srv self (DelPeer c) st)))) (nd_ID node) = None"
    using assms(2) by (simp add: run_handle_def delete_conv)
  ultimately show ?thesis
    using assms(1) run d by (simp add: RemovePeer_def)
qed

definition leaving_node :: Node where
  "leaving_node = \<lparr>nd_ID = ''a'', nd_IP = None, nd_TCPPort = 0\<rparr>"

definition leaving_conn :: conn where
  "leaving_conn = \<lparr>cn_node = leaving_node, cn_flags = 0, cn_caps = [], cn_name = []\<rparr>"

definition one_peer :: run_state where
  "one_peer = \<lparr>rs_peers = [(''a'', leaving_conn)], rs_inboundCount = 0, rs_trusted = {}\<rparr>"

theorem remove_peer_returns_witness:
  "await_drop ''a'' (tl (fst (runPeer (\<lambda>_. DiscRequested) (\<lambda>_. ''requested'') ''r'' ''l'' ''a''
     [WriteErr None, DiscReq DiscRequested]))) \<noteq> None"
proof -
  have "RemovePeer False leaving_node one_peer = ([RemoveStatic leaving_node], Some leaving_conn)"
    by (simp add: RemovePeer_def one_peer_def leaving_node_def)
  from remove_peer_returns [OF this, of DiscRequested "[WriteErr None, DiscReq DiscRequested]" 1
      "tl (fst (runPeer (\<lambda>_. DiscRequested) (\<lambda>_. ''requested'') ''r'' ''l'' ''a''
         [WriteErr None, DiscReq DiscRequested]))"
      "\<lambda>_. DiscRequested" "\<lambda>_. ''requested''" "''r''" "''l''" "[]"]
  show ?thesis by (simp add: leaving_conn_def leaving_node_def drop_Suc)
qed

end
