(* ===== verification/Entry.thy ===== *)
theory Entry
  imports Commands Go_Numbers
begin

text \<open>
  \<open>xcosh.go\<close>: the flags of each command and the dispatch on the first argument. The flag sets are
  those of the standard library with \<open>ExitOnError\<close>: a command whose flags do not parse ends the
  process with status 2, one asked for help with status 0. \<open>conv\<close> is the machine's conversion of a
  float out of range to \<open>uint64\<close>.
\<close>

section \<open>Flag sets\<close>

text \<open>A flag set is what it does with a name and a value: no such flag, a value it refuses, or the
  new values. No flag of the program is a boolean, so every flag takes a value.\<close>

datatype 'v flag_outcome = NotDefined | BadValue | Stored 'v

type_synonym 'v flag_set = "string \<Rightarrow> string \<Rightarrow> 'v \<Rightarrow> 'v flag_outcome"

datatype 'v parsed = Flags 'v | HelpWanted | FlagError

text \<open>The text of an argument after its one or two minus signs; \<open>None\<close> when it is not a flag.\<close>

definition flag_text :: "string \<Rightarrow> string option" where
  "flag_text s =
     (if length s < 2 \<or> hd s \<noteq> CHR ''-'' then None
      else if s ! 1 = CHR ''-'' then (if length s = 2 then None else Some (drop 2 s))
      else Some (tl s))"

text \<open>\<open>name=value\<close>, where the first character belongs to the name whatever it is.\<close>

definition split_flag :: "string \<Rightarrow> string \<times> string option" where
  "split_flag text =
     (let name = takeWhile (\<lambda>c. c \<noteq> CHR ''='') (tl text);
          rest = dropWhile (\<lambda>c. c \<noteq> CHR ''='') (tl text)
      in (hd text # name, if rest = [] then None else Some (tl rest)))"

text \<open>Whether the first flag of the set is looked up with the next argument as its value: the flag
  must be known before its value is missed.\<close>

definition known_flag :: "'v flag_set \<Rightarrow> string \<Rightarrow> 'v \<Rightarrow> bool" where
  "known_flag fs name vals \<longleftrightarrow> fs name [] vals \<noteq> NotDefined"

fun parse_flags :: "'v flag_set \<Rightarrow> string list \<Rightarrow> 'v \<Rightarrow> 'v parsed" where
  "parse_flags fs [] vals = Flags vals"
| "parse_flags fs (arg # args) vals =
     (case flag_text arg of
        None \<Rightarrow> Flags vals
      | Some text \<Rightarrow>
          if HasPrefix text ''-'' \<or> HasPrefix text ''='' then FlagError
          else
            case split_flag text of
              (name, value) \<Rightarrow>
                if \<not> known_flag fs name vals
                then (if name = ''help'' \<or> name = ''h'' then HelpWanted else FlagError)
                else
                  (case value of
                     Some v \<Rightarrow>
                       (case fs name v vals of Stored vals1 \<Rightarrow> parse_flags fs args vals1 | _ \<Rightarrow> FlagError)
                   | None \<Rightarrow>
                       (case args of
                          [] \<Rightarrow> FlagError
                        | v # args1 \<Rightarrow>
                            (case fs name v vals of Stored vals1 \<Rightarrow> parse_flags fs args1 vals1
                             | _ \<Rightarrow> FlagError))))"

text \<open>The flag sets of the commands; those of the others are empty.\<close>

record send_flags =
  sf_to :: string
  sf_amount :: string
  sf_fee :: u64
  sf_from :: string

definition sendCmd :: "send_flags flag_set" where
  "sendCmd name v f =
     (if name = ''to'' then Stored (f\<lparr>sf_to := v\<rparr>)
      else if name = ''amount'' then Stored (f\<lparr>sf_amount := v\<rparr>)
      else if name = ''fee''
      then (case ParseUint0 v of None \<Rightarrow> BadValue | Some n \<Rightarrow> Stored (f\<lparr>sf_fee := of_nat n\<rparr>))
      else if name = ''from'' then Stored (f\<lparr>sf_from := v\<rparr>)
      else NotDefined)"

definition nodeCmd :: "(string \<times> string) flag_set" where
  "nodeCmd name v f =
     (if name = ''port'' then Stored (v, snd f)
      else if name = ''connect'' then Stored (fst f, v) else NotDefined)"

definition mineCmd :: "(int \<times> string) flag_set" where
  "mineCmd name v f =
     (if name = ''blocks''
      then (case ParseInt0 v of None \<Rightarrow> BadValue | Some n \<Rightarrow> Stored (n, snd f))
      else if name = ''address'' then Stored (fst f, v) else NotDefined)"

definition one_flag :: "string \<Rightarrow> string flag_set" where
  "one_flag n name v f = (if name = n then Stored v else NotDefined)"

definition no_flags :: "unit flag_set" where
  "no_flags name v f = NotDefined"

section \<open>The dispatch\<close>

datatype action =
    ExitStatus nat
  | Usage
  | Create string
  | Balance
  | Supply
  | Send string u64 u64 string
  | RunNode string string
  | Explorer
  | Mine int string
  | AddNode string "string option"
  | PeersList
  | Fees
  | Uptime
  | NetTotals
  | BlockSize
  | BlockHashAt string
  | BlockAt string
  | Forward string "string list"

definition after_flags :: "'v parsed \<Rightarrow> ('v \<Rightarrow> action) \<Rightarrow> action" where
  "after_flags p f = (case p of Flags v \<Rightarrow> f v | HelpWanted \<Rightarrow> ExitStatus 0 | FlagError \<Rightarrow> ExitStatus 2)"

text \<open>The amount in the smallest unit: zero when it is not a number.\<close>

definition send_units :: "(float64 \<Rightarrow> u64) \<Rightarrow> string \<Rightarrow> u64" where
  "send_units conv s =
     (case ParseFloat s of
        None \<Rightarrow> 0
      | Some val \<Rightarrow> uint64_of_float conv (fmul val (FNum 100000000)))"

text \<open>\<open>args\<close> is \<open>os.Args\<close> without the program.\<close>

definition xcosh_main :: "(float64 \<Rightarrow> u64) \<Rightarrow> string list \<Rightarrow> action" where
  "xcosh_main conv args =
     (case args of
        [] \<Rightarrow> Usage
      | cmd # rest \<Rightarrow>
          let bare = (\<lambda>a. after_flags (parse_flags no_flags rest ()) (\<lambda>_. a)) in
          if cmd = ''create'' then
            after_flags (parse_flags (one_flag ''label'') rest ''Default Account'') Create
          else if cmd = ''balance'' then bare Balance
          else if cmd = ''supply'' then bare Supply
          else if cmd = ''send'' then
            after_flags (parse_flags sendCmd rest
                \<lparr>sf_to = [], sf_amount = ''0'', sf_fee = 2, sf_from = []\<rparr>)
              (\<lambda>f. Send (sf_to f) (send_units conv (sf_amount f)) (sf_fee f) (sf_from f))
          else if cmd = ''node'' then
            after_flags (parse_flags nodeCmd rest ('':19333'', [])) (\<lambda>f. RunNode (fst f) (snd f))
          else if cmd = ''explorer'' then bare Explorer
          else if cmd = ''mine'' then
            after_flags (parse_flags mineCmd rest (1, [])) (\<lambda>f. Mine (fst f) (snd f))
          else if cmd = ''mining'' then
            (case rest of
               [] \<Rightarrow> ExitStatus 1
             | target # others \<Rightarrow> after_flags (parse_flags no_flags others ()) (\<lambda>_. Mine 1 target))
          else if cmd = ''addnode'' then
            (case rest of
               [] \<Rightarrow> ExitStatus 1
             | arg # _ \<Rightarrow> after_flags (parse_flags (one_flag ''to'') rest []) (\<lambda>t. AddNode t (Some arg)))
          else if cmd = ''peers'' then bare PeersList
          else if cmd = ''fees'' then bare Fees
          else if cmd = ''uptime'' then bare Uptime
          else if cmd = ''getnettotals'' then bare NetTotals
          else if cmd = ''blocksize'' then bare BlockSize
          else if cmd = ''getblockhash'' then
            (case rest of [] \<Rightarrow> ExitStatus 1 | arg # _ \<Rightarrow> bare (BlockHashAt arg))
          else if cmd = ''getblock'' then
            (case rest of [] \<Rightarrow> ExitStatus 1 | arg # _ \<Rightarrow> bare (BlockAt arg))
          else Forward cmd rest)"

section \<open>What the commands get\<close>

text \<open>\<open>send\<close> takes its recipient from \<open>-to\<close> and its sender from \<open>-from\<close>, whatever the values look
  like; the usage text shows them the other way round.\<close>

lemma send_arguments:
  "xcosh_main conv [''send'', ''-to'', r, ''-amount'', a, ''-fee'', FormatUint fee 10, ''-from'', s] =
     Send r (send_units conv a) fee s"
  using ParseUint0_decimal [of "unat fee"] unsigned_less [where w = fee and 'a = nat]
  by (simp add: xcosh_main_def after_flags_def flag_text_def HasPrefix_def split_flag_def known_flag_def
      sendCmd_def FormatUint_def split: option.split)

text \<open>An amount that is no number is sent as zero, which \<open>HandleSendTx\<close> refuses.\<close>

lemma send_units_syntax: "ParseFloat a = None \<Longrightarrow> send_units conv a = 0"
  by (simp add: send_units_def)

lemma mine_arguments:
  "n < 2 ^ 63 \<Longrightarrow>
   xcosh_main conv [''mine'', ''-blocks'', format_nat 10 n, ''-address'', a] = Mine (int n) a"
  by (simp add: xcosh_main_def after_flags_def flag_text_def HasPrefix_def split_flag_def known_flag_def
      mineCmd_def ParseInt0_decimal split: option.split)

text \<open>A forwarded command sends its arguments as strings, so \<open>generate\<close> mines one block whatever
  number it is given.\<close>

lemma forwarded_generate:
  "xcosh_main conv (''generate'' # args) = Forward ''generate'' args"
  "rpc_generate R (map PString args) nd = rpc_generate R (PNumber 1 # map PString (tl args)) nd"
proof -
  show "xcosh_main conv (''generate'' # args) = Forward ''generate'' args"
    by (simp add: xcosh_main_def)
  consider "args = []" | a where "args = [a]" | a b r where "args = a # b # r"
    by (metis list.exhaust)
  then show "rpc_generate R (map PString args) nd = rpc_generate R (PNumber 1 # map PString (tl args)) nd"
    by cases (simp_all add: rpc_generate_def generate_count_def Let_def)
qed

end
