(* ===== verification/Amount_Props.thy ===== *)
theory Amount_Props
  imports Entry
begin

text \<open>
  Amounts between coins and units: what the conversions of \<open>node/params.go\<close> and the command line lose,
  and where they lose it.
\<close>

text \<open>Converting an amount to coins and back loses at most one unit, for every amount below
  \<open>2 ^ 52\<close> units, and gives no unit too many.\<close>

theorem conversion_loses_a_unit_at_most:
  assumes "unat n < 2 ^ 52"
  shows "unat (ToUnits conv (ToDecimal n)) \<in> {unat n, unat n - 1}"
  using ToUnits_ToDecimal [OF assms] by simp

theorem conversion_loses_a_unit_at_most_witness:
  "unat (ToUnits (\<lambda>_. 0) (ToDecimal 29000000)) \<in> {29000000, 28999999}"
  using conversion_loses_a_unit_at_most [of 29000000] by simp

text \<open>C30. Sending an amount given with eight decimals sends that amount or one unit less, below
  \<open>2 ^ 52\<close> units, whatever the machine does out of range.\<close>

theorem send_amount_near:
  assumes "n < 2 ^ 52"
  shows "\<exists>amount. xcosh_main conv [''send'', ''-to'', r, ''-amount'', coin_text n, ''-fee'', FormatUint fee 10, ''-from'', s]
      = Send r amount fee s \<and> unat amount \<in> {n, n - 1}"
proof (cases "n = 0")
  case True
  then have "ParseFloat (coin_text n) = Some (FNum 0)" using ParseFloat_coin_text [of 0 0] by simp
  then have "send_units conv (coin_text n) = 0" by (simp add: send_units_def uint64_of_float_def)
  with True show ?thesis by (simp add: send_arguments)
next
  case False
  then have n: "0 < n" by simp
  from scaled_back [OF n assms] obtain v z where
    v: "to_float (of_nat n / 100000000) = FNum v" "to_float (v * 100000000) = FNum z"
    and z: "of_nat n - 1 < z" "z < of_nat n + 1" by blast
  have "send_units conv (coin_text n) = uint64_of_float conv (FNum z)"
    using ParseFloat_coin_text [OF v(1)] v(2) by (simp add: send_units_def)
  with uint64_of_near [OF z n assms, of conv] show ?thesis by (simp add: send_arguments)
qed

theorem send_amount_near_witness:
  "\<exists>amount. xcosh_main (\<lambda>_. 0) [''send'', ''-to'', ''xcosh1bob'', ''-amount'', coin_text 150000000, ''-fee'',
      FormatUint 2 10, ''-from'', ''xcosh1alice''] = Send ''xcosh1bob'' amount 2 ''xcosh1alice'' \<and>
    unat amount \<in> {150000000, 149999999}"
  using send_amount_near [of 150000000 "\<lambda>_. 0" "''xcosh1bob''" 2 "''xcosh1alice''"] by simp

section \<open>A unit lost\<close>

lemma point_29_back: "to_float (5224175567749775 / 2 ^ 54 * 100000000) = FNum (7784628223999999 / 2 ^ 28)"
  using to_float_eval [of 24 "5224175567749775 / 2 ^ 54 * 100000000" 7784628223999999]
  by (simp add: power_int_minus power_int_numeral abs_if)

lemma uint64_of_28999999: "uint64_of_float conv (FNum (7784628223999999 / 2 ^ 28)) = 28999999"
proof -
  have "\<lfloor>7784628223999999 / 2 ^ 28 :: rat\<rfloor> = 28999999" by (rule floor_unique) simp_all
  then show ?thesis by (simp add: uint64_of_float_def)
qed

text \<open>The loss is real: twenty-nine hundredths of a coin on the command line are sent as 28999999
  units, and the same amount converted to coins and back is a unit short.\<close>

theorem send_loses_a_unit:
  "xcosh_main conv [''send'', ''-to'', r, ''-amount'', ''0.29'', ''-fee'', FormatUint fee 10, ''-from'', s]
     = Send r 28999999 fee s \<and>
   ToUnits conv (ToDecimal 29000000) = 28999999"
proof
  have "special_float ''0.29'' = None" "HasPrefix ''0.29'' ''-'' = False" "HasPrefix ''0.29'' ''+'' = False"
      "to_lower (''0.29'' ! 1) = CHR ''.''" "scan_digits 10 ''0.29'' 0 0 False False = (29, 2, True, [])"
      "CHR ''_'' \<notin> set ''0.29''"
    by code_simp+
  then have "ParseFloat ''0.29'' = Some (FNum (5224175567749775 / 2 ^ 54))"
    using point_29 by (simp add: ParseFloat_def read_exponent_def Let_def power_int_minus power_int_numeral)
  then have "send_units conv ''0.29'' = 28999999"
    using point_29_back uint64_of_28999999 [of conv] by (simp add: send_units_def)
  then show "xcosh_main conv [''send'', ''-to'', r, ''-amount'', ''0.29'', ''-fee'', FormatUint fee 10, ''-from'', s]
     = Send r 28999999 fee s"
    by (simp add: send_arguments)
  show "ToUnits conv (ToDecimal 29000000) = 28999999"
    using float64_of_uint64_exact [of 29000000] point_29 point_29_back uint64_of_28999999 [of conv]
    by (simp add: ToUnits_def ToDecimal_def)
qed

text \<open>A negative amount is out of range, so what is sent is the machine's choice.\<close>

lemma negative_amount: "send_units conv ''-1'' = conv (FNum (- 100000000))"
proof -
  have scan: "scan_digits 10 ''1'' 0 0 False False = (1, 0, True, [])" and special: "special_float ''-1'' = None"
    by code_simp+
  have one: "to_float 1 = FNum 1" "to_float 100000000 = FNum 100000000"
    using to_float_nat [of 1] to_float_nat [of 100000000] by simp_all
  then have "to_float (- 1) = FNum (- 1)" "to_float (- 100000000) = FNum (- 100000000)"
    by (auto simp: to_float_def Let_def split: if_splits)
  then have "ParseFloat ''-1'' = Some (FNum (- 1))"
    using scan special by (simp add: ParseFloat_def read_exponent_def HasPrefix_def Let_def)
  then show ?thesis
    using \<open>to_float (- 100000000) = FNum (- 100000000)\<close> by (simp add: send_units_def uint64_of_float_def)
qed

end
