(* ===== verification/Reports.thy ===== *)
theory Reports
  imports Database Decoders Params Node_Status Mempool_File Samples
begin

text \<open>
  The reports: the block explorer of \<open>core/explorer.go\<close>, the size of the database directory
  (\<open>internal/blocksize.go\<close>, \<open>internal/cli/blocksize.go\<close>) and the network totals of \<open>internal/nettotals.go\<close> as
  text. The result is what would be printed or sent.
\<close>

section \<open>The block explorer\<close>

record BlockRecord =
  br_Index :: i64
  br_Timestamp :: i64
  br_PrevHash :: string
  br_Hash :: string
  br_Validator :: string
  br_Transactions :: "Transfer list"
  br_Difficulty :: u32
  br_Nonce :: u64
  br_Reward :: u64

text \<open>The record is decoded by tags that match those of a block: hashes are then read as base64 texts, and
  the miner as the validator. A height of 2^63 or more does not fit.\<close>

definition into_transactions :: "Transfer list decoder" where
  "into_transactions v txs = apfst elems (into_slice into_transfer zero_Transfer v (Some txs))"

definition BlockRecord_fields :: "BlockRecord fields" where
  "BlockRecord_fields =
     [(''index'', into_field br_Index br_Index_update into_int64),
      (''timestamp'', into_field br_Timestamp br_Timestamp_update into_int64),
      (''prev_hash'', into_field br_PrevHash br_PrevHash_update into_string),
      (''hash'', into_field br_Hash br_Hash_update into_string),
      (''miner'', into_field br_Validator br_Validator_update into_string),
      (''transfers'', into_field br_Transactions br_Transactions_update into_transactions),
      (''difficulty'', into_field br_Difficulty br_Difficulty_update into_uint),
      (''nonce'', into_field br_Nonce br_Nonce_update into_uint),
      (''reward'', into_field br_Reward br_Reward_update into_uint)]"

definition zero_BlockRecord :: BlockRecord where
  "zero_BlockRecord = \<lparr>br_Index = 0, br_Timestamp = 0, br_PrevHash = [], br_Hash = [],
     br_Validator = [], br_Transactions = [], br_Difficulty = 0, br_Nonce = 0, br_Reward = 0\<rparr>"

definition UnmarshalRecord :: "bytes \<Rightarrow> BlockRecord option" where
  "UnmarshalRecord data = decoded (Unmarshal (into_struct BlockRecord_fields) data zero_BlockRecord)"

text \<open>A line for a record that does not decode, or a block with its transfers: the identifier and
  the recipient cut to eight and sixteen characters, and the value.\<close>

datatype explorer_entry =
    RawEntry bytes nat
  | BlockEntry BlockRecord float64 "(string \<times> string \<times> float64) list"

definition explorer_tx :: "('pub, 'priv) crypto_lib \<Rightarrow> Transfer \<Rightarrow> string \<times> string \<times> float64" where
  "explorer_tx L tx =
     (let txID = ComputeID L tx; recipient = tx_Recipient tx
      in (if length txID > 8 then take 8 txID else txID,
          if length recipient > 16 then take 16 recipient else recipient,
          fdiv (float64_of_uint64 (tx_Value tx)) (float64_of_uint64 CoinUnit)))"

text \<open>\<open>entries\<close> is what the iterator delivers; the second component is the count of decoded blocks,
  which decides about the final line.\<close>

fun InspectBlockchain ::
  "('pub, 'priv) crypto_lib \<Rightarrow> (bytes \<times> bytes) list \<Rightarrow> explorer_entry list \<times> nat" where
  "InspectBlockchain L [] = ([], 0)"
| "InspectBlockchain L ((key, value) # entries) =
     (let (shown, count) = InspectBlockchain L entries in
      if length key \<ge> 6 \<and> take 6 key = ''block_'' then
        (case UnmarshalRecord value of
           None \<Rightarrow> (RawEntry key (length value) # shown, count)
         | Some block \<Rightarrow>
             (BlockEntry block (fdiv (float64_of_uint64 (br_Reward block)) (float64_of_uint64 CoinUnit))
                (map (explorer_tx L) (br_Transactions block)) # shown, count + 1))
      else (shown, count))"

text \<open>\<open>open\<close> is what the iterator delivers from the database in a directory, if it opens.\<close>

definition HandleExploreBlockchain ::
  "('pub, 'priv) crypto_lib \<Rightarrow> (path \<Rightarrow> (bytes \<times> bytes) list option) \<Rightarrow> path option
     \<Rightarrow> (explorer_entry list \<times> nat) option" where
  "HandleExploreBlockchain L openFile home = map_option (InspectBlockchain L) (openFile (GetDataDir home))"

section \<open>The network totals\<close>

definition bool_text :: "bool \<Rightarrow> string" where
  "bool_text b = (if b then ''true'' else ''false'')"

definition target_fields :: "UploadTarget \<Rightarrow> (string \<times> string) list" where
  "target_fields t =
     [(''timeframe'', json_int64 (up_Timeframe t)), (''target'', json_int64 (up_Target t)),
      (''target_reached'', bool_text (up_TargetReached t)),
      (''serve_historical_blocks'', bool_text (up_ServeHistoricalBlocks t)),
      (''bytes_left_in_cycle'', json_int64 (up_BytesLeftInCycle t)),
      (''time_left_in_cycle'', json_int64 (up_TimeLeftInCycle t))]"

definition total_fields :: "NetTotalsResponse \<Rightarrow> (string \<times> string) list" where
  "total_fields r =
     [(''totalbytesrecv'', json_int64 (nt_TotalBytesRecv r)),
      (''totalbytessent'', json_int64 (nt_TotalBytesSent r)),
      (''timemillis'', json_int64 (nt_TimeMillis r))]"

text \<open>The command prints them, the route answers with them; the keys of a map come sorted.\<close>

definition HandleGetNetTotals :: "i64 \<Rightarrow> traffic \<Rightarrow> bytes" where
  "HandleGetNetTotals nowMillis t =
     (let totals = GetNetTotals nowMillis t; leaves = map (apsnd JLeaf) in
      MarshalIndent ''    '' (JObj (leaves (total_fields totals)
        @ [(''uploadtarget'', JObj (leaves (target_fields (nt_UploadTarget totals))))])))"

definition getnettotals_reply :: "i64 \<Rightarrow> traffic \<Rightarrow> bytes" where
  "getnettotals_reply nowMillis t =
     (let totals = GetNetTotals nowMillis t in
      json_object
        [(''error'', ''null''), (''id'', int_text 1),
         (''result'', json_object (total_fields totals
            @ [(''uploadtarget'', json_object (target_fields (nt_UploadTarget totals)))]))]
      @ [CHR 0x0A])"

section \<open>The size of the database\<close>

text \<open>A file tree as \<open>filepath.Walk\<close> meets it: what cannot be read is passed over.\<close>

datatype file_tree =
    File i64
  | Directory "file_tree list"
  | Unreadable

primrec walk_size :: "file_tree \<Rightarrow> i64 \<Rightarrow> i64" where
  "walk_size (File n) acc = acc + n"
| "walk_size (Directory files) acc = fold (\<lambda>f t. f t) (map walk_size files) acc"
| "walk_size Unreadable acc = acc"

text \<open>The walk never returns an error, as its callback never does.\<close>

definition GetBlockChainStorageSize :: "file_tree \<Rightarrow> i64" where
  "GetBlockChainStorageSize files = walk_size files 0"

text \<open>The bytes and the megabytes; \<open>None\<close> when there is no home directory.\<close>

definition HandleCheckBlockSize :: "('p \<Rightarrow> file_tree) \<Rightarrow> 'p option \<Rightarrow> (i64 \<times> float64) option" where
  "HandleCheckBlockSize tree dir =
     map_option (\<lambda>p. let sizeBytes = GetBlockChainStorageSize (tree p)
                     in (sizeBytes, fdiv (to_float (of_int (sint sizeBytes))) (FNum 1048576))) dir"

text \<open>The total is the sum of all file sizes, in 64-bit arithmetic.\<close>

primrec file_sizes :: "file_tree \<Rightarrow> i64 list" where
  "file_sizes (File n) = [n]"
| "file_sizes (Directory files) = concat (map file_sizes files)"
| "file_sizes Unreadable = []"

lemma walk_size_sum: "walk_size t acc = acc + sum_list (file_sizes t)"
proof (induction t arbitrary: acc)
  case (Directory files)
  then show ?case
    by (induction files arbitrary: acc) (simp_all add: add.assoc)
qed simp_all

lemma storage_size_sum: "GetBlockChainStorageSize files = sum_list (file_sizes files)"
  by (simp add: GetBlockChainStorageSize_def walk_size_sum)

section \<open>The blocks of a node in the explorer\<close>

lemma block_prefix: "HasPrefix k ''block_'' \<longleftrightarrow> 6 \<le> length k \<and> take 6 k = ''block_''"
proof -
  have l: "length ''block_'' = 6" by simp
  have "6 \<le> length k" if "take 6 k = ''block_''"
    using arg_cong [OF that, of length] unfolding l by simp
  then show ?thesis unfolding HasPrefix_def l by blast
qed

text \<open>A block as the explorer shows it.\<close>

definition hash_text :: "char slice \<Rightarrow> string" where
  "hash_text h = (case h of None \<Rightarrow> [] | Some bs \<Rightarrow> base64_encode bs)"

definition record_of :: "LedgerBlock \<Rightarrow> BlockRecord" where
  "record_of b = \<lparr>br_Index = blk_Index b, br_Timestamp = blk_Timestamp b,
     br_PrevHash = hash_text (blk_PrevHash b), br_Hash = hash_text (blk_Hash b),
     br_Validator = blk_Miner b, br_Transactions = elems (blk_Transfers b),
     br_Difficulty = blk_Difficulty b, br_Nonce = blk_Nonce b, br_Reward = blk_Reward b\<rparr>"

definition shown_block :: "('pub, 'priv) crypto_lib \<Rightarrow> LedgerBlock \<Rightarrow> explorer_entry" where
  "shown_block L b =
     (if unat (blk_Index b) < 2 ^ 63
      then BlockEntry (record_of b)
             (fdiv (float64_of_uint64 (blk_Reward b)) (float64_of_uint64 CoinUnit))
             (map (explorer_tx L) (elems (blk_Transfers b)))
      else RawEntry (block_key (blk_Index b)) (length (MarshalBlock b)))"

lemma into_hash: "into_string (bytes_json h) [] = (hash_text h, True)"
  by (cases h) (simp_all add: bytes_json_def hash_text_def into_string_def)

lemma into_index:
  "into_int64 (JNumber (format_nat 10 (unat x))) y = (if unat x < 2 ^ 63 then (x, True) else (y, False))"
proof -
  have "CHR ''-'' \<notin> set (format_nat 10 n)" for n by (rule format_nat_no_minus) simp_all
  then have "number_int (format_nat 10 (unat x)) = Some (int (unat x))"
    using parse_format [of 10 "unat x"] format_nat_nonempty [of 10 "unat x"]
    by (cases "format_nat 10 (unat x)") (auto simp: number_int_def HasPrefix_def, metis list.set_intros(1))
  moreover have "- (2 ^ 63) \<le> uint x" by (rule order_trans [OF _ uint_ge_0]) simp
  moreover have "uint x < 2 ^ 63 \<longleftrightarrow> unat x < 2 ^ 63"
    using of_nat_less_iff [of "unat x" "2 ^ 63", where 'a = int] by simp
  ultimately show ?thesis by (simp add: into_int64_def)
qed

lemma into_transactions_value:
  "into_transactions (case ts of None \<Rightarrow> JNull | Some us \<Rightarrow> JArray (map transfer_value us)) x
     = (map stored_transfer (elems ts), True)"
proof (cases ts)
  case (Some us)
  have "list_all2 (\<lambda>v y. \<forall>q. into_transfer v q = (y, True)) (map transfer_value us) (map stored_transfer us)"
    unfolding list.rel_map by (rule list.rel_refl) (simp add: into_transfer_value)
  then show ?thesis by (simp add: Some into_transactions_def into_slice_ok)
qed (simp add: into_transactions_def into_slice_def)

lemma unknown_fields:
  "find_field BlockRecord_fields ''bits'' = None" "find_field BlockRecord_fields ''max_supply'' = None"
  "find_field BlockRecord_fields ''halving_interval'' = None" "find_field BlockRecord_fields ''message'' = None"
  by (simp_all add: find_field_def BlockRecord_fields_def to_lower_def)

lemma known_fields:
  "map_of BlockRecord_fields ''index'' = Some (into_field br_Index br_Index_update into_int64)"
  "map_of BlockRecord_fields ''timestamp'' = Some (into_field br_Timestamp br_Timestamp_update into_int64)"
  "map_of BlockRecord_fields ''prev_hash'' = Some (into_field br_PrevHash br_PrevHash_update into_string)"
  "map_of BlockRecord_fields ''hash'' = Some (into_field br_Hash br_Hash_update into_string)"
  "map_of BlockRecord_fields ''miner'' = Some (into_field br_Validator br_Validator_update into_string)"
  "map_of BlockRecord_fields ''transfers''
     = Some (into_field br_Transactions br_Transactions_update into_transactions)"
  "map_of BlockRecord_fields ''difficulty'' = Some (into_field br_Difficulty br_Difficulty_update into_uint)"
  "map_of BlockRecord_fields ''nonce'' = Some (into_field br_Nonce br_Nonce_update into_uint)"
  "map_of BlockRecord_fields ''reward'' = Some (into_field br_Reward br_Reward_update into_uint)"
  by (simp_all add: BlockRecord_fields_def)

lemma elems_map: "elems (map_option (map f) ts) = map f (elems ts)"
  by (cases ts) simp_all

lemma UnmarshalRecord_Marshal:
  "UnmarshalRecord (MarshalBlock b) =
     (if unat (blk_Index b) < 2 ^ 63 then Some (record_of (stored_block b)) else None)"
  by (simp add: UnmarshalRecord_def Unmarshal_reads [OF reads_block] maxNestingDepth_def
      into_struct_def block_value_def zero_BlockRecord_def unknown_fields known_fields [THEN find_field_exact]
      into_field_def into_hash into_index into_transactions_value record_of_def stored_block_def elems_map
      decoded_def)

lemma InspectBlockchain_filter:
  "InspectBlockchain L (filter (\<lambda>(k, v). HasPrefix k ''block_'') entries) = InspectBlockchain L entries"
  by (induction entries) (auto simp: block_prefix case_prod_unfold Let_def)

lemma inspect_blocks:
  "InspectBlockchain L (map (\<lambda>b. (block_key (blk_Index b), MarshalBlock b)) bs)
     = (map (\<lambda>b. if unat (blk_Index b) < 2 ^ 63 then shown_block L (stored_block b) else shown_block L b) bs,
        length (filter (\<lambda>b. unat (blk_Index b) < 2 ^ 63) bs))"
proof (induction bs)
  case (Cons b bs)
  have "6 \<le> length (block_key i) \<and> take 6 (block_key i) = ''block_''" for i
    by (simp add: block_key_def)
  with Cons show ?case
    by (simp add: UnmarshalRecord_Marshal shown_block_def stored_block_def record_of_def)
qed simp

text \<open>C10. The explorer shows the blocks of a store one by one, in the order of the store, with their own
  fields (the hashes as base64 texts), and no other record; it counts the blocks below height
  2^63, and a block above is a line of raw data.\<close>

theorem explorer_shows_blocks:
  assumes "filter (\<lambda>(k, v). HasPrefix k ''block_'') entries
      = map (\<lambda>b. (block_key (blk_Index b), MarshalBlock b)) bs"
    and "\<forall>b \<in> set bs. valid_texts b"
  shows "InspectBlockchain L entries =
    (map (shown_block L) bs, length (filter (\<lambda>b. unat (blk_Index b) < 2 ^ 63) bs))"
proof -
  have shown: "map (\<lambda>b. if unat (blk_Index b) < 2 ^ 63 then shown_block L (stored_block b) else shown_block L b) bs
      = map (shown_block L) bs"
    using assms(2) by (simp add: stored_block_same)
  from InspectBlockchain_filter [of L entries] show ?thesis
    unfolding assms(1) inspect_blocks shown by (rule sym)
qed

theorem explorer_shows_blocks_witness:
  "InspectBlockchain sample_lib [(block_key 0, MarshalBlock zero_block), (''last_index'', ''0'')]
     = ([shown_block sample_lib zero_block], 1)"
proof -
  have "valid_texts zero_block" by (simp add: valid_texts_def zero_block_def valid_utf8_def)
  moreover have "HasPrefix (block_key 0) ''block_''" "\<not> HasPrefix ''last_index'' ''block_''"
    by (simp_all add: block_key_def HasPrefix_def)
  ultimately show ?thesis
    by (subst explorer_shows_blocks [of _ "[zero_block]"]) (simp_all add: zero_block_def)
qed

end
