(* ===== verification/P2P_Messages.thy ===== *)
theory P2P_Messages
  imports P2P_Network Decoders Go_Stream
begin

text \<open>
  The messages of \<open>internal/p2p/network.go\<close>: what \<open>handleConnection\<close> makes of the bytes of a connection,
  which ends of a connection run it, and that it gets what \<open>Broadcast\<close> sends.
\<close>

section \<open>Receiving\<close>











section \<open>Sending\<close>






section \<open>What arrives\<close>














end
