(* ===== verification/P2P_Stubs.thy ===== *)
theory P2P_Stubs
  imports Bootstrap Peer_Feed
begin

text \<open>
  The stubs of \<open>internal/p2p/types.go\<close>, which stand in the package beside the files that need the real
  thing: what each returns, and what the server of \<open>p2p.go\<close> can do when it is built on them. An
  empty struct has one value, so every node is \<open>stub_node\<close>; a nil interface is \<open>None\<close>, and a call on
  it panics. A method that does nothing is the identity on what it might have changed.
\<close>

section \<open>Nodes\<close>

definition zero_id :: node_id where
  "zero_id = replicate 32 (CHR 0x00)"


definition stub_URLv4 :: "Node \<Rightarrow> string" where "stub_URLv4 n = []"
definition stub_IPAddr :: "Node \<Rightarrow> char slice" where "stub_IPAddr n = Some []"
definition stub_UDP :: "Node \<Rightarrow> int" where "stub_UDP n = 0"
definition stub_TCP :: "Node \<Rightarrow> int" where "stub_TCP n = 0"
definition stub_Node_String :: "Node \<Rightarrow> string" where "stub_Node_String n = []"
definition stub_NodeID_String :: "node_id \<Rightarrow> string" where "stub_NodeID_String i = []"

definition Protocol_cap :: "Protocol \<Rightarrow> Cap" where
  "Protocol_cap p = \<lparr>cap_Name = [], cap_Version = 0\<rparr>"

text \<open>The local node and its database.\<close>

definition stub_OpenNodeDB :: "string \<Rightarrow> unit option" where "stub_OpenNodeDB dir = Some ()"

section \<open>Addresses, keys and connections\<close>

definition stub_ContainsAddr :: "string \<Rightarrow> bool" where "stub_ContainsAddr ip = True"
definition stub_AddrAddr :: "string \<Rightarrow> string option" where "stub_AddrAddr remote = None"
definition stub_AddrIsLAN :: "string \<Rightarrow> bool" where "stub_AddrIsLAN ip = False"
definition stub_newMeteredConn :: "'fd \<Rightarrow> 'fd" where "stub_newMeteredConn fd = fd"
definition stub_RootLogger :: "'logger option" where "stub_RootLogger = None"
definition stub_SortCaps :: "Cap list \<Rightarrow> Cap list" where "stub_SortCaps caps = caps"

definition stub_countMatchingProtocols :: "Protocol list \<Rightarrow> Cap list \<Rightarrow> nat" where
  "stub_countMatchingProtocols protos caps = 1"


section \<open>The dial scheduler, peers and events\<close>

text \<open>The scheduler takes every call and does nothing.\<close>

definition stub_newDialScheduler :: "dialConfig \<Rightarrow> unit" where "stub_newDialScheduler cfg = ()"

definition stub_dialScheduler :: "dial_event \<Rightarrow> unit \<Rightarrow> unit" where "stub_dialScheduler ev s = s"

record stub_Peer =
  sp_rw :: conn

definition stub_newPeer :: "conn \<Rightarrow> Protocol list \<Rightarrow> stub_Peer" where "stub_newPeer c protos = \<lparr>sp_rw = c\<rparr>"
definition stub_Peer_ID :: "stub_Peer \<Rightarrow> node_id" where "stub_Peer_ID p = zero_id"
definition stub_RemoteAddr :: "stub_Peer \<Rightarrow> string option" where "stub_RemoteAddr p = None"
definition stub_LocalAddr :: "stub_Peer \<Rightarrow> string option" where "stub_LocalAddr p = None"
definition stub_Inbound :: "stub_Peer \<Rightarrow> bool" where "stub_Inbound p = False"
definition stub_Disconnect :: "DiscReason \<Rightarrow> stub_Peer \<Rightarrow> stub_Peer" where "stub_Disconnect reason p = p"

definition stub_Peer_run :: "stub_Peer \<Rightarrow> bool \<times> peer_error option" where
  "stub_Peer_run p = (False, None)"

text \<open>A feed has no subscriptions and shows nothing of what is sent.\<close>

definition stub_Subscribe :: "'ch \<Rightarrow> 'subscription option" where "stub_Subscribe ch = None"
definition stub_Send :: "PeerEvent list \<Rightarrow> PeerEvent list" where "stub_Send evs = []"

text \<open>Discovery that always starts.\<close>

definition stub_ListenV4 :: "'udp \<Rightarrow> unit option" where "stub_ListenV4 c = Some ()"
definition stub_ListenV5 :: "'udp \<Rightarrow> unit option" where "stub_ListenV5 c = Some ()"
definition stub_RandomNodes :: "Node list option" where "stub_RandomNodes = None"

section \<open>The server on the stubs\<close>

text \<open>The texts of the addresses in the first event of \<open>runPeer\<close> are calls on nil.\<close>

definition nil_call :: "'a option \<Rightarrow> 'a outcome" where
  "nil_call x = (case x of None \<Rightarrow> Panic ''invalid memory address or nil pointer dereference'' | Some y \<Rightarrow> Ret y)"

definition stub_runPeer :: "stub_Peer \<Rightarrow> PeerEvent outcome" where
  "stub_runPeer p =
     obind (nil_call (stub_RemoteAddr p)) (\<lambda>remote.
     obind (nil_call (stub_LocalAddr p)) (\<lambda>local.
       Ret \<lparr>ev_Type = PeerEventTypeAdd, ev_Peer = stub_Peer_ID p, ev_Error = [],
            ev_RemoteAddress = remote, ev_LocalAddress = local\<rparr>))"



lemma stub_runPeer_panics: "\<exists>e. stub_runPeer p = Panic e"
  by (simp add: stub_runPeer_def stub_RemoteAddr_def nil_call_def)

text \<open>No address is throttled or restricted: there is no valid one.\<close>

lemma stub_inbound_unchecked:
  "checkInboundConn H netRestrict isLAN now (stub_AddrAddr remote) h = (None, h)"
  by (simp add: checkInboundConn_def stub_AddrAddr_def)

text \<open>A wait for the drop of a peer has nothing to wait for.\<close>

lemma stub_feed_silent: "await_drop nid (stub_Send evs) = None"
  by (simp add: stub_Send_def)

lemma setupLocalNode_cap: "setupLocalNode protocols = map Protocol_cap protocols"
  by (simp add: setupLocalNode_def Protocol_cap_def)






end
