(* ===== verification/Peer_Threads.thy ===== *)
theory Peer_Threads
  imports Peer_Feed
begin

text \<open>
  The goroutines of a peer (\<open>internal/p2p/peer.go\<close>: \<open>run\<close> with \<open>readLoop\<close>, \<open>pingLoop\<close> and the protocols
  \<open>startProtocols\<close> starts), and the channels between them with their capacities: any interleaving of
  them. A protocol writes one message at a time and has the token of \<open>writeStart\<close> while it does; the
  reader and the ping loop are seen up to what they send to the main loop. What is sent or returned
  is left open. When its loop is over \<open>run\<close> closes the channel \<open>closed\<close>, then the connection, and waits.
\<close>

section \<open>The machine\<close>

datatype main_state =
    Selecting
  | Rearming
  | Over "bool \<times> peer_error \<times> DiscReason"
  | Returned "bool \<times> peer_error \<times> DiscReason"

text \<open>\<open>pt_seen\<close> are the events the main loop has received; \<open>pt_closed\<close> and \<open>pt_hung_up\<close> are whether the
  channel \<open>closed\<close> and the connection are closed.\<close>

record peer_threads =
  pt_token :: bool
  pt_writing :: "string set"
  pt_alive :: "string set"
  pt_ping :: bool
  pt_reader :: bool
  pt_writeErr :: "peer_error option list"
  pt_readErr :: "peer_error list"
  pt_protoErr :: "peer_error list"
  pt_main :: main_state
  pt_closed :: bool
  pt_hung_up :: bool
  pt_seen :: "peer_event list"

text \<open>\<open>run\<close> up to its loop: the two loops, the token, the protocols.\<close>

definition startProtocols :: "(string \<times> protoRW) list \<Rightarrow> peer_threads" where
  "startProtocols running =
     \<lparr>pt_token = True, pt_writing = {}, pt_alive = fst ` set running, pt_ping = True, pt_reader = True,
      pt_writeErr = [], pt_readErr = [], pt_protoErr = [], pt_main = Selecting,
      pt_closed = False, pt_hung_up = False, pt_seen = []\<rparr>"

text \<open>A received event ends the loop, or is the end of a write, after which the token is given back.\<close>

definition receives :: "(peer_error \<Rightarrow> DiscReason) \<Rightarrow> peer_event \<Rightarrow> peer_threads \<Rightarrow> peer_threads" where
  "receives disc ev s =
     s\<lparr>pt_seen := pt_seen s @ [ev],
       pt_main := (case Peer_run disc [ev] of None \<Rightarrow> Rearming | Some r \<Rightarrow> Over r)\<rparr>"

text \<open>\<open>n\<close> protocols run; \<open>protoErr\<close> has room for one more. A send waits while its channel is full. With
  \<open>free\<close> these are all steps; without it, only those that do not depend on what the connection brings,
  on what a protocol does of its own accord or on a call from outside: the main loop's own, and what
  closing the channel and the connection brings about. On a closed connection a read or a write
  fails at once. When the channel is closed, a protocol's reads and writes fail, and its \<open>Run\<close>, which
  is the code of the protocol, then returns.\<close>

inductive peer_step ::
  "bool \<Rightarrow> (peer_error \<Rightarrow> DiscReason) \<Rightarrow> nat \<Rightarrow> peer_threads \<Rightarrow> peer_threads \<Rightarrow> bool" for free disc n where
  write_starts: "free \<Longrightarrow> i \<in> pt_alive s \<Longrightarrow> i \<notin> pt_writing s \<Longrightarrow> pt_token s \<Longrightarrow>
     peer_step free disc n s (s\<lparr>pt_token := False, pt_writing := insert i (pt_writing s)\<rparr>)"
| write_ends: "free \<or> pt_hung_up s \<Longrightarrow> i \<in> pt_writing s \<Longrightarrow> length (pt_writeErr s) < 1 \<Longrightarrow>
     peer_step free disc n s (s\<lparr>pt_writing := pt_writing s - {i}, pt_writeErr := pt_writeErr s @ [err]\<rparr>)"
| protocol_ends: "free \<or> pt_closed s \<Longrightarrow> i \<in> pt_alive s \<Longrightarrow> i \<notin> pt_writing s \<Longrightarrow>
     length (pt_protoErr s) < n + 1 \<Longrightarrow>
     peer_step free disc n s
       (s\<lparr>pt_alive := pt_alive s - {i}, pt_protoErr := pt_protoErr s @ [protocol_result res]\<rparr>)"
| ping_fails: "free \<or> pt_hung_up s \<Longrightarrow> pt_ping s \<Longrightarrow> length (pt_protoErr s) < n + 1 \<Longrightarrow>
     peer_step free disc n s (s\<lparr>pt_ping := False, pt_protoErr := pt_protoErr s @ [perr]\<rparr>)"
| ping_stops: "free \<or> pt_hung_up s \<Longrightarrow> pt_ping s \<Longrightarrow> pt_closed s \<Longrightarrow>
     peer_step free disc n s (s\<lparr>pt_ping := False\<rparr>)"
| read_fails: "free \<or> pt_closed s \<and> pt_hung_up s \<Longrightarrow> pt_reader s \<Longrightarrow> length (pt_readErr s) < 1 \<Longrightarrow>
     peer_step free disc n s (s\<lparr>pt_reader := False, pt_readErr := pt_readErr s @ [rerr]\<rparr>)"
| write_seen: "pt_main s = Selecting \<Longrightarrow> pt_writeErr s = err # errs \<Longrightarrow>
     peer_step free disc n s (receives disc (WriteErr err) (s\<lparr>pt_writeErr := errs\<rparr>))"
| token_back: "pt_main s = Rearming \<Longrightarrow> \<not> pt_token s \<Longrightarrow>
     peer_step free disc n s (s\<lparr>pt_main := Selecting, pt_token := True\<rparr>)"
| read_seen: "pt_main s = Selecting \<Longrightarrow> pt_readErr s = rerr # rerrs \<Longrightarrow>
     peer_step free disc n s (receives disc (ReadErr rerr) (s\<lparr>pt_readErr := rerrs\<rparr>))"
| protocol_seen: "pt_main s = Selecting \<Longrightarrow> pt_protoErr s = perr # perrs \<Longrightarrow>
     peer_step free disc n s (receives disc (ProtoErr perr) (s\<lparr>pt_protoErr := perrs\<rparr>))"
| told_to_go: "free \<Longrightarrow> pt_main s = Selecting \<Longrightarrow>
     peer_step free disc n s (receives disc (DiscReq reason) s)"
| closes: "pt_main s = Over r \<Longrightarrow> \<not> pt_closed s \<Longrightarrow>
     peer_step free disc n s (s\<lparr>pt_closed := True\<rparr>)"
| hangs_up: "pt_main s = Over r \<Longrightarrow> pt_closed s \<Longrightarrow> \<not> pt_hung_up s \<Longrightarrow>
     peer_step free disc n s (s\<lparr>pt_hung_up := True\<rparr>)"
| returns: "pt_main s = Over r \<Longrightarrow> pt_closed s \<Longrightarrow> pt_hung_up s \<Longrightarrow>
     pt_alive s = {} \<Longrightarrow> \<not> pt_ping s \<Longrightarrow> \<not> pt_reader s \<Longrightarrow>
     peer_step free disc n s (s\<lparr>pt_main := Returned r\<rparr>)"

text \<open>\<open>Disconnect\<close> reaches the main loop, or finds the channel closed; else it waits (\<open>None\<close>).\<close>

definition Disconnect :: "(peer_error \<Rightarrow> DiscReason) \<Rightarrow> DiscReason \<Rightarrow> peer_threads \<Rightarrow> peer_threads option" where
  "Disconnect disc reason s =
     (case pt_main s of
        Over _ \<Rightarrow> if pt_closed s then Some s else None
      | Returned _ \<Rightarrow> Some s
      | Selecting \<Rightarrow> Some (receives disc (DiscReq reason) s)
      | Rearming \<Rightarrow> None)"

section \<open>The invariant\<close>

text \<open>The write token is in one place; every channel has room for what can still be sent to it; and the
  main loop has done with its events what \<open>Peer_run\<close> does.\<close>

fun main_result :: "main_state \<Rightarrow> (bool \<times> peer_error \<times> DiscReason) option" where
  "main_result (Over r) = Some r"
| "main_result (Returned r) = Some r"
| "main_result _ = None"

fun has_returned :: "main_state \<Rightarrow> bool" where
  "has_returned (Returned r) = True"
| "has_returned _ = False"

definition peer_ok :: "(peer_error \<Rightarrow> DiscReason) \<Rightarrow> nat \<Rightarrow> peer_threads \<Rightarrow> bool" where
  "peer_ok disc n s \<longleftrightarrow>
     finite (pt_alive s) \<and> pt_writing s \<subseteq> pt_alive s \<and>
     of_bool (pt_token s) + card (pt_writing s) + length (pt_writeErr s) + of_bool (pt_main s = Rearming) \<le> (1::nat) \<and>
     length (pt_protoErr s) + card (pt_alive s) + of_bool (pt_ping s) \<le> n + 1 \<and>
     length (pt_readErr s) + of_bool (pt_reader s) \<le> 1 \<and>
     Peer_run disc (pt_seen s) = main_result (pt_main s) \<and>
     (has_returned (pt_main s) \<longrightarrow> pt_alive s = {} \<and> \<not> pt_ping s \<and> \<not> pt_reader s)"

lemma peer_ok_init:
  assumes "distinct (map fst running)"
  shows "peer_ok disc (length running) (startProtocols running)"
proof -
  have "card (fst ` set running) = length running"
    using distinct_card [OF assms] by simp
  then show ?thesis by (simp add: peer_ok_def startProtocols_def)
qed

lemma Peer_run_snoc: "Peer_run disc evs = None \<Longrightarrow> Peer_run disc (evs @ [ev]) = Peer_run disc [ev]"
proof (induction evs)
  case (Cons e evs)
  then have e: "e = WriteErr None" "Peer_run disc evs = None"
    using Peer_run_ends [of disc "e # evs"] Peer_run_ends [of disc evs] by auto
  with Cons.IH show ?case by simp
qed simp

text \<open>Receiving keeps what it keeps of the channels: only the end of a write needs the token's place.\<close>

lemma receives_simps [simp]:
  "pt_token (receives disc ev s) = pt_token s" "pt_writing (receives disc ev s) = pt_writing s"
  "pt_alive (receives disc ev s) = pt_alive s" "pt_ping (receives disc ev s) = pt_ping s"
  "pt_reader (receives disc ev s) = pt_reader s" "pt_writeErr (receives disc ev s) = pt_writeErr s"
  "pt_readErr (receives disc ev s) = pt_readErr s" "pt_protoErr (receives disc ev s) = pt_protoErr s"
  "\<not> has_returned (pt_main (receives disc ev s))"
  by (simp_all add: receives_def split: option.split)

lemma receives_main:
  "pt_main (receives disc ev s) = (case Peer_run disc [ev] of None \<Rightarrow> Rearming | Some r \<Rightarrow> Over r)"
  by (simp add: receives_def)

lemma receives_seen:
  assumes "Peer_run disc (pt_seen s) = None"
  shows "Peer_run disc (pt_seen (receives disc ev s))
    = main_result (pt_main (receives disc ev s))"
  using Peer_run_snoc [OF assms, of ev] by (simp add: receives_def split: option.split)

lemma rearms_only_after_write: "Peer_run disc [ev] = None \<Longrightarrow> ev = WriteErr None"
  using Peer_run_ends [of disc "[ev]"] by simp

text \<open>What each kind of step needs of the counts.\<close>

lemma peer_okD:
  assumes "peer_ok disc n s"
  shows "finite (pt_alive s)" "finite (pt_writing s)" "pt_writing s \<subseteq> pt_alive s"
    "of_bool (pt_token s) + card (pt_writing s) + length (pt_writeErr s) + of_bool (pt_main s = Rearming) \<le> (1::nat)"
    "length (pt_protoErr s) + card (pt_alive s) + of_bool (pt_ping s) \<le> n + 1"
    "length (pt_readErr s) + of_bool (pt_reader s) \<le> 1"
    "Peer_run disc (pt_seen s) = main_result (pt_main s)"
    "has_returned (pt_main s) \<longrightarrow> pt_alive s = {} \<and> \<not> pt_ping s \<and> \<not> pt_reader s"
  using assms by (auto simp: peer_ok_def intro: finite_subset)

lemma receives_ok:
  assumes "Peer_run disc (pt_seen s) = None" and "finite (pt_alive s)" and "pt_writing s \<subseteq> pt_alive s"
    and "of_bool (pt_token s) + card (pt_writing s) + length (pt_writeErr s) + of_bool (ev = WriteErr None) \<le> (1::nat)"
    and "length (pt_protoErr s) + card (pt_alive s) + of_bool (pt_ping s) \<le> n + 1"
    and "length (pt_readErr s) + of_bool (pt_reader s) \<le> 1"
  shows "peer_ok disc n (receives disc ev s)"
proof -
  have "pt_main (receives disc ev s) = Rearming \<Longrightarrow> ev = WriteErr None"
    using rearms_only_after_write [of disc ev] by (auto simp: receives_main split: option.splits)
  then have "of_bool (pt_main (receives disc ev s) = Rearming) \<le> (of_bool (ev = WriteErr None) :: nat)" by simp
  with assms(4) have "of_bool (pt_token s) + card (pt_writing s) + length (pt_writeErr s)
      + of_bool (pt_main (receives disc ev s) = Rearming) \<le> (1::nat)" by linarith
  then show ?thesis
    unfolding peer_ok_def receives_simps using assms receives_seen [OF assms(1)] receives_simps(9) by blast
qed

lemma peer_step_ok:
  assumes "peer_step free disc n s t" and "peer_ok disc n s"
  shows "peer_ok disc n t"
  using assms(1)
proof cases
  case (write_starts i)
  with peer_okD [OF assms(2)] show ?thesis by (simp add: peer_ok_def)
next
  case (write_ends i err)
  have "card (pt_writing s) = Suc (card (pt_writing s - {i}))"
    by (rule card.remove [OF peer_okD(2) [OF assms(2)] write_ends(3)])
  with peer_okD [OF assms(2)] write_ends(1) show ?thesis by (auto simp: peer_ok_def)
next
  case (protocol_ends i res)
  have "card (pt_alive s) = Suc (card (pt_alive s - {i}))"
    by (rule card.remove [OF peer_okD(1) [OF assms(2)] protocol_ends(3)])
  with peer_okD [OF assms(2)] protocol_ends(1,4) show ?thesis by (auto simp: peer_ok_def)
next
  case (write_seen err errs)
  show ?thesis unfolding write_seen(1)
    by (rule receives_ok) (use peer_okD [OF assms(2)] write_seen(2,3) in simp_all)
next
  case (read_seen rerr rerrs)
  show ?thesis unfolding read_seen(1)
    by (rule receives_ok) (use peer_okD [OF assms(2)] read_seen(2,3) in simp_all)
next
  case (protocol_seen perr perrs)
  show ?thesis unfolding protocol_seen(1)
    by (rule receives_ok) (use peer_okD [OF assms(2)] protocol_seen(2,3) in simp_all)
next
  case (told_to_go reason)
  show ?thesis unfolding told_to_go(1)
    by (rule receives_ok) (use peer_okD [OF assms(2)] told_to_go(3) in simp_all)
next
  case (ping_fails perr)
  with peer_okD [OF assms(2)] show ?thesis by (simp add: peer_ok_def)
next
  case ping_stops
  with peer_okD [OF assms(2)] show ?thesis by (simp add: peer_ok_def)
next
  case (read_fails rerr)
  with peer_okD [OF assms(2)] show ?thesis by (simp add: peer_ok_def)
next
  case token_back
  with peer_okD [OF assms(2)] show ?thesis by (simp add: peer_ok_def)
next
  case (closes r)
  with peer_okD [OF assms(2)] show ?thesis by (simp add: peer_ok_def)
next
  case (hangs_up r)
  with peer_okD [OF assms(2)] show ?thesis by (simp add: peer_ok_def)
next
  case (returns r)
  with peer_okD [OF assms(2)] show ?thesis by (simp add: peer_ok_def)
qed

interpretation peer_run: machine "peer_step free disc n" "peer_ok disc n" for free disc n
  by unfold_locales (rule peer_step_ok)

section \<open>The end of a peer\<close>

text \<open>Nobody waits for room in a channel, and the main loop stands where \<open>Peer_run\<close> ends on what it has
  received.\<close>

lemma peer_channels_never_full:
  assumes "distinct (map fst running)"
    and "(peer_step free disc (length running))\<^sup>*\<^sup>* (startProtocols running) s"
  shows "(pt_writing s \<noteq> {} \<longrightarrow> pt_writeErr s = [] \<and> \<not> pt_token s) \<and>
    (pt_alive s \<noteq> {} \<or> pt_ping s \<longrightarrow> length (pt_protoErr s) < length running + 1) \<and>
    (pt_reader s \<longrightarrow> pt_readErr s = []) \<and> (pt_main s = Rearming \<longrightarrow> \<not> pt_token s) \<and>
    (pt_main s = Over r \<or> pt_main s = Returned r \<longleftrightarrow> Peer_run disc (pt_seen s) = Some r)"
proof -
  note ok = peer_okD [OF peer_run.run_keeps [OF assms(2) peer_ok_init [OF assms(1)]]]
  have "pt_writeErr s = [] \<and> \<not> pt_token s" if "pt_writing s \<noteq> {}"
  proof -
    have "card (pt_writing s) > 0" using that ok(2) by (simp add: card_gt_0_iff)
    then have "length (pt_writeErr s) = 0 \<and> of_bool (pt_token s) = (0 :: nat)" using ok(4) by linarith
    then show ?thesis by simp
  qed
  moreover have "length (pt_protoErr s) < length running + 1" if "pt_alive s \<noteq> {} \<or> pt_ping s"
  proof -
    have "card (pt_alive s) > 0 \<or> of_bool (pt_ping s) = (1 :: nat)" using that ok(1) by (auto simp: card_gt_0_iff)
    then show ?thesis using ok(5) by linarith
  qed
  moreover have "pt_reader s \<longrightarrow> pt_readErr s = []" using ok(6) by auto
  moreover have "pt_main s = Rearming \<longrightarrow> \<not> pt_token s" using ok(4) by auto
  moreover have "pt_main s = Over r \<or> pt_main s = Returned r \<longleftrightarrow> Peer_run disc (pt_seen s) = Some r"
    using ok(7) by (cases "pt_main s") auto
  ultimately show ?thesis by blast
qed

definition peer_left :: "peer_threads \<Rightarrow> nat" where
  "peer_left s = 3 * of_bool (pt_token s) + 2 * card (pt_writing s) + card (pt_alive s)
     + of_bool (pt_ping s) + of_bool (pt_reader s) + of_bool (\<not> pt_closed s) + of_bool (\<not> pt_hung_up s)
     + of_bool (\<not> has_returned (pt_main s))"

definition over :: "bool \<times> peer_error \<times> DiscReason \<Rightarrow> peer_threads \<Rightarrow> bool" where
  "over r s \<longleftrightarrow> pt_main s = Over r \<or> pt_main s = Returned r"

lemma over_step:
  assumes "peer_step free disc n s t" and "peer_ok disc n s" and "over r s"
  shows "over r t \<and> peer_left t < peer_left s"
proof -
  note ok = peer_okD [OF assms(2)]
  have over: "over r t" if "pt_main t = pt_main s" using that assms(3) by (simp add: over_def)
  from assms(1) show ?thesis
  proof cases
    case (write_starts i)
    have "card (insert i (pt_writing s)) = Suc (card (pt_writing s))"
      using ok(2) write_starts(4) by simp
    with write_starts(1,5) over show ?thesis by (simp add: peer_left_def)
  next
    case (write_ends i err)
    have "card (pt_writing s) = Suc (card (pt_writing s - {i}))"
      by (rule card.remove [OF ok(2) write_ends(3)])
    with write_ends(1) over show ?thesis by (simp add: peer_left_def)
  next
    case (protocol_ends i res)
    have "card (pt_alive s) = Suc (card (pt_alive s - {i}))"
      by (rule card.remove [OF ok(1) protocol_ends(3)])
    with protocol_ends(1) over show ?thesis by (simp add: peer_left_def)
  next
    case (ping_fails perr)
    with over show ?thesis by (simp add: peer_left_def)
  next
    case ping_stops
    with over show ?thesis by (simp add: peer_left_def)
  next
    case (read_fails rerr)
    with over show ?thesis by (simp add: peer_left_def)
  next
    case (closes r')
    with over show ?thesis by (simp add: peer_left_def)
  next
    case (hangs_up r')
    with over show ?thesis by (simp add: peer_left_def)
  next
    case (returns r')
    with assms(3) show ?thesis by (simp add: peer_left_def over_def)
  qed (use assms(3) in \<open>simp_all add: over_def\<close>)
qed

lemma over_run:
  assumes "(peer_step free disc n)\<^sup>*\<^sup>* s t" and "peer_ok disc n s" and "over r s"
  shows "peer_ok disc n t \<and> over r t"
  using assms(1)
proof (induction rule: rtranclp_induct)
  case (step t u)
  then show ?case using peer_step_ok over_step by blast
qed (use assms in simp)

text \<open>As long as \<open>run\<close> has not returned, it, or a goroutine it waits for, goes on by itself.\<close>

lemma over_progress:
  assumes "peer_ok disc n s" and "pt_main s = Over r"
  shows "\<exists>t. peer_step False disc n s t"
proof -
  note ok = peer_okD [OF assms(1)]
  consider "\<not> pt_closed s" | "pt_closed s" "\<not> pt_hung_up s" | i where "pt_hung_up s" "i \<in> pt_writing s"
    | i where "pt_closed s" "pt_hung_up s" "pt_writing s = {}" "i \<in> pt_alive s"
    | "pt_closed s" "pt_hung_up s" "pt_ping s" | "pt_closed s" "pt_hung_up s" "pt_reader s"
    | "pt_closed s" "pt_hung_up s" "pt_alive s = {}" "\<not> pt_ping s" "\<not> pt_reader s" by blast
  then show ?thesis
  proof cases
    case 1
    from peer_step.closes [OF assms(2) this] show ?thesis by blast
  next
    case 2
    from peer_step.hangs_up [OF assms(2) this] show ?thesis by blast
  next
    case (3 i)
    then have "card (pt_writing s) > 0" using ok(2) by (auto simp: card_gt_0_iff)
    then have "length (pt_writeErr s) < 1" using ok(4) by linarith
    from peer_step.write_ends [OF _ 3(2) this, of False] 3(1) show ?thesis by blast
  next
    case (4 i)
    then have "card (pt_alive s) > 0" using ok(1) by (auto simp: card_gt_0_iff)
    then have "length (pt_protoErr s) < n + 1" using ok(5) by linarith
    from peer_step.protocol_ends [OF _ 4(4) _ this, of False] 4 show ?thesis by blast
  next
    case 5
    from peer_step.ping_stops [of False, OF _ 5(3,1)] 5(2) show ?thesis by blast
  next
    case 6
    then have "length (pt_readErr s) < 1" using ok(6) by simp
    from peer_step.read_fails [OF _ 6(3) this, of False] 6 show ?thesis by blast
  next
    case 7
    from peer_step.returns [OF assms(2) 7] show ?thesis by blast
  qed
qed

text \<open>C32. A peer winds down: once its main loop is over, however its goroutines are interleaved only
  finitely many steps are left, whatever the connection and the protocols do; and whenever none is
  left of the steps that are taken whatever they do, the reader, the ping loop and all protocols have
  ended and \<open>run\<close> has returned, with what \<open>Peer_run\<close> makes of the events received. It rests on the
  closing of the channel and of the connection, after which a protocol's reads and writes fail, and
  on protocols that return then.\<close>

theorem peer_winds_down:
  assumes "distinct (map fst running)"
    and "(peer_step True disc (length running))\<^sup>*\<^sup>* (startProtocols running) s" and "pt_main s = Over r"
  shows "Peer_run disc (pt_seen s) = Some r \<and>
    \<not> (\<exists>f. f 0 = s \<and> (\<forall>k :: nat. peer_step True disc (length running) (f k) (f (Suc k)))) \<and>
    (\<forall>t. (peer_step True disc (length running))\<^sup>*\<^sup>* s t \<longrightarrow> \<not> (\<exists>u. peer_step False disc (length running) t u) \<longrightarrow>
       pt_main t = Returned r \<and> pt_alive t = {} \<and> \<not> pt_ping t \<and> \<not> pt_reader t)"
proof (intro conjI allI impI notI)
  let ?n = "length running"
  have ok: "peer_ok disc ?n s" by (rule peer_run.run_keeps [OF assms(2) peer_ok_init [OF assms(1)]])
  have over: "over r s" using assms(3) by (simp add: over_def)
  show "Peer_run disc (pt_seen s) = Some r" using peer_okD(7) [OF ok] assms(3) by simp
  show False if "\<exists>f. f 0 = s \<and> (\<forall>k :: nat. peer_step True disc ?n (f k) (f (Suc k)))"
  proof -
    from that obtain f where f: "f 0 = s" "\<And>k :: nat. peer_step True disc ?n (f k) (f (Suc k))" by blast
    have run: "(peer_step True disc ?n)\<^sup>*\<^sup>* s (f k)" for k
      by (induction k) (use f in \<open>auto intro: rtranclp.rtrancl_into_rtrancl\<close>)
    have "peer_left (f (Suc k)) < peer_left (f k)" for k
      using over_step [OF f(2)] over_run [OF run ok over] by blast
    then have "(f (Suc k), f k) \<in> measure peer_left" for k by simp
    with wf_measure [of peer_left] show False unfolding wf_iff_no_infinite_down_chain by blast
  qed
  fix t
  assume "(peer_step True disc ?n)\<^sup>*\<^sup>* s t" and stuck: "\<not> (\<exists>u. peer_step False disc ?n t u)"
  from over_run [OF this(1) ok over] have t: "peer_ok disc ?n t" "over r t" by simp_all
  then show ret: "pt_main t = Returned r" using over_progress [OF t(1), of r] t(2) stuck unfolding over_def by blast
  have "has_returned (pt_main t)" by (simp add: ret)
  from peer_okD(8) [OF t(1), THEN mp, OF this] show "pt_alive t = {}" and "pt_ping t \<Longrightarrow> False" and "pt_reader t \<Longrightarrow> False"
    by simp_all
qed

text \<open>A peer with one protocol that is told to go while the protocol has the token.\<close>

theorem peer_winds_down_witness:
  "\<exists>s. (peer_step True (\<lambda>_. DiscRequested) 1)\<^sup>*\<^sup>*
       (startProtocols [(''xcosh'', \<lparr>rw_proto = \<lparr>pr_Name = ''xcosh'', pr_Version = 1, pr_Length = 8\<rparr>, rw_offset = 16\<rparr>)]) s \<and>
     pt_writing s = {''xcosh''} \<and>
     \<not> (\<exists>f. f 0 = s \<and> (\<forall>k :: nat. peer_step True (\<lambda>_. DiscRequested) 1 (f k) (f (Suc k))))"
proof -
  let ?run = "[(''xcosh'', \<lparr>rw_proto = \<lparr>pr_Name = ''xcosh'', pr_Version = 1, pr_Length = 8\<rparr>, rw_offset = 16\<rparr>)]"
  let ?d = "\<lambda>_ :: peer_error. DiscRequested"
  let ?s = "startProtocols ?run"
  let ?t = "?s\<lparr>pt_token := False, pt_writing := insert ''xcosh'' (pt_writing ?s)\<rparr>"
  let ?u = "receives ?d (DiscReq DiscRequested) ?t"
  have "peer_step True ?d 1 ?s ?t" by (rule peer_step.write_starts) (simp_all add: startProtocols_def)
  moreover have "peer_step True ?d 1 ?t ?u" by (rule peer_step.told_to_go) (simp_all add: startProtocols_def)
  ultimately have run: "(peer_step True ?d 1)\<^sup>*\<^sup>* ?s ?u" by simp
  moreover have "pt_main ?u = Over (False, Disc DiscRequested, DiscRequested)" by (simp add: receives_main)
  note peer_winds_down [of ?run ?d ?u, OF _ _ this]
  moreover have "pt_writing ?u = {''xcosh''}" by (simp add: startProtocols_def)
  ultimately show ?thesis by (intro exI [of _ ?u]) simp
qed

end
