(* ===== verification/P2P_Calls.thy ===== *)
theory P2P_Calls
  imports Server_Loop P2P_Stubs Peer_Threads
begin

text \<open>
  The calls into the peer-to-peer server and its dial scheduler from outside their loops
  (\<open>internal/p2p/p2p.go\<close>, \<open>server.go\<close>, \<open>dial.go\<close>): each hands an event to a loop, or gives up when the loop
  has ended. Then what a dial task does once it has a node, and the texts of connections, tasks and
  peers. Which case of a select fires is a flag; an IP address's text, and a node's identity as text, are
  parameters.
\<close>

section \<open>Calls into the main loop\<close>

definition frameReadTimeout :: int where "frameReadTimeout = 30 * second"
definition frameWriteTimeout :: int where "frameWriteTimeout = 20 * second"

text \<open>\<open>doPeerOp\<close>: a function run by the loop on its peers; what it would have set keeps its value when
  the server quits.\<close>

definition doPeerOp :: "bool \<Rightarrow> ((node_id \<times> conn) list \<Rightarrow> 'a) \<Rightarrow> 'a \<Rightarrow> run_state \<Rightarrow> 'a" where
  "doPeerOp quit fn unset st = (if quit then unset else fn (rs_peers st))"

definition AddTrustedPeer :: "bool \<Rightarrow> Node \<Rightarrow> run_event list" where
  "AddTrustedPeer quit node = (if quit then [] else [AddTrusted node])"

definition RemoveTrustedPeer :: "bool \<Rightarrow> Node \<Rightarrow> run_event list" where
  "RemoveTrustedPeer quit node = (if quit then [] else [RemoveTrusted node])"

definition Server_AddTrustedPeer :: "bool \<Rightarrow> Node \<Rightarrow> run_event list" where
  "Server_AddTrustedPeer quit node = (if quit then [] else [AddTrusted node])"

definition Server_RemoveTrustedPeer :: "bool \<Rightarrow> Node \<Rightarrow> run_event list" where
  "Server_RemoveTrustedPeer quit node = (if quit then [] else [RemoveTrusted node])"

text \<open>A call into the dial scheduler; \<open>stop\<close> cancels its context.\<close>

definition dial_call :: "bool \<Rightarrow> dial_event \<Rightarrow> dial_event list" where
  "dial_call cancelled ev = (if cancelled then [] else [ev])"

definition P2PServer_AddPeer :: "bool \<Rightarrow> Node \<Rightarrow> dial_event list" where
  "P2PServer_AddPeer cancelled node = dial_call cancelled (AddStatic node)"

definition Server_AddPeer :: "bool \<Rightarrow> Node \<Rightarrow> dial_event list" where
  "Server_AddPeer cancelled node = dial_call cancelled (AddStatic node)"

text \<open>Before the start there is no local node, and a node of no address stands for it; \<open>net.ParseIP\<close> makes
  sixteen bytes of an IPv4 address. \<open>NewV4\<close> of the second server is not in the repository.\<close>

definition ParseIPv4 :: "bytes \<Rightarrow> char slice" where
  "ParseIPv4 bs = Some (replicate 10 (CHR 0x00) @ [CHR 0xFF, CHR 0xFF] @ bs)"

definition Self :: "Node option \<Rightarrow> Node" where
  "Self localnode =
     (case localnode of
        None \<Rightarrow> NewNodeV4 (Some (replicate 1952 (CHR 0x00))) (ParseIPv4 (replicate 4 (CHR 0x00))) 0 0
      | Some n \<Rightarrow> n)"

definition Server_Self :: "(bytes \<Rightarrow> char slice \<Rightarrow> int \<Rightarrow> int \<Rightarrow> Node) \<Rightarrow> bytes \<Rightarrow> Node option \<Rightarrow> Node" where
  "Server_Self NewV4 publicKey localnode =
     (case localnode of
        None \<Rightarrow> NewV4 publicKey (ParseIPv4 (replicate 4 (CHR 0x00))) 0 0
      | Some n \<Rightarrow> n)"

text \<open>The sync engine starts and stops its server.\<close>

definition SyncEngine_Start :: "start_env \<Rightarrow> bool \<Rightarrow> StartConfig \<Rightarrow> (start_error option \<times> StartConfig) progress" where
  "SyncEngine_Start env running server = start_up env running server"

definition SyncEngine_Stop :: "P2PServer \<Rightarrow> P2PServer" where
  "SyncEngine_Stop server = Stop server"

section \<open>Dialing\<close>

datatype dial_fault = OpError string dial_fault | OtherError string

text \<open>\<open>tcpDialer.Dial\<close>, over the dialer of \<open>net\<close>.\<close>

definition dial_address :: "(char slice \<Rightarrow> string) \<Rightarrow> Node \<Rightarrow> string" where
  "dial_address ipText dest = ipText (nd_IP dest) @ '':'' @ int_text (nd_TCPPort dest)"

definition tcpDialer_Dial ::
  "(char slice \<Rightarrow> string) \<Rightarrow> (string \<Rightarrow> dial_fault + 'fd) \<Rightarrow> Node \<Rightarrow> dial_fault + 'fd" where
  "tcpDialer_Dial ipText dialContext dest = dialContext (dial_address ipText dest)"

text \<open>The error of \<open>dial\<close>: the dialer's own, or that of the set-up of the connection.\<close>

datatype 'e dialError = DialError dial_fault | SetupFailed 'e

definition dialTask_dial ::
  "(Node \<Rightarrow> dial_fault + 'fd) \<Rightarrow> ('fd \<Rightarrow> connFlag \<Rightarrow> Node \<Rightarrow> 'e option) \<Rightarrow> dialTask \<Rightarrow> Node
     \<Rightarrow> 'e dialError option" where
  "dialTask_dial dialer setupFunc t dest =
     (case dialer dest of
        Inl err \<Rightarrow> Some (DialError err)
      | Inr fd \<Rightarrow> map_option SetupFailed (setupFunc fd (dt_flags t) dest))"

fun cleanupDialErr :: "dial_fault \<Rightarrow> dial_fault" where
  "cleanupDialErr (OpError oper err) = (if oper = ''dial'' then err else OpError oper err)"
| "cleanupDialErr (OtherError text) = OtherError text"

text \<open>The whole of \<open>run\<close>: a node to resolve is dialed once it is resolved, and the outcome is dropped.
  \<open>None\<close> is a task that did not dial.\<close>

definition dialTask_run ::
  "(Node \<Rightarrow> Node option) option \<Rightarrow> int \<Rightarrow> (Node \<Rightarrow> dial_fault + 'fd)
     \<Rightarrow> ('fd \<Rightarrow> connFlag \<Rightarrow> Node \<Rightarrow> 'e option) \<Rightarrow> dialTask \<Rightarrow> 'e dialError option option \<times> dialTask" where
  "dialTask_run resolver now dialer setupFunc t =
     (case task_run resolver now t of
        (None, t1) \<Rightarrow> (None, t1)
      | (Some dest, t1) \<Rightarrow> (Some (dialTask_dial dialer setupFunc t1 dest), t1))"

text \<open>\<open>rearmHistoryTimer\<close>, which nothing calls: the wait, if the history holds anything. \<open>nextExpiry\<close> is
  the least time in it.\<close>

definition rearmHistoryTimer :: "('h \<Rightarrow> int option) \<Rightarrow> int \<Rightarrow> 'h dialScheduler \<Rightarrow> int option" where
  "rearmHistoryTimer nextExpiry now d = map_option (\<lambda>t. t - now) (nextExpiry (ds_history d))"

section \<open>Texts\<close>

definition conn_String :: "(node_id \<Rightarrow> string) \<Rightarrow> string \<Rightarrow> conn \<Rightarrow> string" where
  "conn_String idText remote c =
     connFlag_String (cn_flags c)
       @ (if nd_ID (cn_node c) \<noteq> zero_id then '' '' @ idText (nd_ID (cn_node c)) else [])
       @ '' '' @ remote"

definition dialTask_String :: "(char slice \<Rightarrow> string) \<Rightarrow> dialTask \<Rightarrow> string" where
  "dialTask_String ipText t =
     (let node = dt_dest t in
      connFlag_String (dt_flags t) @ '' '' @ hex_encode (take 8 (nd_ID node)) @ '' ''
        @ ipText (nd_IP node) @ '':'' @ int_text (nd_TCPPort node))"

definition Peer_String :: "string \<Rightarrow> Peer \<Rightarrow> string" where
  "Peer_String remote p = ''Peer '' @ hex_encode (take 8 (Peer_ID p)) @ '' '' @ remote"

text \<open>\<open>NewPeer\<close>, for tests: a protocol of no length for every capability, and a node on this machine.\<close>

definition NewPeer :: "(Cap list \<Rightarrow> Cap list) \<Rightarrow> node_id \<Rightarrow> string \<Rightarrow> Cap list \<Rightarrow> Peer" where
  "NewPeer sortf nid name caps =
     newPeer sortf
       \<lparr>cn_node = \<lparr>nd_ID = nid, nd_IP = ParseIPv4 [CHR 0x7F, CHR 0x00, CHR 0x00, CHR 0x01], nd_TCPPort = 30303\<rparr>,
        cn_flags = 0, cn_caps = caps, cn_name = name\<rparr>
       (map (\<lambda>c. \<lparr>pr_Name = cap_Name c, pr_Version = cap_Version c, pr_Length = 0\<rparr>) caps)"

section \<open>What the calls do\<close>

lemma peer_op_calls:
  "Peers quit st = doPeerOp quit (map snd) [] st"
  "PeerCount quit st = doPeerOp quit length 0 st"
  "RemovePeer quit node st
     = doPeerOp quit (\<lambda>peers. ([RemoveStatic node], map_of peers (nd_ID node))) ([], None) st"
  by (simp_all add: Peers_def PeerCount_def RemovePeer_def doPeerOp_def)

text \<open>A trusted node passes every limit: after the call only a second connection, or one to the node
  itself, is refused; and once it is not trusted any more the limits hold for it again.\<close>

lemma trusted_call_admits:
  assumes "AddTrustedPeer False node = [ev]" and "nd_ID (cn_node c) = nd_ID node"
    and "map_of (rs_peers st) (nd_ID node) = None" and "nd_ID node \<noteq> self"
  shows "fst (run_handle srv self (PostHandshake c) (snd (snd (run_handle srv self ev st))))
    = Verdict None (conn_set trustedConn True c)"
proof -
  have "map_of (set_trusted (nd_ID node) True (rs_peers st)) (nd_ID node) = None"
    using assms(3) by (simp add: map_of_eq_None_iff flip: set_map)
  then have "postHandshakeChecks srv self (set_trusted (nd_ID node) True (rs_peers st)) n
      (conn_set trustedConn True c) = None" for n
    using assms(4) by (simp add: postHandshakeChecks_def assms(2))
  moreover have "ev = AddTrusted node" using assms(1) by (simp add: AddTrustedPeer_def)
  ultimately show ?thesis by (simp add: run_handle_def Let_def assms(2))
qed

lemma untrusted_call_limits:
  assumes "RemoveTrustedPeer False node = [ev]" and "nd_ID (cn_node c) = nd_ID node"
    and "\<not> conn_is c trustedConn" and "int (length (rs_peers st)) \<ge> pc_MaxPeers srv"
  shows "fst (run_handle srv self (PostHandshake c) (snd (snd (run_handle srv self ev st))))
    = Verdict (Some DiscTooManyPeers) c"
proof -
  have "ev = RemoveTrusted node" using assms(1) by (simp add: RemoveTrustedPeer_def)
  then show ?thesis
    using assms(2-4) by (simp add: run_handle_def postHandshakeChecks_def set_trusted_def Let_def)
qed

lemma second_server_calls:
  "Server_AddTrustedPeer = AddTrustedPeer" "Server_RemoveTrustedPeer = RemoveTrustedPeer"
  "Server_AddPeer = P2PServer_AddPeer" "Server_doPeerOp = doPeerOp"
  by (simp_all add: fun_eq_iff Server_AddTrustedPeer_def AddTrustedPeer_def Server_RemoveTrustedPeer_def
      RemoveTrustedPeer_def Server_AddPeer_def P2PServer_AddPeer_def Server_doPeerOp_def doPeerOp_def)

text \<open>A task dials at most once, the node it has resolved, and only then is a connection set up.\<close>

lemma dial_error_or_setup:
  "dialTask_dial dialer setupFunc t dest = None \<longleftrightarrow>
     (\<exists>fd. dialer dest = Inr fd \<and> setupFunc fd (dt_flags t) dest = None)"
  by (simp add: dialTask_dial_def split: sum.split)

end
