(* ===== verification/Spec2Isabelle.thy ===== *)
theory Spec2Isabelle
  imports System_Props Restart_Props Net_Props Service_Props Server_Props Amount_Props Reports
    P2P_Messages P2P_Calls
begin

text \<open>
  A verification development for Xcosh, a proof-of-work blockchain node written in Go.

  \<^bold>\<open>The program.\<close> A node keeps a chain of blocks, the account balances it implies, a queue of signed
  transfers and a LevelDB store (\<open>node/ledger.go\<close> over \<open>core/\<close> and \<open>storage/db.go\<close>, under the rules of
  \<open>internal/consensus/consensus.go\<close>, with the signatures of \<open>crypto/\<close>). The command line (\<open>xcosh.go\<close>,
  \<open>internal/cli/handlers.go\<close>) signs transfers with the keys of \<open>storage/wallet/wallet.go\<close> and leaves
  them in the file \<open>mempool.json\<close>; the daemon (\<open>internal/daemon/server.go\<close>) takes that file over, mines
  blocks, and answers the JSON-RPC requests (\<open>internal/rpc/server.go\<close>) of the same command line, under
  the credentials of \<open>internal/settings.go\<close>. Two peer-to-peer layers stand beside it in
  \<open>internal/p2p\<close>: a server with a dial scheduler and protocol multiplexing (\<open>p2p.go\<close>, \<open>dial.go\<close>,
  \<open>peer.go\<close>, \<open>types.go\<close>, and \<open>server.go\<close>, which declares the same server again), which the daemon starts
  through \<open>internal/sync.go\<close>; and a plain TCP server with an address table (\<open>network.go\<close>, \<open>addrman.go\<close>,
  \<open>seeds.go\<close>).

  \<^bold>\<open>Theories and sources.\<close>

  \<^item> \<open>Prelude\<close>: bytes, slices, outcomes (a call returns or panics), loops over outcomes, the interfaces
    \<open>machine\<close> of a step relation with an invariant and \<open>simulation\<close> of one by another, words, hint
    collections. \<open>Go_Std\<close>, \<open>Go_Json\<close>, \<open>Go_Text\<close>, \<open>Go_Indent\<close>, \<open>Go_Float\<close>, \<open>Go_Numbers\<close>: what the program
    uses of Go's standard library and language, written out: formatting and parsing, binary64
    with its rounding, and the disk: files, and what may be read, written and made.
    \<open>Go_Unmarshal\<close>: \<open>json.Unmarshal\<close>, a scanner over bytes and the values it yields; \<open>Go_Roundtrip\<close>: what
    the encoders write scans back; \<open>Go_Valid\<close>: every text it yields is UTF-8; \<open>Go_Stream\<close>: \<open>json.Decoder\<close>,
    which reads one value after another. \<open>Decoders\<close>: transfers and blocks from their encodings.
  \<^item> \<open>Crypto\<close>, \<open>Consensus\<close>, \<open>Transfers\<close>, \<open>Blocks\<close>, \<open>Validator\<close>, \<open>Database\<close>: the packages \<open>crypto\<close>,
    \<open>internal/consensus\<close>, \<open>core\<close> and \<open>storage\<close>. The goroutines of \<open>Mine\<close> are the step relation
    \<open>mine_step\<close>. \<open>Params\<close>: \<open>node/params.go\<close>.
  \<^item> \<open>Ledger\<close>: every operation of \<open>node/ledger.go\<close>. \<open>MineBlock\<close> is three definitions, one per critical
    section and the part between them. \<open>Ledger_Chain\<close>, \<open>Ledger_Balances\<close>, \<open>Ledger_Runs\<close> and
    \<open>Ledger_Restart\<close> hold the invariants: the shape of the chain, balances as a function of the
    chain, and the two along the runs of \<open>ledger_step\<close>; the stored chain and the restart.
    \<open>Restart_Props\<close>: a restart with texts that are not UTF-8.
    \<open>Mining_Threads\<close>: several calls of \<open>MineBlock\<close> at once, whose critical sections interleave
    (\<open>threads_step\<close>, with the jobs in flight as a multiset), and \<open>mining_step\<close>, in which a job may also be
    given up and a selection break off.
  \<^item> \<open>Net_Types\<close>, \<open>Dialer\<close>, \<open>Peer\<close>, \<open>P2P_Server\<close>, \<open>P2P_Start\<close>, \<open>Peer_Feed\<close>: \<open>types.go\<close>, \<open>dial.go\<close>,
    \<open>peer.go\<close>, \<open>p2p.go\<close> (\<open>P2P_Start\<close>: its start step by step and its accept loop; \<open>Peer_Feed\<close>: a
    peer's life as the event feed shows it). \<open>Peer_Threads\<close>: the goroutines of a peer with the channels
    between them (\<open>peer_step\<close>). \<open>P2P_Stubs\<close>: the stubs of \<open>types.go\<close>, and the server built on them.
    \<open>Server_Go\<close>, \<open>Server_Loop\<close>, \<open>Peer_Info\<close>: \<open>server.go\<close>, what it does otherwise than \<open>p2p.go\<close>, what it
    repeats with the proof that it agrees, and its reports. \<open>P2P_Calls\<close>: the calls into the loops of the
    server and of the dial scheduler, and the texts of connections, tasks and peers. Dial tasks are
    shared by pointer in the code, so they are positions in a list here. The loops of the dial scheduler
    and of the server are functions of one event (\<open>loop_turn\<close>, \<open>run_handle\<close>); \<open>dial_step\<close> and \<open>net_step\<close>
    are their runs, the latter of both together. \<open>Dialer_Pool\<close>, \<open>Dialer_Runs\<close> and \<open>P2P_Runs\<close> hold their invariants.
  \<^item> \<open>P2P_Network\<close>: \<open>addrman.go\<close> and \<open>network.go\<close> with the runs \<open>network_step\<close>; the address table may be
    a nil map or hold nil entries, and writing to it then panics. \<open>P2P_Messages\<close>: the messages of
    \<open>network.go\<close> as bytes, sent, and read where the code starts a reader (\<open>far_end_reads\<close>). \<open>Bootstrap\<close>:
    \<open>seeds.go\<close>, \<open>sync.go\<close> and the node constructor of \<open>types.go\<close>.
  \<^item> \<open>Settings\<close>, \<open>Wallet\<close>, \<open>Node_Status\<close> (uptime, traffic counters, forks), \<open>Mempool_File\<close>,
    \<open>RPC_Server\<close>, \<open>RPC_Wire\<close> (a request as bytes, from the command line to the handler), \<open>Commands\<close> (the
    handlers and the daemon's turns), \<open>Daemon_Runs\<close> (the daemon's start-up,
    and its runs \<open>daemon_step\<close>: the miner's loop, the handlers, the exporter and other processes, all at
    once; it implements \<open>mining_step\<close>, and a goroutine that nothing interrupts does what \<open>daemon_tick\<close> and
    \<open>rpc_generate\<close> say), \<open>Entry\<close> (\<open>xcosh.go\<close>: flags and
    dispatch), \<open>Reports\<close> (\<open>core/explorer.go\<close> and the size of the database).

  Records, constructors, functions and fields carry the source's names, with a short prefix for
  fields and a suffix or prefix where a name is taken (\<open>node_CalculateBlockReward\<close>,
  \<open>SyncEngine_ConnectToPeer\<close>). Integers have their width; Go's \<open>int\<close> is an integer where its bound
  plays no part. A nil slice is told from an empty one. A method that changes its receiver
  returns it; a panic is a value of \<open>outcome\<close>; an error is an option or a sum. A Go map whose order
  shows is an association list. What one critical section does is one definition, and the
  operations that leave their lock (\<open>MineBlock\<close>) are split there; of the lock itself the daemon's state
  keeps whether a goroutine that is gone holds it.

  \<^bold>\<open>Parameters and hypotheses.\<close> Keccak-256, SHA-3 and Dilithium are the record \<open>crypto_lib\<close>; that a
  generated pair signs and verifies is \<open>key_pair\<close>. LevelDB is the record \<open>leveldb\<close>, its laws the
  locale \<open>level_db\<close>, from which the block store's contract \<open>index_store\<close> follows; it may fail, and where a
  property needs that the saves and deletes of its run do not, it says so (\<open>writes_succeed\<close>). \<open>sort.Slice\<close>, the clock, random numbers, the expiring heap, the RLP decoder, name
  resolution, the text of an IP address, the coding of the address file (it holds times), the
  deliveries of a database iterator, the conversion of a float out of range to an integer and what
  a connection delivers are arguments. A property that needs a law of one of them names it as a
  hypothesis, and its witness gives a concrete function that satisfies it. Of the expiring heap the
  properties need only \<open>history_laws\<close>, which the repository's stub satisfies as well as a heap that
  remembers.
  A number among the parameters of a request becomes a float, as it does in Go; a \<open>json.RawMessage\<close> is
  kept as the value it encodes. A list of pointers from a file may hold nil, and the model panics as
  soon as it holds one (\<open>pointers\<close>); only in the daemon's runs may a handler come upon a nil first.

  \<^bold>\<open>What is shown.\<close> \<open>Core_Props\<close>: the emission schedule and the cap, the validator as a
  specification, the difficulty rule, the proof of work as leading zeros, the payload, the nonce
  search. \<open>Ledger_Props\<close>: chain, balances and store along the runs, conservation of coins,
  restart, rollback, progress of mining, and where the code's books drift; \<open>Restart_Props\<close>: the
  restart that pays others, since the encoding replaces invalid bytes. \<open>Net_Props\<close>: the dial
  pool, absence of panics, agreement of server and scheduler, admission, slots, message
  routing. \<open>Network_Props\<close>: the address table and the connection map, bootstrap, reports, shutdown,
  the accept loop's slots, and that the server the daemon builds never comes up. \<open>Server_Props\<close>: the
  accept loop of \<open>server.go\<close> against that of \<open>p2p.go\<close>, and the removal of a peer where the feed delivers.
  \<open>P2P_Stubs\<close>: on the stubs no peer is ever let in. \<open>Peer_Threads\<close>: once its main loop is over, the closing
  of its channel and connection ends all goroutines of a peer, and no channel holds one up.
  \<open>P2P_Messages\<close>: what is broadcast arrives, in order, at a peer that was accepted, and nothing at one
  that dialed. \<open>Reports\<close>: the explorer shows the blocks that were stored.
  \<open>Service_Props\<close>: configuration, authentication, wallet, uptime, forks, lookups. \<open>Mempool_Props\<close>: the way
  of a transfer from the wallet to the queue and to a block, and of a mining request from the
  command line to the chain. \<open>System_Props\<close>: what a daemon keeps with all its goroutines at once, panics of
  handlers included (every block was accepted after an earlier one, and there are no more coins than
  rewards); what interleaved miners keep (no coin is lost or made); that the daemon as it stands never
  reaches its loops, since its engine's start does not return without an error (the books are those
  of a daemon whose engine is given a logger, and of the requests served before); and that the peers
  file loses what it held. \<open>Amount_Props\<close>: amounts given in coins, to a unit. Lemmas that are no property of
  their own (for example \<open>fork_panics\<close>, \<open>default_miner_panics\<close>, \<open>forwarded_generate\<close>, \<open>request_understood\<close>,
  \<open>wedged_step\<close>, \<open>uninterrupted_turn\<close>) stand beside them.

  The contracts are locales: \<open>index_store\<close> and \<open>level_db\<close> (\<open>Database\<close>), \<open>block_gate\<close>, what the ledger
  needs of the validator (\<open>Ledger_Chain\<close>), \<open>machine\<close>, interpreted for the nonce search, the
  ledger (three invariants), interleaved miners (coins modulo \<open>2 ^ 64\<close> and as numbers, and the two that
  survive panics), a daemon with a lost lock, the dial scheduler, the server with its scheduler, the
  goroutines of a peer, and the network server (three), and \<open>simulation\<close> with \<open>implementation\<close>,
  interpreted for the daemon over the miners (two invariants) and for the second server over the first.

  \<^bold>\<open>Bounds and termination.\<close> No fuel is used. Loops over lists are structural; \<open>load_blocks\<close> counts the
  heights left, and \<open>static_dials\<close> the dials left. The search of \<open>Mine\<close> may run for ever, so it is
  a relation, and what is proved is what it returns when it does and what it never tries. The
  heights of a chain stay below 2^64 because timestamps increase.

  \<^bold>\<open>Not modelled.\<close> Console output (what would be printed is returned instead) and the usage text. The
  HTTP routes and listeners around the handlers, the JSON of a response, and the waits between the
  turns of the daemon's loops. A nil transfer behind a full block in the queue file. The time format of the address file, whose coding is a parameter.
  Discovery, metrics, the encrypted transport and the port mapper beyond their stubs, which is all
  the repository has of them. \<open>NewPeerPipe\<close>, which only tests use, accessors that return a field,
  and declarations nothing refers to.
\<close>

end
